(* ===== verification/Prelude.thy ===== *)
theory Prelude
  imports Main
    "HOL-Library.Finite_Map" "HOL-Library.FSet" "HOL-Library.Word"
    "HOL-Library.Char_ord" "HOL-Library.List_Lexorder" "HOL-Library.Product_Lexorder"
    "HOL-Library.Option_ord" "HOL-Library.Code_Target_Nat"
begin

section \<open>Prelude: Rust types, ordered containers and shared lemmas\<close>

text \<open>
  What every component of the development shares.

  \<^item> Machine integers are words of their width. \<open>saturating_add\<close>, \<open>saturating_sub\<close> and
    \<open>checked_add\<close> are the methods of the Rust integer types of that name; \<open>usize\<close> counts of
    elements held in memory are \<open>nat\<close>.
  \<^item> A \<^verbatim>\<open>BTreeMap\<close> or \<^verbatim>\<open>HashMap\<close> is a finite map \<open>('k, 'v) fmap\<close>, a \<^verbatim>\<open>BTreeSet\<close> or
    \<^verbatim>\<open>HashSet\<close> a finite set \<open>'k fset\<close>: both are extensional, so equality of states is equality of
    contents. Iteration runs in key order over \<open>fmentries\<close>, \<open>fmvalues\<close> and \<open>fmkeys\<close>, as the
    iterators of a \<^verbatim>\<open>BTreeMap\<close> do.
  \<^item> A \<^verbatim>\<open>String\<close> is its UTF-8 bytes, a \<open>string\<close>; the order on strings is the bytewise
    lexicographic order, which is Rust's.
  \<^item> \<^verbatim>\<open>Result<T, E>\<close> is the sum \<open>'e + 'a\<close>, \<open>Inl\<close> the error.
\<close>

subsection \<open>Automation shared by the components\<close>

named_theorems wf_intros \<open>introduction rules: an operation keeps a component's invariant\<close>
named_theorems lookup_simps \<open>what a lookup returns after an operation\<close>
named_theorems frame_simps \<open>fields that an operation leaves alone\<close>

subsection \<open>Machine integers\<close>

type_synonym u8 = "8 word"
type_synonym u16 = "16 word"
type_synonym u32 = "32 word"
type_synonym u64 = "64 word"

text \<open>An \<^verbatim>\<open>f64\<close> is only ever carried by the modelled code: it is its bit pattern.\<close>

type_synonym f64 = "64 word"
type_synonym bytes = "8 word list"

abbreviation u64_MAX :: u64 where
  "u64_MAX \<equiv> - 1"

definition saturating_add :: "'a::len word \<Rightarrow> 'a word \<Rightarrow> 'a word" where
  "saturating_add a b = (if uint a + uint b < 2 ^ LENGTH('a) then a + b else - 1)"

definition saturating_sub :: "'a::len word \<Rightarrow> 'a word \<Rightarrow> 'a word" where
  "saturating_sub a b = (if b \<le> a then a - b else 0)"

definition checked_add :: "'a::len word \<Rightarrow> 'a word \<Rightarrow> 'a word option" where
  "checked_add a b = (if uint a + uint b < 2 ^ LENGTH('a) then Some (a + b) else None)"

text \<open>\<^verbatim>\<open>u64::try_from(n).unwrap_or(u64::MAX)\<close> on an unsigned \<^verbatim>\<open>n\<close> of any width.\<close>

definition u64_from_or_max :: "nat \<Rightarrow> u64" where
  "u64_from_or_max n = (if int n < 2 ^ 64 then word_of_int (int n) else u64_MAX)"

lemma unat_max_word: "unat (- 1 :: 'a::len word) = 2 ^ LENGTH('a) - 1"
  by (simp add: unsigned_minus_1_eq_mask mask_eq_exp_minus_1)

lemma uint_lt_nat: "uint (a::'a::len word) + uint b < 2 ^ LENGTH('a) \<longleftrightarrow> unat a + unat b < 2 ^ LENGTH('a)"
proof -
  have "uint a + uint b < 2 ^ LENGTH('a) \<longleftrightarrow> int (unat a + unat b) < int (2 ^ LENGTH('a))"
    by simp
  then show ?thesis
    by (simp only: of_nat_less_iff)
qed

lemma unat_saturating_add:
  "unat (saturating_add a b :: 'a::len word) = min (2 ^ LENGTH('a) - 1) (unat a + unat b)"
  unfolding saturating_add_def uint_lt_nat
  by (simp add: unat_max_word unat_word_ariths)

lemma unat_saturating_sub: "unat (saturating_sub a b) = unat a - unat b"
  by (auto simp: saturating_sub_def unat_sub word_le_nat_alt)

lemma unat_checked_add: "checked_add a b = Some c \<Longrightarrow> unat c = unat a + unat b"
  unfolding checked_add_def uint_lt_nat
  by (auto simp: unat_word_ariths split: if_splits)

lemma checked_add_None_iff:
  "checked_add a b = None \<longleftrightarrow> 2 ^ LENGTH('a) \<le> unat a + unat (b :: 'a::len word)"
  unfolding checked_add_def uint_lt_nat by auto

lemma unat_u64_from_or_max: "unat (u64_from_or_max n) = min (2 ^ 64 - 1) n"
proof (cases "n < 2 ^ 64")
  case True
  then have "unat (word_of_int (int n) :: u64) = n"
    by (simp add: unat_of_nat take_bit_nat_eq_self)
  moreover have "int n < 2 ^ 64"
    using True by simp
  ultimately show ?thesis
    using True by (simp add: u64_from_or_max_def)
next
  case False
  then have "\<not> int n < 2 ^ 64"
    by simp
  with False show ?thesis
    by (simp add: u64_from_or_max_def unat_max_word)
qed

lemma unat_lt_u64: "unat (a::u64) < 2 ^ 64"
  using unsigned_less [of a] by simp

subsection \<open>Results\<close>

text \<open>The operator \<^verbatim>\<open>?\<close>: continue with the value, or return the error.\<close>

primrec try_bind :: "'e + 'a \<Rightarrow> ('a \<Rightarrow> 'e + 'b) \<Rightarrow> 'e + 'b" where
  "try_bind (Inl e) f = Inl e"
| "try_bind (Inr x) f = f x"

text \<open>An iterator of results collected into a result.\<close>

primrec collect_results :: "('e + 'a) list \<Rightarrow> 'e + 'a list" where
  "collect_results [] = Inr []"
| "collect_results (r # rs) = try_bind r (\<lambda>x. try_bind (collect_results rs) (\<lambda>xs. Inr (x # xs)))"

lemma try_bind_eq_Inr [simp]: "try_bind r f = Inr y \<longleftrightarrow> (\<exists>x. r = Inr x \<and> f x = Inr y)"
  by (cases r) simp_all

lemma collect_results_Inr: "(\<And>x. x \<in> set xs \<Longrightarrow> f x = Inr (g x)) \<Longrightarrow> collect_results (map f xs) = Inr (map g xs)"
  by (induction xs) simp_all

subsection \<open>Strings\<close>

text \<open>
  \<^verbatim>\<open>s.trim().is_empty()\<close>: the string is a sequence of characters with the Unicode property
  \<open>White_Space\<close>. The function removes one such character, in its UTF-8 encoding, at a time.
\<close>

definition ascii_space :: "char \<Rightarrow> bool" where
  "ascii_space c \<longleftrightarrow> (let n = of_char c :: nat in n = 32 \<or> (9 \<le> n \<and> n \<le> 13))"

definition wide_space2 :: "nat \<Rightarrow> nat \<Rightarrow> bool" where
  "wide_space2 a b \<longleftrightarrow> a = 194 \<and> (b = 133 \<or> b = 160)"

definition wide_space3 :: "nat \<Rightarrow> nat \<Rightarrow> nat \<Rightarrow> bool" where
  "wide_space3 a b c \<longleftrightarrow>
     a = 225 \<and> b = 154 \<and> c = 128 \<or>
     a = 226 \<and> b = 128 \<and> (128 \<le> c \<and> c \<le> 138 \<or> c = 168 \<or> c = 169 \<or> c = 175) \<or>
     a = 226 \<and> b = 129 \<and> c = 159 \<or>
     a = 227 \<and> b = 128 \<and> c = 128"

fun is_blank :: "string \<Rightarrow> bool" where
  "is_blank [] = True"
| "is_blank (a # s) =
     (if ascii_space a then is_blank s
      else case s of [] \<Rightarrow> False
        | b # s' \<Rightarrow>
            if wide_space2 (of_char a) (of_char b) then is_blank s'
            else case s' of [] \<Rightarrow> False
              | c # s'' \<Rightarrow> wide_space3 (of_char a) (of_char b) (of_char c) \<and> is_blank s'')"

definition string_bytes :: "string \<Rightarrow> bytes" where
  "string_bytes s = map of_char s"

subsection \<open>Ordered iteration over finite maps\<close>

definition fmentries :: "('k::linorder, 'v) fmap \<Rightarrow> ('k \<times> 'v) list" where
  "fmentries m = sorted_list_of_fmap m"

definition fmvalues :: "('k::linorder, 'v) fmap \<Rightarrow> 'v list" where
  "fmvalues m = map snd (fmentries m)"

definition fmkeys :: "('k::linorder, 'v) fmap \<Rightarrow> 'k list" where
  "fmkeys m = sorted_list_of_fset (fmdom m)"

definition fmcount :: "('k, 'v) fmap \<Rightarrow> nat" where
  "fmcount m = fcard (fmdom m)"

text \<open>\<^verbatim>\<open>BTreeMap::retain\<close>: keep the entries that satisfy a predicate of key and value.\<close>

definition fmretain :: "('k \<Rightarrow> 'v \<Rightarrow> bool) \<Rightarrow> ('k, 'v) fmap \<Rightarrow> ('k, 'v) fmap" where
  "fmretain P m = fmfilter (\<lambda>k. case fmlookup m k of None \<Rightarrow> False | Some v \<Rightarrow> P k v) m"

text \<open>
  \<^verbatim>\<open>for (k, v) in &n { let slot = m.entry(k).or_insert(..); .. }\<close>: visit the entries of \<open>n\<close> in
  key order and store \<open>g (current slot) v\<close> under each key of \<open>m\<close>.
\<close>

definition fm_for_entries ::
  "('v option \<Rightarrow> 'w \<Rightarrow> 'v) \<Rightarrow> ('k::linorder, 'w) fmap \<Rightarrow> ('k, 'v) fmap \<Rightarrow> ('k, 'v) fmap" where
  "fm_for_entries g n m = fold (\<lambda>(k, v) acc. fmupd k (g (fmlookup acc k) v) acc) (fmentries n) m"

lemma fmap_eqI: "(\<And>k. fmlookup m k = fmlookup n k) \<Longrightarrow> m = n"
  by (rule fmap_ext) simp

lemma fmentries_keys: "map fst (fmentries m) = fmkeys m"
  by (simp add: fmentries_def fmkeys_def sorted_list_of_fmap_def comp_def)

lemma distinct_fmkeys [simp]: "distinct (fmkeys m)"
  by (simp add: fmkeys_def sorted_list_of_fset.rep_eq)

lemma set_fmkeys [simp]: "set (fmkeys m) = fset (fmdom m)"
  by (simp add: fmkeys_def sorted_list_of_fset.rep_eq)

lemma map_of_fmentries [simp]: "map_of (fmentries m) = fmlookup m"
  by (simp add: fmentries_def)

lemma distinct_fmentries_keys [simp]: "distinct (map fst (fmentries m))"
  by (simp add: fmentries_keys)

lemma distinct_fmentries [simp]: "distinct (fmentries m)"
  using distinct_fmentries_keys distinct_map by blast

lemma in_fmentries [simp]: "(k, v) \<in> set (fmentries m) \<longleftrightarrow> fmlookup m k = Some v"
  using map_of_eq_Some_iff [OF distinct_fmentries_keys, of m k v] by simp

lemma set_fmentries: "set (fmentries m) = {(k, v). fmlookup m k = Some v}"
  by auto

lemma in_fmvalues [simp]: "v \<in> set (fmvalues m) \<longleftrightarrow> (\<exists>k. fmlookup m k = Some v)"
  unfolding fmvalues_def set_map set_fmentries by (auto simp: image_iff)

lemma fmentries_empty [simp]: "fmentries fmempty = []"
  by (simp add: fmentries_def sorted_list_of_fmap_def sorted_list_of_fset.rep_eq)

lemma fmvalues_empty [simp]: "fmvalues fmempty = []"
  by (simp add: fmvalues_def)

lemma fmretain_lookup [simp, lookup_simps]:
  "fmlookup (fmretain P m) k = (case fmlookup m k of None \<Rightarrow> None | Some v \<Rightarrow> if P k v then Some v else None)"
  by (auto simp: fmretain_def split: option.splits)

lemma fmretain_subset: "fmdom (fmretain P m) |\<subseteq>| fmdom m"
  by (auto simp: fmretain_def)

lemma fmretain_all: "(\<And>k v. fmlookup m k = Some v \<Longrightarrow> P k v) \<Longrightarrow> fmretain P m = m"
  by (rule fmap_eqI) (auto split: option.splits)

lemma fmcount_mono: "fmdom m |\<subseteq>| fmdom n \<Longrightarrow> fmcount m \<le> fmcount n"
  by (simp add: fmcount_def fcard_mono)

lemma fmcount_retain: "fmcount (fmretain P m) \<le> fmcount m"
  by (rule fmcount_mono) (rule fmretain_subset)

lemma fmcount_fmupd: "fmcount (fmupd k v m) = (if k |\<in>| fmdom m then fmcount m else Suc (fmcount m))"
  by (simp add: fmcount_def finsert_absorb fcard_finsert_disjoint)

lemma fmcount_empty [simp]: "fmcount fmempty = 0"
  by (simp add: fmcount_def)

lemma fm_fold_entries_lookup:
  assumes "distinct (map fst xs)"
  shows "fmlookup (fold (\<lambda>(k, v) acc. fmupd k (g (fmlookup acc k) v) acc) xs m) k =
    (case map_of xs k of None \<Rightarrow> fmlookup m k | Some v \<Rightarrow> Some (g (fmlookup m k) v))"
  using assms
proof (induction xs arbitrary: m)
  case Nil
  then show ?case by simp
next
  case (Cons x xs)
  obtain a b where x: "x = (a, b)" by (cases x)
  from Cons.prems x have "map_of xs a = None"
    by (simp add: map_of_eq_None_iff)
  with Cons x show ?case
    by (cases "k = a") (simp_all split: option.splits)
qed

lemma fm_for_entries_lookup [simp, lookup_simps]:
  "fmlookup (fm_for_entries g n m) k =
    (case fmlookup n k of None \<Rightarrow> fmlookup m k | Some v \<Rightarrow> Some (g (fmlookup m k) v))"
  by (simp add: fm_for_entries_def fm_fold_entries_lookup)

lemma fm_for_entries_dom: "fmdom (fm_for_entries g n m) = fmdom m |\<union>| fmdom n"
  by (rule fset_eqI) (auto simp: fmlookup_dom_iff split: option.splits)

lemma map_of_filter_values:
  "distinct (map fst xs) \<Longrightarrow> map_of (filter (\<lambda>(k, v). Q v) xs) k =
    (case map_of xs k of None \<Rightarrow> None | Some v \<Rightarrow> if Q v then Some v else None)"
  by (induction xs) (auto simp: map_of_eq_None_iff split: option.splits)

text \<open>Pairs collected into a map: a later pair replaces an earlier one with its key.\<close>

definition collect_map :: "('k \<times> 'v) list \<Rightarrow> ('k, 'v) fmap" where
  "collect_map kvs = fold (\<lambda>(k, v) m. fmupd k v m) kvs fmempty"

lemma fold_fmupd_lookup:
  "fmlookup (fold (\<lambda>(k, v) m. fmupd k v m) kvs m) k =
    (case map_of (rev kvs) k of None \<Rightarrow> fmlookup m k | Some v \<Rightarrow> Some v)"
  by (induction kvs arbitrary: m) (auto simp: map_add_def split: option.splits)

lemma collect_map_lookup [lookup_simps]: "fmlookup (collect_map kvs) k = map_of (rev kvs) k"
  by (simp add: collect_map_def fold_fmupd_lookup split: option.split)

lemma collect_map_lookup_distinct:
  "distinct (map fst kvs) \<Longrightarrow> fmlookup (collect_map kvs) k = map_of kvs k"
proof -
  assume "distinct (map fst kvs)"
  then have "map_of (rev kvs) = map_of kvs"
    by (intro map_of_inject_set [THEN iffD2]) (simp_all add: rev_map [symmetric])
  then show ?thesis
    by (simp add: collect_map_lookup)
qed

lemma in_map_filter: "y \<in> set (List.map_filter f xs) \<longleftrightarrow> (\<exists>x\<in>set xs. f x = Some y)"
  by (auto simp: List.map_filter_def image_iff)

subsection \<open>Sums over finite maps\<close>

definition fmsum :: "('k \<times> 'v \<Rightarrow> nat) \<Rightarrow> ('k, 'v) fmap \<Rightarrow> nat" where
  "fmsum g m = sum g {(k, v). fmlookup m k = Some v}"

lemma finite_entries [simp]: "finite {(k, v). fmlookup m k = Some v}"
proof (rule finite_subset)
  show "{(k, v). fmlookup m k = Some v} \<subseteq> (\<lambda>k. (k, the (fmlookup m k))) ` fmdom' m"
    by (auto simp: image_iff fmlookup_dom'_iff)
qed simp

lemma sum_list_fmentries: "sum_list (map g (fmentries m)) = fmsum g m"
  by (simp add: fmsum_def sum_list_distinct_conv_sum_set set_fmentries)

lemma sum_list_filter_fmentries:
  "sum_list (map g (filter P (fmentries m))) = fmsum (\<lambda>x. if P x then g x else 0) m"
  by (simp add: sum_list_map_filter' sum_list_fmentries)

lemma fmsum_empty [simp]: "fmsum g fmempty = 0"
  by (simp add: fmsum_def)

lemma fmsum_upd: "fmsum g (fmupd k v m) = g (k, v) + fmsum g (fmdrop k m)"
proof -
  have "{(k', v'). fmlookup (fmupd k v m) k' = Some v'} =
    insert (k, v) {(k', v'). fmlookup (fmdrop k m) k' = Some v'}"
    by (auto split: if_splits)
  moreover have "(k, v) \<notin> {(k', v'). fmlookup (fmdrop k m) k' = Some v'}"
    by simp
  ultimately show ?thesis
    unfolding fmsum_def using sum.insert [OF finite_entries] by metis
qed

lemma fmsum_mono:
  assumes "\<And>k v. fmlookup m k = Some v \<Longrightarrow> fmlookup n k = Some v" "\<And>x. g x \<le> h x"
  shows "fmsum g m \<le> fmsum h n"
proof -
  have "fmsum g m \<le> sum h {(k, v). fmlookup m k = Some v}"
    unfolding fmsum_def by (rule sum_mono) (rule assms(2))
  also have "\<dots> \<le> fmsum h n"
    unfolding fmsum_def using assms(1) by (intro sum_mono2) auto
  finally show ?thesis .
qed

lemma fmsum_drop_le: "fmsum g (fmdrop k m) \<le> fmsum g m"
  by (rule fmsum_mono) (auto split: if_splits)

lemma fmsum_retain_le: "fmsum g (fmretain P m) \<le> fmsum g m"
  by (rule fmsum_mono) (auto split: option.splits if_splits)

lemma fmsum_split: "fmlookup m k = Some v \<Longrightarrow> fmsum g m = g (k, v) + fmsum g (fmdrop k m)"
  using fmsum_upd [of g k v m] by (metis fmap_eqI fmupd_lookup)

lemma fmdrop_absent: "fmlookup m k = None \<Longrightarrow> fmdrop k m = m"
  by (rule fmap_eqI) auto

lemma fmdrop_upd_same [simp]: "fmdrop k (fmupd k v m) = fmdrop k m"
  by (rule fmap_eqI) simp

lemma fmdrop_retain: "fmdrop k (fmretain P m) = fmretain P (fmdrop k m)"
  by (rule fmap_eqI) (simp split: option.split)

lemma fmsum_zero: "(\<And>k v. fmlookup m k = Some v \<Longrightarrow> g (k, v) = 0) \<Longrightarrow> fmsum g m = 0"
  unfolding fmsum_def by (rule sum.neutral) auto

lemma fmsum_cong: "(\<And>k v. fmlookup m k = Some v \<Longrightarrow> g (k, v) = h (k, v)) \<Longrightarrow> fmsum g m = fmsum h m"
  unfolding fmsum_def by (rule sum.cong) auto

lemma fmsum_drop_filter:
  "fmsum (\<lambda>x. if P x \<and> fst x \<noteq> k then g x else 0) m = fmsum (\<lambda>x. if P x then g x else 0) (fmdrop k m)"
proof (cases "fmlookup m k")
  case None
  then show ?thesis
    by (auto simp: fmdrop_absent intro!: fmsum_cong)
next
  case (Some v)
  have "fmsum (\<lambda>x. if P x \<and> fst x \<noteq> k then g x else 0) (fmdrop k m) = fmsum (\<lambda>x. if P x then g x else 0) (fmdrop k m)"
    by (rule fmsum_cong) (auto split: if_splits)
  then show ?thesis
    unfolding fmsum_split [OF Some, of "\<lambda>x. if P x \<and> fst x \<noteq> k then g x else 0"] by simp
qed

lemma length_filter_fmkeys: "length (filter P (fmkeys m)) = fmsum (\<lambda>x. if P (fst x) then 1 else 0) m"
proof -
  have "length (filter P (fmkeys m)) = sum_list (map (\<lambda>_. 1) (filter (\<lambda>x. P (fst x)) (fmentries m)))"
    by (simp add: fmentries_keys [symmetric] filter_map comp_def sum_list_triv)
  then show ?thesis
    by (simp only: sum_list_filter_fmentries)
qed

subsection \<open>Folds\<close>

text \<open>A fold that only keeps a property, and one whose steps commute.\<close>

lemma fold_invariant_mem:
  assumes "P s" and "\<And>x s. x \<in> set xs \<Longrightarrow> P s \<Longrightarrow> P (f x s)"
  shows "P (fold f xs s)"
  using assms by (induction xs arbitrary: s) auto

lemma fold_max_ge: "(s::'a::linorder) \<le> fold max xs s"
  by (induction xs arbitrary: s) (auto intro: order_trans [OF max.cobounded2])

lemma fold_max_ge_mem: "x \<in> set xs \<Longrightarrow> (x::'a::linorder) \<le> fold max xs s"
proof (induction xs arbitrary: s)
  case (Cons y ys)
  then show ?case
    by (auto intro: order_trans [OF max.cobounded1 fold_max_ge])
qed simp

lemma fold_max_le: "(s::'a::linorder) \<le> b \<Longrightarrow> (\<And>x. x \<in> set xs \<Longrightarrow> x \<le> b) \<Longrightarrow> fold max xs s \<le> b"
  by (induction xs arbitrary: s) auto

end
