(* ===== verification/Replication.thy ===== *)
theory Replication
  imports Prelude
begin

section \<open>The replication interface\<close>

text \<open>
  What \<^verbatim>\<open>crates/crdt/src/lib.rs\<close> promises of its types: merging is commutative, associative and
  idempotent, so that messages may arrive out of order, be duplicated or be lost. The promise is
  about what a replica shows, its \<open>view\<close>: a replica also holds local data (its own site name, its
  tag counter) on which two replicas that have seen the same messages still differ.

  \<open>ok\<close> is the invariant of one replica, \<open>compat\<close> the contract between two of them (no two replicas
  hold different payloads under one revision). The lemmas prove, once, what the promise is for:
  two replicas that start alike and are delivered the same set of messages, in any order and any
  number of times each, show the same state.
\<close>

locale merge_replica =
  fixes merge :: "'s \<Rightarrow> 's \<Rightarrow> 's"
    and view :: "'s \<Rightarrow> 'v"
    and ok :: "'s \<Rightarrow> bool"
    and compat :: "'s \<Rightarrow> 's \<Rightarrow> bool"
  assumes ok_merge: "ok a \<Longrightarrow> ok b \<Longrightarrow> ok (merge a b)"
    and compat_refl: "ok a \<Longrightarrow> compat a a"
    and compat_sym: "compat a b \<Longrightarrow> compat b a"
    and compat_merge: "ok a \<Longrightarrow> ok b \<Longrightarrow> compat c a \<Longrightarrow> compat c b \<Longrightarrow> compat c (merge a b)"
    and merge_cong: "ok a \<Longrightarrow> ok a' \<Longrightarrow> ok b \<Longrightarrow> view a = view a' \<Longrightarrow>
      view (merge a b) = view (merge a' b)"
    and merge_idem: "ok a \<Longrightarrow> view (merge a a) = view a"
    and merge_comm: "ok a \<Longrightarrow> ok b \<Longrightarrow> compat a b \<Longrightarrow> view (merge a b) = view (merge b a)"
    and merge_assoc: "ok a \<Longrightarrow> ok b \<Longrightarrow> ok c \<Longrightarrow> compat a b \<Longrightarrow> compat a c \<Longrightarrow> compat b c \<Longrightarrow>
      view (merge (merge a b) c) = view (merge a (merge b c))"
begin

definition deliver :: "'s list \<Rightarrow> 's \<Rightarrow> 's" where
  "deliver ds s = fold (\<lambda>d s. merge s d) ds s"

definition coherent :: "'s \<Rightarrow> 's set \<Rightarrow> bool" where
  "coherent s D \<longleftrightarrow> ok s \<and> (\<forall>d\<in>D. ok d \<and> compat s d) \<and> (\<forall>d\<in>D. \<forall>e\<in>D. compat d e)"

lemma deliver_Nil [simp]: "deliver [] s = s"
  by (simp add: deliver_def)

lemma deliver_Cons [simp]: "deliver (d # ds) s = deliver ds (merge s d)"
  by (simp add: deliver_def)

lemma coherent_merge: "coherent s D \<Longrightarrow> d \<in> D \<Longrightarrow> coherent (merge s d) D"
  unfolding coherent_def by (meson ok_merge compat_sym compat_merge)

lemma coherent_deliver: "coherent s D \<Longrightarrow> set ds \<subseteq> D \<Longrightarrow> coherent (deliver ds s) D"
  by (induction ds arbitrary: s) (auto intro: coherent_merge)

lemma merge_right_comm:
  assumes "coherent s D" "a \<in> D" "b \<in> D"
  shows "view (merge (merge s a) b) = view (merge (merge s b) a)"
proof -
  have ok: "ok s" "ok a" "ok b" and c: "compat s a" "compat s b" "compat a b"
    using assms by (auto simp: coherent_def)
  have "view (merge (merge s a) b) = view (merge (merge a s) b)"
    using ok c by (intro merge_cong merge_comm ok_merge) auto
  also have "\<dots> = view (merge a (merge s b))"
    using ok c by (intro merge_assoc) (auto intro: compat_sym)
  also have "\<dots> = view (merge (merge s b) a)"
    using ok c by (intro merge_comm ok_merge compat_merge) (auto intro: compat_sym)
  finally show ?thesis .
qed

lemma merge_absorb:
  assumes "coherent s D" "d \<in> D"
  shows "view (merge (merge s d) d) = view (merge s d)"
proof -
  have ok: "ok s" "ok d" and c: "compat s d" "compat d d"
    using assms by (auto simp: coherent_def)
  have "view (merge (merge s d) d) = view (merge (merge d s) d)"
    using ok c by (intro merge_cong merge_comm ok_merge) auto
  also have "\<dots> = view (merge d (merge s d))"
    using ok c by (intro merge_assoc) (auto intro: compat_sym)
  also have "\<dots> = view (merge d (merge d s))"
  proof -
    have "view (merge d (merge s d)) = view (merge (merge s d) d)"
      using ok c by (intro merge_comm ok_merge compat_merge) (auto intro: compat_sym)
    also have "\<dots> = view (merge (merge d s) d)"
      using ok c by (intro merge_cong merge_comm ok_merge) auto
    also have "\<dots> = view (merge d (merge d s))"
      using ok c by (intro merge_comm ok_merge compat_sym [OF compat_merge]) (auto intro: compat_sym)
    finally show ?thesis .
  qed
  also have "\<dots> = view (merge (merge d d) s)"
    using ok c by (intro merge_assoc [symmetric]) (auto intro: compat_sym)
  also have "\<dots> = view (merge d s)"
    using ok c by (intro merge_cong ok_merge merge_idem) auto
  also have "\<dots> = view (merge s d)"
    using ok c by (intro merge_comm) (auto intro: compat_sym)
  finally show ?thesis .
qed

lemma deliver_cong:
  assumes "coherent s D" "coherent t D" "view s = view t" "set ds \<subseteq> D"
  shows "view (deliver ds s) = view (deliver ds t)"
  using assms
proof (induction ds arbitrary: s t)
  case (Cons d ds)
  have "view (merge s d) = view (merge t d)"
    using Cons.prems by (intro merge_cong) (auto simp: coherent_def)
  with Cons show ?case
    by (auto intro: coherent_merge)
qed simp

lemma deliver_merge:
  assumes "coherent s D" "set ds \<subseteq> D" "d \<in> D"
  shows "view (deliver ds (merge s d)) = view (merge (deliver ds s) d)"
  using assms
proof (induction ds arbitrary: s)
  case (Cons e ds)
  have "view (deliver ds (merge (merge s d) e)) = view (deliver ds (merge (merge s e) d))"
    using Cons.prems
    by (intro deliver_cong [where D = D] merge_right_comm [where D = D] coherent_merge) auto
  also have "\<dots> = view (merge (deliver ds (merge s e)) d)"
    using Cons.prems by (intro Cons.IH coherent_merge) auto
  finally show ?case by simp
qed simp

lemma deliver_absorb_one:
  assumes "coherent s D" "set ds \<subseteq> D" "d \<in> set ds"
  shows "view (merge (deliver ds s) d) = view (deliver ds s)"
  using assms
proof (induction ds arbitrary: s)
  case (Cons e ds)
  show ?case
  proof (cases "d \<in> set ds")
    case True
    with Cons show ?thesis by (auto intro: coherent_merge)
  next
    case False
    with Cons.prems have e: "e = d" "d \<in> D" by auto
    have "view (merge (deliver ds (merge s d)) d) = view (deliver ds (merge (merge s d) d))"
      using Cons.prems e by (intro deliver_merge [symmetric] coherent_merge) auto
    also have "\<dots> = view (deliver ds (merge s d))"
      using Cons.prems e
      by (intro deliver_cong [where D = D] merge_absorb [where D = D] coherent_merge) auto
    finally show ?thesis by (simp add: e)
  qed
qed simp

lemma deliver_absorb:
  assumes "coherent s D" "set ds \<subseteq> D" "set es \<subseteq> set ds"
  shows "view (deliver es (deliver ds s)) = view (deliver ds s)"
  using assms(3)
proof (induction es)
  case (Cons e es)
  have "view (deliver es (merge (deliver ds s) e)) = view (deliver es (deliver ds s))"
    using assms(1,2) Cons.prems
    by (intro deliver_cong [where D = D] deliver_absorb_one coherent_merge coherent_deliver) auto
  with Cons show ?case by simp
qed simp

lemma deliver_swap:
  assumes "coherent s D" "set ds \<subseteq> D" "set es \<subseteq> D"
  shows "view (deliver es (deliver ds s)) = view (deliver ds (deliver es s))"
  using assms(1,3)
proof (induction es arbitrary: s)
  case (Cons e es)
  have "view (deliver es (merge (deliver ds s) e)) = view (deliver es (deliver ds (merge s e)))"
    using assms(2) Cons.prems
    by (intro deliver_cong [where D = D] deliver_merge [symmetric, where D = D]
        coherent_merge coherent_deliver) auto
  also have "\<dots> = view (deliver ds (deliver es (merge s e)))"
    using Cons.prems by (intro Cons.IH coherent_merge) auto
  finally show ?case by simp
qed simp

text \<open>Strong eventual consistency.\<close>

lemma convergence:
  assumes "coherent s (set ds)" and "set ds = set es"
  shows "view (deliver ds s) = view (deliver es s)"
proof -
  have "view (deliver ds s) = view (deliver es (deliver ds s))"
    using assms by (intro deliver_absorb [symmetric]) auto
  also have "\<dots> = view (deliver ds (deliver es s))"
    using assms by (intro deliver_swap) auto
  also have "\<dots> = view (deliver es s)"
    using assms by (intro deliver_absorb) auto
  finally show ?thesis .
qed

text \<open>A message that was lost and arrives late changes nothing once a later merge covered it.\<close>

lemma late_delivery:
  assumes "coherent s (set ds)" and "d \<in> set ds"
  shows "view (deliver (ds @ [d]) s) = view (deliver ds s)"
  using deliver_absorb [of s "set ds" ds "[d]"] assms by (simp add: deliver_def)

end

end
