(* ===== verification/GCounter.thy ===== *)
theory GCounter
  imports Replication
begin

section \<open>Registers and grow-only counters\<close>

text \<open>
  \<^verbatim>\<open>crates/crdt/src/lww.rs\<close> and \<^verbatim>\<open>crates/crdt/src/gcounter.rs\<close>: the last-writer-wins register and
  the per-site counter, with their interpretations of the replication interface.
\<close>

subsection \<open>Last-writer-wins register\<close>

record 'a lww_register =
  lww_timestamp :: u64
  lww_value :: 'a

definition lww_new :: "'a \<Rightarrow> u64 \<Rightarrow> 'a lww_register" where
  "lww_new value timestamp = \<lparr>lww_timestamp = timestamp, lww_value = value\<rparr>"

definition lww_set :: "'a::linorder lww_register \<Rightarrow> 'a \<Rightarrow> u64 \<Rightarrow> 'a lww_register" where
  "lww_set self value timestamp =
     (if (timestamp, value) > (lww_timestamp self, lww_value self)
      then self\<lparr>lww_value := value, lww_timestamp := timestamp\<rparr>
      else self)"

definition lww_merge :: "'a::linorder lww_register \<Rightarrow> 'a lww_register \<Rightarrow> 'a lww_register" where
  "lww_merge self other =
     (if (lww_timestamp other, lww_value other) > (lww_timestamp self, lww_value self)
      then self\<lparr>lww_value := lww_value other, lww_timestamp := lww_timestamp other\<rparr>
      else self)"

text \<open>The order a register is resolved by: timestamp first, then value.\<close>

definition lww_rank :: "'a lww_register \<Rightarrow> u64 \<times> 'a" where
  "lww_rank r = (lww_timestamp r, lww_value r)"

lemma lww_rank_merge: "lww_rank (lww_merge a b) = max (lww_rank a) (lww_rank b)"
  by (auto simp: lww_merge_def lww_rank_def max_def not_less)

lemma lww_rank_set: "lww_rank (lww_set r v t) = max (lww_rank r) (t, v)"
  by (auto simp: lww_set_def lww_rank_def max_def not_less)

lemma lww_rank_inject: "lww_rank a = lww_rank (b :: 'a lww_register) \<longleftrightarrow> a = b"
  by (cases a; cases b) (auto simp: lww_rank_def)

interpretation lww: merge_replica "lww_merge :: 'a::linorder lww_register \<Rightarrow> _" lww_rank
  "\<lambda>_. True" "\<lambda>_ _. True"
  by unfold_locales (simp_all add: lww_rank_merge ac_simps)

subsection \<open>Grow-only counter\<close>

record gcounter =
  gc_site_id :: string
  gc_slots :: "(string, u64) fmap"

definition gcounter_new :: "string \<Rightarrow> gcounter" where
  "gcounter_new site_id = \<lparr>gc_site_id = site_id, gc_slots = fmempty\<rparr>"

text \<open>The current value of an entry, \<^verbatim>\<open>or_default()\<close> when there is none.\<close>

definition slot_or_default :: "u64 option \<Rightarrow> u64" where
  "slot_or_default s = (case s of None \<Rightarrow> 0 | Some v \<Rightarrow> v)"

definition gcounter_increment :: "gcounter \<Rightarrow> u64 \<Rightarrow> gcounter" where
  "gcounter_increment self amount =
     (let slot = slot_or_default (fmlookup (gc_slots self) (gc_site_id self))
      in self\<lparr>gc_slots := fmupd (gc_site_id self) (saturating_add slot amount) (gc_slots self)\<rparr>)"

definition gcounter_total :: "gcounter \<Rightarrow> u64" where
  "gcounter_total self = fold (\<lambda>v acc. saturating_add acc v) (fmvalues (gc_slots self)) 0"

definition gcounter_local :: "gcounter \<Rightarrow> u64" where
  "gcounter_local self = slot_or_default (fmlookup (gc_slots self) (gc_site_id self))"

definition gcounter_merge :: "gcounter \<Rightarrow> gcounter \<Rightarrow> gcounter" where
  "gcounter_merge self other =
     self\<lparr>gc_slots := fm_for_entries (\<lambda>slot count. max (slot_or_default slot) count)
       (gc_slots other) (gc_slots self)\<rparr>"

definition gcounter_retain_origin :: "gcounter \<Rightarrow> string \<Rightarrow> gcounter" where
  "gcounter_retain_origin self origin_site =
     (let retained = gcounter_new origin_site
      in case fmlookup (gc_slots self) origin_site of
           Some value \<Rightarrow> retained\<lparr>gc_slots := fmupd origin_site value (gc_slots retained)\<rparr>
         | None \<Rightarrow> retained)"

definition gcounter_remove_slot :: "gcounter \<Rightarrow> string \<Rightarrow> gcounter" where
  "gcounter_remove_slot self site = self\<lparr>gc_slots := fmdrop site (gc_slots self)\<rparr>"

definition gcounter_slot_count :: "gcounter \<Rightarrow> nat" where
  "gcounter_slot_count self = fmcount (gc_slots self)"

definition gcounter_has_slot :: "gcounter \<Rightarrow> string \<Rightarrow> bool" where
  "gcounter_has_slot self site \<longleftrightarrow> fmlookup (gc_slots self) site \<noteq> None"

subsubsection \<open>What the operations do to the slots\<close>

abbreviation slot :: "gcounter \<Rightarrow> string \<Rightarrow> u64" where
  "slot c s \<equiv> slot_or_default (fmlookup (gc_slots c) s)"

lemma slot_or_default_simps [simp]: "slot_or_default None = 0" "slot_or_default (Some v) = v"
  by (simp_all add: slot_or_default_def)

lemma gcounter_site_id [simp, frame_simps]:
  "gc_site_id (gcounter_merge a b) = gc_site_id a"
  "gc_site_id (gcounter_increment a n) = gc_site_id a"
  "gc_site_id (gcounter_remove_slot a s) = gc_site_id a"
  by (simp_all add: gcounter_merge_def gcounter_increment_def gcounter_remove_slot_def Let_def)

lemma gcounter_merge_lookup [lookup_simps]:
  "fmlookup (gc_slots (gcounter_merge a b)) s =
    (case fmlookup (gc_slots b) s of None \<Rightarrow> fmlookup (gc_slots a) s
     | Some v \<Rightarrow> Some (max (slot a s) v))"
  by (simp add: gcounter_merge_def)

lemma max_zero_word [simp]: "max 0 (v::u64) = v" "max v (0::u64) = v"
  by (simp_all add: max_def)

lemma slot_merge: "slot (gcounter_merge a b) s = max (slot a s) (slot b s)"
  by (simp add: gcounter_merge_lookup split: option.splits)

lemma gcounter_retain_lookup [lookup_simps]:
  "fmlookup (gc_slots (gcounter_retain_origin c o')) s = (if s = o' then fmlookup (gc_slots c) s else None)"
  by (auto simp: gcounter_retain_origin_def gcounter_new_def Let_def split: option.splits)

lemma gcounter_increment_lookup [lookup_simps]:
  "fmlookup (gc_slots (gcounter_increment c n)) s =
    (if s = gc_site_id c then Some (saturating_add (slot c s) n) else fmlookup (gc_slots c) s)"
  by (simp add: gcounter_increment_def Let_def)

lemma gcounter_merge_slots_cong:
  "gc_slots a = gc_slots a' \<Longrightarrow> gc_slots (gcounter_merge a b) = gc_slots (gcounter_merge a' b)"
  by (simp add: gcounter_merge_def)

lemma gcounter_merge_slots_idem: "gc_slots (gcounter_merge a a) = gc_slots a"
  by (rule fmap_eqI) (simp add: gcounter_merge_lookup split: option.splits)

lemma gcounter_merge_slots_comm: "gc_slots (gcounter_merge a b) = gc_slots (gcounter_merge b a)"
  by (rule fmap_eqI) (simp add: gcounter_merge_lookup max.commute split: option.splits)

lemma gcounter_merge_slots_assoc:
  "gc_slots (gcounter_merge (gcounter_merge a b) c) = gc_slots (gcounter_merge a (gcounter_merge b c))"
  by (rule fmap_eqI) (simp add: gcounter_merge_lookup max.assoc split: option.splits)

interpretation gcounter: merge_replica gcounter_merge gc_slots "\<lambda>_. True" "\<lambda>_ _. True"
  by unfold_locales
    (simp | rule gcounter_merge_slots_idem gcounter_merge_slots_comm gcounter_merge_slots_assoc
      gcounter_merge_slots_cong)+

subsubsection \<open>The total\<close>

lemma unat_fold_saturating_add:
  "unat (fold (\<lambda>v acc. saturating_add acc v) vs (s::u64)) = min (2 ^ 64 - 1) (unat s + sum_list (map unat vs))"
proof (induction vs arbitrary: s)
  case Nil
  then show ?case using unat_lt_u64 [of s] by simp
next
  case (Cons v vs)
  then show ?case by (simp add: unat_saturating_add)
qed

lemma sum_list_fmvalues: "sum_list (map f (fmvalues m)) = (\<Sum>k\<in>fmdom' m. f (the (fmlookup m k)))"
proof -
  have "sum_list (map f (fmvalues m)) = sum_list (map (\<lambda>k. f (the (fmlookup m k))) (fmkeys m))"
    by (simp add: fmvalues_def fmentries_def fmkeys_def sorted_list_of_fmap_def comp_def)
  also have "\<dots> = (\<Sum>k\<in>fmdom' m. f (the (fmlookup m k)))"
    by (simp add: sum_list_distinct_conv_sum_set fmdom'_alt_def)
  finally show ?thesis .
qed

lemma unat_gcounter_total:
  "unat (gcounter_total c) = min (2 ^ 64 - 1) (\<Sum>s\<in>fmdom' (gc_slots c). unat (slot c s))"
proof -
  have "(\<Sum>k\<in>fmdom' (gc_slots c). unat (the (fmlookup (gc_slots c) k))) =
    (\<Sum>s\<in>fmdom' (gc_slots c). unat (slot c s))"
    by (rule sum.cong) (auto simp: fmlookup_dom'_iff)
  then show ?thesis
    by (simp add: gcounter_total_def unat_fold_saturating_add sum_list_fmvalues)
qed

lemma gcounter_total_mono:
  assumes "fmdom' (gc_slots a) \<subseteq> fmdom' (gc_slots b)" "\<And>s. slot a s \<le> slot b s"
  shows "gcounter_total a \<le> gcounter_total b"
proof -
  have "(\<Sum>s\<in>fmdom' (gc_slots a). unat (slot a s)) \<le> (\<Sum>s\<in>fmdom' (gc_slots a). unat (slot b s))"
    using assms(2) by (intro sum_mono) (simp add: word_le_nat_alt)
  also have "\<dots> \<le> (\<Sum>s\<in>fmdom' (gc_slots b). unat (slot b s))"
    using assms(1) by (intro sum_mono2) auto
  finally show ?thesis
    by (simp add: word_le_nat_alt unat_gcounter_total)
qed

lemma gcounter_total_eq_0: "gcounter_total c = 0 \<longleftrightarrow> (\<forall>s. slot c s = 0)"
proof -
  have "min (2 ^ 64 - 1) n = 0 \<longleftrightarrow> n = 0" for n :: nat
    by (simp add: min_def)
  then have "gcounter_total c = 0 \<longleftrightarrow> (\<Sum>s\<in>fmdom' (gc_slots c). unat (slot c s)) = 0"
    unfolding unat_eq_zero [symmetric] unat_gcounter_total by (simp only:)
  also have "\<dots> \<longleftrightarrow> (\<forall>s\<in>fmdom' (gc_slots c). slot c s = 0)"
    by (simp add: unat_eq_zero)
  also have "\<dots> \<longleftrightarrow> (\<forall>s. slot c s = 0)"
    by (metis fmdom'_notD slot_or_default_simps(1))
  finally show ?thesis .
qed

lemma gcounter_merge_dom: "fmdom (gc_slots (gcounter_merge a b)) = fmdom (gc_slots a) |\<union>| fmdom (gc_slots b)"
  by (simp add: gcounter_merge_def fm_for_entries_dom)

lemma gcounter_merge_total_ge: "gcounter_total a \<le> gcounter_total (gcounter_merge a b)"
  by (rule gcounter_total_mono) (auto simp: slot_merge fmdom'_alt_def gcounter_merge_dom)

subsection \<open>Properties\<close>

text \<open>
  A last-writer-wins register that has merged any messages holds the greatest
  (timestamp, value) pair among its own and theirs, whatever the order, grouping and repetition.
\<close>

theorem lww_merge_all:
  "lww_rank (fold (\<lambda>d s. lww_merge s d) ds s) = Max (lww_rank ` insert s (set ds))"
proof (induction ds arbitrary: s)
  case (Cons d ds)
  have "Max (lww_rank ` insert (lww_merge s d) (set ds)) = Max (lww_rank ` insert s (set (d # ds)))"
    by (cases "ds = []") (simp_all add: lww_rank_merge max.assoc Max_insert)
  with Cons [of "lww_merge s d"] show ?case by simp
qed simp

text \<open>
  A grow-only counter that has merged any messages holds in every site's slot the greatest
  count reported for that site, and a slot for exactly the sites reported; its total is the sum of
  the slots, capped at \<^verbatim>\<open>u64::MAX\<close>, and is never below the total it had.
\<close>

theorem gcounter_merge_all:
  fixes c :: gcounter and ds :: "gcounter list"
  defines "result \<equiv> fold (\<lambda>d s. gcounter_merge s d) ds c"
  shows "slot result site = Max ((\<lambda>d. slot d site) ` insert c (set ds)) \<and>
    gcounter_has_slot result site = (\<exists>d\<in>insert c (set ds). gcounter_has_slot d site) \<and>
    unat (gcounter_total result) =
      min (2 ^ 64 - 1) (\<Sum>s\<in>fmdom' (gc_slots result). unat (slot result s)) \<and>
    gcounter_total c \<le> gcounter_total result"
proof -
  have "slot (fold (\<lambda>d s. gcounter_merge s d) ds c) site = Max ((\<lambda>d. slot d site) ` insert c (set ds))"
  proof (induction ds arbitrary: c)
    case (Cons d ds)
    then show ?case
      by (cases "ds = []") (simp_all add: slot_merge max.assoc Max_insert)
  qed simp
  moreover have "gcounter_has_slot (fold (\<lambda>d s. gcounter_merge s d) ds c) site =
    (\<exists>d\<in>insert c (set ds). gcounter_has_slot d site)"
  proof (induction ds arbitrary: c)
    case (Cons d ds)
    have "gcounter_has_slot (gcounter_merge c d) site = (gcounter_has_slot c site \<or> gcounter_has_slot d site)"
      by (simp add: gcounter_has_slot_def gcounter_merge_lookup split: option.splits)
    with Cons show ?case by simp
  qed simp
  moreover have "gcounter_total c \<le> gcounter_total (fold (\<lambda>d s. gcounter_merge s d) ds c)"
    by (rule fold_invariant_mem) (auto intro: order_trans gcounter_merge_total_ge)
  ultimately show ?thesis
    unfolding result_def by (simp add: unat_gcounter_total)
qed

end
