(* ===== verification/OrSet.thy ===== *)
theory OrSet
  imports Replication
begin

section \<open>Observed-remove set\<close>

text \<open>
  \<^verbatim>\<open>crates/crdt/src/orset.rs\<close>. An item is present while one of the tags of its additions is; a
  removal tombstones the tags it has seen. The theory models the operations, proves that merging
  replicates (the interpretation \<open>orset\<close>), and then models a whole system of sites that add,
  remove, send and receive snapshots, to show that tags are never reused and that a concurrent
  addition wins over a removal.
\<close>

datatype tag = Tag (tag_counter: u64) (tag_site_id: string)

text \<open>\<^verbatim>\<open>#[derive(Ord)]\<close> compares the fields in the order of their declaration.\<close>

instantiation tag :: linorder
begin

definition less_eq_tag :: "tag \<Rightarrow> tag \<Rightarrow> bool" where
  "less_eq_tag a b \<longleftrightarrow> (tag_counter a, tag_site_id a) \<le> (tag_counter b, tag_site_id b)"

definition less_tag :: "tag \<Rightarrow> tag \<Rightarrow> bool" where
  "less_tag a b \<longleftrightarrow> (tag_counter a, tag_site_id a) < (tag_counter b, tag_site_id b)"

instance
  by standard (auto simp: less_eq_tag_def less_tag_def tag.expand)

end

record 'a orset =
  os_counter :: u64
  os_entries :: "('a, tag fset) fmap"
  os_site_id :: string
  os_tombstones :: "tag fset"

definition orset_new :: "string \<Rightarrow> 'a orset" where
  "orset_new site_id =
     \<lparr>os_counter = 0, os_entries = fmempty, os_site_id = site_id, os_tombstones = {||}\<rparr>"

definition tags_or_default :: "tag fset option \<Rightarrow> tag fset" where
  "tags_or_default t = (case t of None \<Rightarrow> {||} | Some tags \<Rightarrow> tags)"

definition orset_add :: "'a orset \<Rightarrow> 'a \<Rightarrow> bool \<times> 'a orset" where
  "orset_add self item =
     (case checked_add (os_counter self) 1 of
        None \<Rightarrow> (False, self)
      | Some counter \<Rightarrow>
          let self = self\<lparr>os_counter := counter\<rparr>;
              tag = Tag (os_counter self) (os_site_id self);
              tags = tags_or_default (fmlookup (os_entries self) item)
          in (True, self\<lparr>os_entries := fmupd item (finsert tag tags) (os_entries self)\<rparr>))"

definition orset_remove :: "'a orset \<Rightarrow> 'a \<Rightarrow> 'a orset" where
  "orset_remove self item =
     (case fmlookup (os_entries self) item of
        None \<Rightarrow> self
      | Some tags \<Rightarrow> self\<lparr>os_entries := fmdrop item (os_entries self),
                        os_tombstones := os_tombstones self |\<union>| tags\<rparr>)"

definition orset_contains :: "'a orset \<Rightarrow> 'a \<Rightarrow> bool" where
  "orset_contains self item \<longleftrightarrow>
     (case fmlookup (os_entries self) item of None \<Rightarrow> False | Some tags \<Rightarrow> tags \<noteq> {||})"

definition orset_items :: "'a::linorder orset \<Rightarrow> 'a list" where
  "orset_items self = map fst (filter (\<lambda>(_, tags). tags \<noteq> {||}) (fmentries (os_entries self)))"

definition orset_len :: "'a::linorder orset \<Rightarrow> nat" where
  "orset_len self = length (filter (\<lambda>(_, tags). tags \<noteq> {||}) (fmentries (os_entries self)))"

definition orset_is_empty :: "'a::linorder orset \<Rightarrow> bool" where
  "orset_is_empty self \<longleftrightarrow> orset_len self = 0"

definition remove_tombstoned_tags :: "'a orset \<Rightarrow> 'a orset" where
  "remove_tombstoned_tags self =
     self\<lparr>os_entries := fmretain (\<lambda>_ tags. tags \<noteq> {||})
       (fmmap (ffilter (\<lambda>tag. tag |\<notin>| os_tombstones self)) (os_entries self))\<rparr>"

definition observed_counter :: "string \<Rightarrow> tag list \<Rightarrow> u64 \<Rightarrow> u64" where
  "observed_counter site tags counter =
     fold (\<lambda>tag c. if tag_site_id tag = site then max c (tag_counter tag) else c) tags counter"

definition orset_merge :: "'a::linorder orset \<Rightarrow> 'a orset \<Rightarrow> 'a orset" where
  "orset_merge self other =
     (let counter = (if os_site_id self = os_site_id other
                     then max (os_counter self) (os_counter other) else os_counter self);
          counter = observed_counter (os_site_id self)
            (concat (map sorted_list_of_fset (fmvalues (os_entries other))) @
             sorted_list_of_fset (os_tombstones other)) counter;
          entries = fm_for_entries (\<lambda>local other_tags.
              fold (\<lambda>tag local. if tag |\<notin>| os_tombstones self then finsert tag local else local)
                (sorted_list_of_fset other_tags) (tags_or_default local))
            (os_entries other) (os_entries self)
      in remove_tombstoned_tags (self\<lparr>os_counter := counter, os_entries := entries,
           os_tombstones := os_tombstones self |\<union>| os_tombstones other\<rparr>))"

subsection \<open>The tags of an item\<close>

definition item_tags :: "'a orset \<Rightarrow> 'a \<Rightarrow> tag fset" where
  "item_tags s x = tags_or_default (fmlookup (os_entries s) x)"

definition orset_view :: "'a orset \<Rightarrow> ('a \<Rightarrow> tag fset) \<times> tag fset" where
  "orset_view s = (item_tags s, os_tombstones s)"

text \<open>
  The invariant of a replica: no entry is empty, and no tag is both live and tombstoned.
\<close>

definition orset_ok :: "'a orset \<Rightarrow> bool" where
  "orset_ok s \<longleftrightarrow> fmpred (\<lambda>_ tags. tags \<noteq> {||} \<and> tags |\<inter>| os_tombstones s = {||}) (os_entries s)"

lemma tags_or_default_simps [simp]: "tags_or_default None = {||}" "tags_or_default (Some t) = t"
  by (simp_all add: tags_or_default_def)

lemma orset_contains_iff: "orset_contains s x \<longleftrightarrow> item_tags s x \<noteq> {||}"
  by (simp add: orset_contains_def item_tags_def split: option.splits)

lemma orset_ok_disjoint: "orset_ok s \<Longrightarrow> item_tags s x |\<inter>| os_tombstones s = {||}"
  by (cases "fmlookup (os_entries s) x") (auto simp: orset_ok_def item_tags_def dest: fmpredD)

lemma set_sorted_list_of_fset [simp]: "set (sorted_list_of_fset t) = fset t"
  by (simp add: sorted_list_of_fset.rep_eq)

lemma fold_finsert_if_mem:
  "t |\<in>| fold (\<lambda>tag local. if P tag then finsert tag local else local) ts l \<longleftrightarrow>
    t |\<in>| l \<or> P t \<and> t \<in> set ts"
  by (induction ts arbitrary: l) auto

lemma fset_of_sorted_list_of_fset [simp]: "fset_of_list (sorted_list_of_fset t) = t"
  by (rule fset_eqI) (simp add: fset_of_list_elem)

lemma item_tags_remove_tombstoned:
  "item_tags (remove_tombstoned_tags s) x = ffilter (\<lambda>tag. tag |\<notin>| os_tombstones s) (item_tags s x)"
  by (cases "fmlookup (os_entries s) x") (auto simp: remove_tombstoned_tags_def item_tags_def)

lemma orset_merge_tombstones [simp]:
  "os_tombstones (orset_merge a b) = os_tombstones a |\<union>| os_tombstones b"
  by (simp add: orset_merge_def remove_tombstoned_tags_def Let_def)

lemma orset_merge_site_id [simp, frame_simps]: "os_site_id (orset_merge a b) = os_site_id a"
  by (simp add: orset_merge_def remove_tombstoned_tags_def Let_def)

lemma item_tags_merge:
  "item_tags (orset_merge a b) x =
    (item_tags a x |\<union>| item_tags b x) |-| (os_tombstones a |\<union>| os_tombstones b)"
  unfolding orset_merge_def Let_def item_tags_remove_tombstoned
  by (rule fset_eqI) (auto simp: item_tags_def fold_finsert_if_mem split: option.splits)

lemma orset_merge_ok [wf_intros]: "orset_ok (orset_merge a b)"
  unfolding orset_ok_def orset_merge_def Let_def remove_tombstoned_tags_def
  by (auto simp: fmpred_iff split: option.splits if_splits)

lemma orset_view_merge_cong: "orset_view a = orset_view a' \<Longrightarrow> orset_view (orset_merge a b) = orset_view (orset_merge a' b)"
  by (auto simp: orset_view_def item_tags_merge fun_eq_iff)

lemma orset_view_merge_idem: "orset_ok a \<Longrightarrow> orset_view (orset_merge a a) = orset_view a"
  using orset_ok_disjoint [of a] by (fastforce simp: orset_view_def item_tags_merge fun_eq_iff)

lemma orset_view_merge_comm: "orset_view (orset_merge a b) = orset_view (orset_merge b a)"
  by (auto simp: orset_view_def item_tags_merge fun_eq_iff)

lemma orset_view_merge_assoc:
  "orset_view (orset_merge (orset_merge a b) c) = orset_view (orset_merge a (orset_merge b c))"
  by (auto simp: orset_view_def item_tags_merge fun_eq_iff)

interpretation orset: merge_replica "orset_merge :: 'a::linorder orset \<Rightarrow> _" orset_view orset_ok "\<lambda>_ _. True"
  by unfold_locales
    (simp | rule orset_merge_ok orset_view_merge_idem orset_view_merge_comm orset_view_merge_assoc
      orset_view_merge_cong)+

lemma orset_view_entries:
  assumes "orset_ok a" "orset_ok b" "orset_view a = orset_view b"
  shows "os_entries a = os_entries b"
proof (rule fmap_eqI)
  fix x
  have t: "item_tags a x = item_tags b x"
    using assms(3) by (simp add: orset_view_def)
  show "fmlookup (os_entries a) x = fmlookup (os_entries b) x"
    using assms(1,2) t
    by (cases "fmlookup (os_entries a) x"; cases "fmlookup (os_entries b) x")
      (auto simp: orset_ok_def item_tags_def dest: fmpredD)
qed

lemma orset_items_view:
  "orset_ok a \<Longrightarrow> orset_ok b \<Longrightarrow> orset_view a = orset_view b \<Longrightarrow> orset_items a = orset_items b"
  using orset_view_entries [of a b] by (simp add: orset_items_def)

subsection \<open>Additions and removals\<close>

text \<open>Every tag a replica knows of, live or tombstoned.\<close>

definition known_tags :: "'a orset \<Rightarrow> tag set" where
  "known_tags s = (\<Union>x. fset (item_tags s x)) \<union> fset (os_tombstones s)"

lemma orset_new_facts [simp]:
  "os_site_id (orset_new r) = r" "known_tags (orset_new r) = {}" "orset_ok (orset_new r)"
  "item_tags (orset_new r) x = {||}" "os_tombstones (orset_new r) = {||}"
  by (simp_all add: orset_new_def known_tags_def item_tags_def orset_ok_def)

lemma orset_add_cases:
  obtains (exhausted) "orset_add s x = (False, s)"
  | (added) c where "checked_add (os_counter s) 1 = Some c"
      "orset_add s x = (True, s\<lparr>os_counter := c,
         os_entries := fmupd x (finsert (Tag c (os_site_id s)) (item_tags s x)) (os_entries s)\<rparr>)"
  by (cases "checked_add (os_counter s) 1") (auto simp: orset_add_def item_tags_def Let_def)

lemma checked_add_less: "checked_add c 1 = Some (d::u64) \<Longrightarrow> c < d"
  using unat_checked_add [of c 1 d] by (simp add: word_less_nat_alt)

lemma orset_add_frame [simp, frame_simps]:
  "os_site_id (snd (orset_add s x)) = os_site_id s"
  "os_tombstones (snd (orset_add s x)) = os_tombstones s"
  by (cases rule: orset_add_cases [of s x]; simp)+

lemma orset_add_counter: "os_counter s \<le> os_counter (snd (orset_add s x))"
  by (cases rule: orset_add_cases [of s x]) (auto dest: checked_add_less)

lemma item_tags_add:
  "item_tags (snd (orset_add s x)) y =
    (if y = x \<and> fst (orset_add s x)
     then finsert (Tag (os_counter (snd (orset_add s x))) (os_site_id s)) (item_tags s x)
     else item_tags s y)"
  by (cases rule: orset_add_cases [of s x]) (auto simp: item_tags_def)

lemma known_tags_add:
  "known_tags (snd (orset_add s x)) \<subseteq>
    insert (Tag (os_counter (snd (orset_add s x))) (os_site_id s)) (known_tags s)"
  by (auto simp: known_tags_def item_tags_add split: if_splits)

lemma item_tags_remove: "item_tags (orset_remove s x) y = (if y = x then {||} else item_tags s y)"
  by (auto simp: orset_remove_def item_tags_def split: option.splits)

lemma orset_remove_tombstones: "os_tombstones (orset_remove s x) = os_tombstones s |\<union>| item_tags s x"
  by (auto simp: orset_remove_def item_tags_def split: option.splits)

lemma orset_remove_frame [simp, frame_simps]:
  "os_site_id (orset_remove s x) = os_site_id s" "os_counter (orset_remove s x) = os_counter s"
  by (auto simp: orset_remove_def split: option.splits)

lemma known_tags_remove: "known_tags (orset_remove s x) \<subseteq> known_tags s"
  by (auto simp: known_tags_def item_tags_remove orset_remove_tombstones split: if_splits)

lemma known_tags_merge: "known_tags (orset_merge a b) \<subseteq> known_tags a \<union> known_tags b"
  by (auto simp: known_tags_def item_tags_merge)

lemma observed_counter_bounds:
  assumes "c \<le> b" "\<And>t. t \<in> set ts \<Longrightarrow> tag_site_id t = r \<Longrightarrow> tag_counter t \<le> b"
  shows "c \<le> observed_counter r ts c \<and> observed_counter r ts c \<le> b"
  using assms unfolding observed_counter_def
proof (induction ts arbitrary: c)
  case (Cons t ts)
  have "max c (tag_counter t) \<le> b" if "tag_site_id t = r"
    using Cons.prems that by simp
  with Cons.prems Cons.IH [of c] Cons.IH [of "max c (tag_counter t)"] show ?case
    by auto
qed simp

lemma orset_merge_counter:
  "os_counter (orset_merge a b) = observed_counter (os_site_id a)
     (concat (map sorted_list_of_fset (fmvalues (os_entries b))) @ sorted_list_of_fset (os_tombstones b))
     (if os_site_id a = os_site_id b then max (os_counter a) (os_counter b) else os_counter a)"
  by (simp add: orset_merge_def remove_tombstoned_tags_def Let_def)

lemma orset_merge_tags_known:
  assumes "t \<in> set (concat (map sorted_list_of_fset (fmvalues (os_entries b))) @ sorted_list_of_fset (os_tombstones b))"
  shows "t \<in> known_tags b"
proof -
  consider (live) x tags where "fmlookup (os_entries b) x = Some tags" "t |\<in>| tags"
    | (dead) "t |\<in>| os_tombstones b"
    using assms by auto
  then show ?thesis
  proof cases
    case live
    then have "t |\<in>| item_tags b x" by (simp add: item_tags_def)
    then show ?thesis by (auto simp: known_tags_def)
  next
    case dead
    then show ?thesis by (simp add: known_tags_def)
  qed
qed

text \<open>
  Merging a snapshot never lowers a replica's counter, and leaves it at any bound that covers the
  replica and the tags of its own that the snapshot carries.
\<close>

lemma orset_merge_counter_bounds:
  assumes "os_counter a \<le> n" "os_site_id a = os_site_id b \<Longrightarrow> os_counter b \<le> n"
    and "\<And>t. t \<in> known_tags b \<Longrightarrow> tag_site_id t = os_site_id a \<Longrightarrow> tag_counter t \<le> n"
  shows "os_counter a \<le> os_counter (orset_merge a b) \<and> os_counter (orset_merge a b) \<le> n"
proof -
  let ?c = "if os_site_id a = os_site_id b then max (os_counter a) (os_counter b) else os_counter a"
  have "?c \<le> n" "os_counter a \<le> ?c"
    using assms(1,2) by auto
  then show ?thesis
    using observed_counter_bounds [of ?c n _ "os_site_id a"] assms(3) orset_merge_tags_known
    unfolding orset_merge_counter by (meson order_trans)
qed

subsection \<open>A system of sites\<close>

text \<open>
  Every site identity has one writer, as the source requires. A site adds or removes an item,
  publishes a snapshot of its state, or merges any snapshot ever published; snapshots may be
  delivered late, twice, out of order or never.
\<close>

inductive orset_run :: "(string \<Rightarrow> 'a::linorder orset) \<Rightarrow> 'a orset set \<Rightarrow> bool" where
  run_init: "orset_run orset_new {}"
| run_add: "orset_run R M \<Longrightarrow> orset_run (R(r := snd (orset_add (R r) x))) M"
| run_remove: "orset_run R M \<Longrightarrow> orset_run (R(r := orset_remove (R r) x)) M"
| run_send: "orset_run R M \<Longrightarrow> orset_run R (insert (R r) M)"
| run_receive: "orset_run R M \<Longrightarrow> m \<in> M \<Longrightarrow> orset_run (R(r := orset_merge (R r) m)) M"

text \<open>
  The invariant: each site holds its own identity; no state anywhere, in a replica or in flight,
  knows a tag of a site that the site's own counter does not cover; and a tag belongs to one item,
  \<open>W\<close> naming it.
\<close>

definition orset_covered :: "(tag \<Rightarrow> 'a) \<Rightarrow> (string \<Rightarrow> 'a orset) \<Rightarrow> 'a orset \<Rightarrow> bool" where
  "orset_covered W R s \<longleftrightarrow> orset_ok s \<and> os_counter s \<le> os_counter (R (os_site_id s)) \<and>
     (\<forall>t\<in>known_tags s. tag_counter t \<le> os_counter (R (tag_site_id t))) \<and>
     (\<forall>x t. t |\<in>| item_tags s x \<longrightarrow> W t = x)"

definition orset_run_inv :: "(tag \<Rightarrow> 'a) \<Rightarrow> (string \<Rightarrow> 'a orset) \<Rightarrow> 'a orset set \<Rightarrow> bool" where
  "orset_run_inv W R M \<longleftrightarrow>
     (\<forall>r. os_site_id (R r) = r \<and> orset_covered W R (R r)) \<and> (\<forall>m\<in>M. orset_covered W R m)"

lemma orset_coveredD:
  assumes "orset_covered W R s"
  shows "orset_ok s" "os_counter s \<le> os_counter (R (os_site_id s))"
    "t \<in> known_tags s \<Longrightarrow> tag_counter t \<le> os_counter (R (tag_site_id t))"
    "t |\<in>| item_tags s x \<Longrightarrow> W t = x"
  using assms by (auto simp: orset_covered_def)

lemma orset_run_invD:
  assumes "orset_run_inv W R M"
  shows "os_site_id (R r) = r" "orset_covered W R (R r)" "m \<in> M \<Longrightarrow> orset_covered W R m"
  using assms by (auto simp: orset_run_inv_def)

lemma item_tags_known: "t |\<in>| item_tags s x \<Longrightarrow> t \<in> known_tags s"
  by (auto simp: known_tags_def)

text \<open>
  A step of site \<open>r\<close> keeps the invariant when it never lowers the counter, relabels no known tag,
  and its new state is covered.
\<close>

lemma orset_run_inv_step:
  assumes inv: "orset_run_inv W R M" and mono: "os_counter (R r) \<le> os_counter s"
    and id: "os_site_id s = r" and new: "orset_covered W' (R(r := s)) s"
    and label: "\<And>t. tag_counter t \<le> os_counter (R (tag_site_id t)) \<Longrightarrow> W' t = W t"
  shows "orset_run_inv W' (R(r := s)) M"
proof -
  have "orset_covered W' (R(r := s)) x" if x: "orset_covered W R x" for x
  proof -
    have le: "os_counter (R q) \<le> os_counter ((R(r := s)) q)" for q
      using mono by simp
    have "W' t = y" if "t |\<in>| item_tags x y" for t y
      using orset_coveredD(3,4) [OF x] label item_tags_known that by metis
    with x le show ?thesis
      unfolding orset_covered_def by (meson order_trans)
  qed
  with inv id new show ?thesis
    unfolding orset_run_inv_def by auto
qed

lemma orset_add_ok:
  assumes "orset_ok s" "\<And>t. t \<in> known_tags s \<Longrightarrow> tag_site_id t = os_site_id s \<Longrightarrow> tag_counter t \<le> os_counter s"
  shows "orset_ok (snd (orset_add s x))"
proof (cases rule: orset_add_cases [of s x])
  case exhausted
  with assms show ?thesis by simp
next
  case (added c)
  then have "Tag c (os_site_id s) \<notin> known_tags s"
    using assms(2) checked_add_less [of "os_counter s" c] by fastforce
  then have "Tag c (os_site_id s) |\<notin>| os_tombstones s"
    by (simp add: known_tags_def)
  moreover have "item_tags s x |\<inter>| os_tombstones s = {||}"
    using assms(1) by (rule orset_ok_disjoint)
  ultimately show ?thesis
    using assms(1) added by (auto simp: orset_ok_def fmpred_iff)
qed

lemma orset_remove_ok:
  assumes "orset_ok s" "\<And>x t. t |\<in>| item_tags s x \<Longrightarrow> W t = x"
  shows "orset_ok (orset_remove s x)"
proof (cases "fmlookup (os_entries s) x")
  case None
  with assms(1) show ?thesis by (simp add: orset_remove_def)
next
  case (Some tags)
  have "ts \<noteq> {||} \<and> ts |\<inter>| (os_tombstones s |\<union>| tags) = {||}"
    if "fmlookup (fmdrop x (os_entries s)) y = Some ts" for y ts
  proof -
    have y: "y \<noteq> x" "fmlookup (os_entries s) y = Some ts"
      using that by (auto split: if_splits)
    then have "ts |\<inter>| tags = {||}"
      using assms(2) [of _ x] assms(2) [of _ y] Some by (fastforce simp: item_tags_def)
    with assms(1) y show ?thesis
      by (auto simp: orset_ok_def dest: fmpredD)
  qed
  with Some show ?thesis
    by (auto simp: orset_remove_def orset_ok_def fmpred_iff)
qed

lemma orset_run_inv_add:
  assumes inv: "orset_run_inv W R M"
  shows "\<exists>W. orset_run_inv W (R(r := snd (orset_add (R r) x))) M"
proof (cases "fst (orset_add (R r) x)")
  case False
  then have "snd (orset_add (R r) x) = R r"
    by (cases rule: orset_add_cases [of "R r" x]) auto
  with inv show ?thesis by auto
next
  case True
  let ?s = "snd (orset_add (R r) x)"
  define t where "t = Tag (os_counter ?s) r"
  note R = orset_run_invD(1,2) [OF inv, where r = r]
  have lt: "os_counter (R r) < os_counter ?s"
    using True by (cases rule: orset_add_cases [of "R r" x]) (auto dest: checked_add_less)
  have "orset_ok ?s"
    using R(1) orset_coveredD [OF R(2)] by (intro orset_add_ok) auto
  moreover have "tag_counter u \<le> os_counter ((R(r := ?s)) (tag_site_id u))" if "u \<in> known_tags ?s" for u
    using known_tags_add [of "R r" x] that orset_coveredD(3) [OF R(2)] R(1) lt by (fastforce simp: t_def)
  moreover have "(W(t := x)) u = y" if "u |\<in>| item_tags ?s y" for u y
    using that True R(1) orset_coveredD(3,4) [OF R(2)] lt item_tags_known
    by (fastforce simp: item_tags_add t_def split: if_splits)
  ultimately have "orset_covered (W(t := x)) (R(r := ?s)) ?s"
    using R(1) by (simp add: orset_covered_def)
  then have "orset_run_inv (W(t := x)) (R(r := ?s)) M"
    using lt R(1) by (intro orset_run_inv_step [OF inv]) (auto simp: t_def)
  then show ?thesis by blast
qed

lemma orset_run_inv_remove:
  assumes inv: "orset_run_inv W R M"
  shows "orset_run_inv W (R(r := orset_remove (R r) x)) M"
proof -
  note R = orset_run_invD(1,2) [OF inv, where r = r]
  note C = orset_coveredD [OF R(2)]
  have "orset_ok (orset_remove (R r) x)"
    using C(1,4) by (rule orset_remove_ok)
  then have "orset_covered W (R(r := orset_remove (R r) x)) (orset_remove (R r) x)"
    using R(1) C(3,4) known_tags_remove [of "R r" x]
    by (auto simp: orset_covered_def item_tags_remove split: if_splits)
  then show ?thesis
    using R(1) by (intro orset_run_inv_step [OF inv]) auto
qed

lemma orset_run_inv_receive:
  assumes inv: "orset_run_inv W R M" and "m \<in> M"
  shows "orset_run_inv W (R(r := orset_merge (R r) m)) M"
proof -
  note R = orset_run_invD(1,2) [OF inv, where r = r]
  note C = orset_coveredD [OF R(2)] and D = orset_coveredD [OF orset_run_invD(3) [OF inv \<open>m \<in> M\<close>]]
  have eq: "os_counter (orset_merge (R r) m) = os_counter (R r)"
    using orset_merge_counter_bounds [of "R r" "os_counter (R r)" m] D(2,3) R(1) by fastforce
  have "orset_covered W (R(r := orset_merge (R r) m)) (orset_merge (R r) m)"
    using R(1) C(3,4) D(3,4) known_tags_merge [of "R r" m] eq
    by (auto simp: orset_covered_def item_tags_merge intro: orset_merge_ok)
  then show ?thesis
    using R(1) eq by (intro orset_run_inv_step [OF inv]) auto
qed

lemma orset_run_invariant: "orset_run R M \<Longrightarrow> \<exists>W. orset_run_inv W R M"
proof (induction rule: orset_run.induct)
  case run_init
  have "orset_run_inv (\<lambda>_. undefined) (orset_new :: string \<Rightarrow> 'a orset) {}"
    by (auto simp: orset_run_inv_def orset_covered_def)
  then show ?case by blast
next
  case (run_add R M r x)
  then show ?case by (elim exE) (rule orset_run_inv_add)
next
  case (run_remove R M r x)
  then show ?case by (elim exE) (rule exI, rule orset_run_inv_remove)
next
  case (run_send R M r)
  then show ?case by (auto simp: orset_run_inv_def)
next
  case (run_receive R M m r)
  then show ?case by (elim exE) (rule exI, rule orset_run_inv_receive)
qed

subsection \<open>Properties\<close>

lemma orset_fold_ok: "orset_ok s \<Longrightarrow> orset_ok (fold (\<lambda>d s. orset_merge s d) ds s)"
  by (rule fold_invariant_mem) (auto intro: orset_merge_ok)

text \<open>
  Replicas of an OR-Set converge: merging the same set of snapshots, in any order and with any
  repetitions, leaves the same entries, the same tombstones and the same list of items.
\<close>

theorem orset_convergence:
  assumes "orset_ok s" and "\<forall>d\<in>set ds. orset_ok d" and "set ds = set es"
  defines "left \<equiv> fold (\<lambda>d s. orset_merge s d) ds s" and "right \<equiv> fold (\<lambda>d s. orset_merge s d) es s"
  shows "os_entries left = os_entries right \<and> os_tombstones left = os_tombstones right \<and>
    orset_items left = orset_items right"
proof -
  have "orset.coherent s (set ds)"
    using assms(1-3) by (simp add: orset.coherent_def)
  then have v: "orset_view left = orset_view right"
    using orset.convergence assms(3) unfolding orset.deliver_def left_def right_def by blast
  moreover have "orset_ok left" "orset_ok right"
    using assms(1) by (simp_all add: left_def right_def orset_fold_ok)
  ultimately have "os_entries left = os_entries right"
    by (intro orset_view_entries)
  then show ?thesis
    using v by (simp add: orset_view_def orset_items_def)
qed

text \<open>
  C27. Tags are never reused: in every run of the system, the tag a successful addition creates is
  known to no replica and to no snapshot in flight.
\<close>

theorem orset_add_tag_fresh:
  assumes "orset_run R M" and "orset_add (R r) x = (True, s)" and "m \<in> M"
  shows "Tag (os_counter s) r \<notin> known_tags (R q) \<and> Tag (os_counter s) r \<notin> known_tags m \<and>
    Tag (os_counter s) r |\<in>| item_tags s x"
proof -
  obtain W where inv: "orset_run_inv W R M"
    using orset_run_invariant assms(1) by blast
  have lt: "os_counter (R r) < os_counter s"
    using assms(2) by (cases rule: orset_add_cases [of "R r" x]) (auto dest: checked_add_less)
  then have "Tag (os_counter s) r \<notin> known_tags (R q)"
    using orset_coveredD(3) [OF orset_run_invD(2) [OF inv]] by force
  moreover have "Tag (os_counter s) r \<notin> known_tags m"
    using orset_coveredD(3) [OF orset_run_invD(3) [OF inv assms(3)]] lt by force
  moreover have "Tag (os_counter s) r |\<in>| item_tags s x"
    using item_tags_add [of "R r" x x] assms(2) orset_run_invD(1) [OF inv, of r] by simp
  ultimately show ?thesis by simp
qed

text \<open>
  C10. Add wins: when one site adds an item while another removes it, the item is present once the
  two states are merged, whichever replica merges the other.
\<close>

theorem orset_add_wins:
  assumes "orset_run R M" and "orset_add (R r) x = (True, s)"
  shows "orset_contains (orset_merge s (orset_remove (R q) x)) x \<and>
    orset_contains (orset_merge (orset_remove (R q) x) s) x"
proof -
  obtain W where inv: "orset_run_inv W R M"
    using orset_run_invariant assms(1) by blast
  let ?t = "Tag (os_counter s) r"
  have lt: "os_counter (R r) < os_counter s"
    using assms(2) by (cases rule: orset_add_cases [of "R r" x]) (auto dest: checked_add_less)
  then have fresh: "?t \<notin> known_tags (R p)" for p
    using orset_coveredD(3) [OF orset_run_invD(2) [OF inv]] by force
  then have "?t |\<notin>| os_tombstones (orset_remove (R q) x)"
    using item_tags_known [of ?t "R q" x] fresh [of q]
    by (auto simp: orset_remove_tombstones known_tags_def)
  moreover have "?t |\<notin>| os_tombstones s"
    using fresh [of r] orset_add_frame(2) [of "R r" x] assms(2) by (simp add: known_tags_def)
  moreover have "?t |\<in>| item_tags s x"
    using item_tags_add [of "R r" x x] assms(2) orset_run_invD(1) [OF inv, of r] by simp
  ultimately have "?t |\<in>| item_tags (orset_merge s (orset_remove (R q) x)) x"
    and "?t |\<in>| item_tags (orset_merge (orset_remove (R q) x) s) x"
    by (simp_all add: item_tags_merge)
  then show ?thesis
    by (auto simp: orset_contains_iff)
qed

text \<open>
  C28. A removal takes effect everywhere it was observed: merging a snapshot that knows no addition
  of the item beyond those the removing replica had seen does not bring the item back.
\<close>

theorem orset_remove_observed:
  assumes "item_tags m x |\<subseteq>| item_tags s x |\<union>| os_tombstones s"
  shows "\<not> orset_contains (orset_merge (orset_remove s x) m) x \<and>
    \<not> orset_contains (orset_merge m (orset_remove s x)) x"
  using assms
  by (auto simp: orset_contains_iff item_tags_merge item_tags_remove orset_remove_tombstones)

subsection \<open>Witnesses\<close>

text \<open>Two sites that each add an item, the second removing the first's after hearing of it.\<close>

definition ex_a :: "nat orset" where
  "ex_a = snd (orset_add (orset_new ''a'') 1)"

definition ex_b :: "nat orset" where
  "ex_b = orset_remove (orset_merge (snd (orset_add (orset_new ''b'') 2)) ex_a) 1"

theorem orset_add_tag_fresh_witness:
  "Tag 1 ''a'' \<notin> known_tags (orset_new ''b'' :: nat orset)"
proof -
  have run: "orset_run (orset_new :: string \<Rightarrow> nat orset) {orset_new ''b''}"
    using run_send [OF run_init, of "''b''"] by simp
  have "orset_add (orset_new ''a'') (1::nat) = (True, ex_a)" and "os_counter ex_a = 1"
    by code_simp+
  then show ?thesis
    using orset_add_tag_fresh [OF run, of "''a''" 1 ex_a "orset_new ''b''" "''b''"] by simp
qed

theorem orset_add_wins_witness:
  "orset_contains (orset_merge ex_a (orset_remove (orset_new ''b'') 1)) 1"
proof -
  have "orset_add (orset_new ''a'') (1::nat) = (True, ex_a)"
    by code_simp
  then show ?thesis
    using orset_add_wins [OF run_init, of "''a''" 1 ex_a "''b''"] by simp
qed

theorem orset_remove_observed_witness:
  "\<not> orset_contains (orset_merge (orset_remove ex_a 1) ex_a) 1"
  using orset_remove_observed [of ex_a 1 ex_a] by simp

end
