(* ===== verification/GridState.thy ===== *)
theory GridState
  imports GCounter OrSet
begin

section \<open>Grid state snapshots\<close>

text \<open>
  \<^verbatim>\<open>crates/crdt/src/grid_state.rs\<close>: the unit of state that sites exchange. A snapshot holds an
  OR-Set of capabilities, provider records (last writer wins by revision and writer) and one
  grow-only spend counter per tenant. The theory models every operation and proves that merging
  replicates, that a broadcast can only change its own origin's spend and providers, and that the
  two bounds on tenant spend hold.
\<close>

definition MAX_TRACKED_TENANTS :: nat where
  "MAX_TRACKED_TENANTS = 1024"

definition MAX_TENANT_SPEND_ORIGINS :: nat where
  "MAX_TENANT_SPEND_ORIGINS = 256"

record provider_access_policy =
  match_labels :: "(string, string) fmap"

datatype capability = Model string | Tool string | Agent string

text \<open>The derived order of an enum: variants in order of declaration, then the payload.\<close>

primrec capability_rank :: "capability \<Rightarrow> nat \<times> string" where
  "capability_rank (Model s) = (0, s)"
| "capability_rank (Tool s) = (1, s)"
| "capability_rank (Agent s) = (2, s)"

lemma capability_rank_inject: "capability_rank a = capability_rank b \<longleftrightarrow> a = b"
  by (cases a; cases b) simp_all

instantiation capability :: linorder
begin

definition less_eq_capability :: "capability \<Rightarrow> capability \<Rightarrow> bool" where
  "less_eq_capability a b \<longleftrightarrow> capability_rank a \<le> capability_rank b"

definition less_capability :: "capability \<Rightarrow> capability \<Rightarrow> bool" where
  "less_capability a b \<longleftrightarrow> capability_rank a < capability_rank b"

instance
  by standard (auto simp: less_eq_capability_def less_capability_def capability_rank_inject [symmetric] less_le)

end

datatype provider_phase = Available | Pending | Degraded | Unavailable

record provider_metrics_snapshot =
  pm_queue_depth :: "f64 option"
  pm_kv_cache_utilization :: "f64 option"
  pm_latency_p99_ms :: "f64 option"
  pm_prefix_cache_hit_ratio :: "f64 option"
  pm_error_rate :: "f64 option"
  pm_healthy :: "bool option"

record provider_state =
  ps_network_id :: string
  ps_site_id :: string
  ps_provider_id :: string
  ps_routing_cluster :: string
  ps_models :: "string list"
  ps_tools :: "string list"
  ps_backend_kind :: string
  ps_capacity_weight :: u32
  ps_phase :: provider_phase
  ps_metrics :: provider_metrics_snapshot
  ps_access_policy :: provider_access_policy
  ps_revision :: u64
  ps_writer_id :: string

definition MIN_CAPACITY_WEIGHT :: u32 where
  "MIN_CAPACITY_WEIGHT = 1"

definition MAX_CAPACITY_WEIGHT :: u32 where
  "MAX_CAPACITY_WEIGHT = 1000"

definition is_valid_capacity_weight :: "u32 \<Rightarrow> bool" where
  "is_valid_capacity_weight weight \<longleftrightarrow> weight \<ge> MIN_CAPACITY_WEIGHT \<and> weight \<le> MAX_CAPACITY_WEIGHT"

definition default_capacity_weight :: u32 where
  "default_capacity_weight = 1"

definition supersedes :: "provider_state \<Rightarrow> provider_state \<Rightarrow> bool" where
  "supersedes self other \<longleftrightarrow>
     (ps_revision self, ps_writer_id self) > (ps_revision other, ps_writer_id other)"

record grid_state_snapshot =
  gs_site_id :: string
  gs_capabilities :: "capability orset"
  gs_providers :: "(string, provider_state) fmap"
  gs_tenant_spend :: "(string, gcounter) fmap"

subsection \<open>Operations\<close>

definition snapshot_new :: "string \<Rightarrow> grid_state_snapshot" where
  "snapshot_new site_id =
     \<lparr>gs_site_id = site_id, gs_capabilities = orset_new site_id, gs_providers = fmempty,
      gs_tenant_spend = fmempty\<rparr>"

definition add_capability :: "grid_state_snapshot \<Rightarrow> capability \<Rightarrow> bool \<times> grid_state_snapshot" where
  "add_capability self capability =
     (let (added, capabilities) = orset_add (gs_capabilities self) capability
      in (added, self\<lparr>gs_capabilities := capabilities\<rparr>))"

definition provider_key :: "string \<Rightarrow> string \<Rightarrow> string \<Rightarrow> string" where
  "provider_key network_id site_id provider_id = network_id @ ''/'' @ site_id @ ''/'' @ provider_id"

definition upsert_provider :: "provider_state \<Rightarrow> grid_state_snapshot \<Rightarrow> grid_state_snapshot" where
  "upsert_provider provider self =
     (let key = provider_key (ps_network_id provider) (ps_site_id provider) (ps_provider_id provider)
      in case fmlookup (gs_providers self) key of
           Some existing \<Rightarrow>
             if \<not> supersedes provider existing then self
             else self\<lparr>gs_providers := fmupd key provider (gs_providers self)\<rparr>
         | None \<Rightarrow> self\<lparr>gs_providers := fmupd key provider (gs_providers self)\<rparr>)"

text \<open>The counter of a tenant, \<^verbatim>\<open>or_insert_with(|| GCounter::new(site_id))\<close> when there is none.\<close>

definition counter_or_new :: "string \<Rightarrow> gcounter option \<Rightarrow> gcounter" where
  "counter_or_new site_id c = (case c of None \<Rightarrow> gcounter_new site_id | Some counter \<Rightarrow> counter)"

definition merge_tenant_spend ::
  "(string, gcounter) fmap \<Rightarrow> grid_state_snapshot \<Rightarrow> grid_state_snapshot" where
  "merge_tenant_spend other self =
     self\<lparr>gs_tenant_spend := fm_for_entries
       (\<lambda>entry counter. gcounter_merge (counter_or_new (gs_site_id self) entry) counter)
       other (gs_tenant_spend self)\<rparr>"

definition snapshot_merge :: "grid_state_snapshot \<Rightarrow> grid_state_snapshot \<Rightarrow> grid_state_snapshot" where
  "snapshot_merge self other =
     (let self = self\<lparr>gs_capabilities := orset_merge (gs_capabilities self) (gs_capabilities other)\<rparr>;
          self = fold upsert_provider (fmvalues (gs_providers other)) self
      in merge_tenant_spend (gs_tenant_spend other) self)"

definition merge_one_from_origin ::
  "string \<Rightarrow> string \<Rightarrow> string \<times> gcounter \<Rightarrow> (string, gcounter) fmap \<Rightarrow> (string, gcounter) fmap" where
  "merge_one_from_origin site_id origin_site tc tenant_spend =
     (let (tenant_id, counter) = tc;
          origin_only = gcounter_retain_origin counter origin_site
      in if gcounter_total origin_only = 0 then tenant_spend
         else if fmlookup tenant_spend tenant_id = None \<and> fmcount tenant_spend \<ge> MAX_TRACKED_TENANTS
         then tenant_spend
         else
           let entry = counter_or_new site_id (fmlookup tenant_spend tenant_id);
               tenant_spend = fmupd tenant_id entry tenant_spend
           in if \<not> gcounter_has_slot entry origin_site \<and>
                 gcounter_slot_count entry \<ge> MAX_TENANT_SPEND_ORIGINS
              then tenant_spend
              else fmupd tenant_id (gcounter_merge entry origin_only) tenant_spend)"

definition merge_tenant_spend_from_origin ::
  "string \<Rightarrow> (string, gcounter) fmap \<Rightarrow> grid_state_snapshot \<Rightarrow> grid_state_snapshot" where
  "merge_tenant_spend_from_origin origin_site other self =
     self\<lparr>gs_tenant_spend :=
       fold (merge_one_from_origin (gs_site_id self) origin_site) (fmentries other) (gs_tenant_spend self)\<rparr>"

definition remove_origin_tenant_spend :: "string \<Rightarrow> grid_state_snapshot \<Rightarrow> grid_state_snapshot" where
  "remove_origin_tenant_spend origin_site self =
     self\<lparr>gs_tenant_spend := fmretain (\<lambda>_ counter. gcounter_total counter > 0)
       (fmmap (\<lambda>counter. gcounter_remove_slot counter origin_site) (gs_tenant_spend self))\<rparr>"

definition increment_tenant_spend :: "string \<Rightarrow> u64 \<Rightarrow> grid_state_snapshot \<Rightarrow> grid_state_snapshot" where
  "increment_tenant_spend tenant_id amount_cents self =
     (let entry = counter_or_new (gs_site_id self) (fmlookup (gs_tenant_spend self) tenant_id)
      in self\<lparr>gs_tenant_spend := fmupd tenant_id (gcounter_increment entry amount_cents) (gs_tenant_spend self)\<rparr>)"

text \<open>A record as its origin publishes it: the transport revision, written by the origin.\<close>

definition stamp_provider :: "string \<Rightarrow> u64 \<Rightarrow> provider_state \<Rightarrow> provider_state" where
  "stamp_provider origin_site revision provider =
     provider\<lparr>ps_revision := revision, ps_writer_id := origin_site\<rparr>"

definition replace_origin_providers ::
  "string \<Rightarrow> u64 \<Rightarrow> grid_state_snapshot \<Rightarrow> grid_state_snapshot \<Rightarrow> grid_state_snapshot" where
  "replace_origin_providers origin_site revision authoritative self =
     (let self = self\<lparr>gs_providers := fmretain (\<lambda>_ provider. ps_site_id provider \<noteq> origin_site) (gs_providers self)\<rparr>
      in fold (\<lambda>provider. upsert_provider (stamp_provider origin_site revision provider))
           (filter (\<lambda>provider. ps_site_id provider = origin_site) (fmvalues (gs_providers authoritative))) self)"

definition replace_origin_providers_in_networks ::
  "string \<Rightarrow> u64 \<Rightarrow> string fset \<Rightarrow> grid_state_snapshot \<Rightarrow> grid_state_snapshot \<Rightarrow> string fset \<times> grid_state_snapshot" where
  "replace_origin_providers_in_networks origin_site revision network_ids authoritative self =
     (let self = self\<lparr>gs_providers := fmretain
            (\<lambda>_ provider. ps_site_id provider \<noteq> origin_site \<or> ps_network_id provider |\<notin>| network_ids)
            (gs_providers self)\<rparr>
      in fold (\<lambda>provider (accepted, self).
             (finsert (ps_network_id provider) accepted,
              upsert_provider (stamp_provider origin_site revision provider) self))
           (filter (\<lambda>provider. ps_site_id provider = origin_site \<and> ps_network_id provider |\<in>| network_ids)
             (fmvalues (gs_providers authoritative))) ({||}, self))"

definition remove_origin_providers :: "string \<Rightarrow> grid_state_snapshot \<Rightarrow> grid_state_snapshot" where
  "remove_origin_providers origin_site self =
     self\<lparr>gs_providers := fmretain (\<lambda>_ prov. ps_site_id prov \<noteq> origin_site) (gs_providers self)\<rparr>"

definition provider_at :: "grid_state_snapshot \<Rightarrow> string \<Rightarrow> string \<Rightarrow> string \<Rightarrow> provider_state option" where
  "provider_at self network_id site_id provider_id =
     fmlookup (gs_providers self) (provider_key network_id site_id provider_id)"

subsection \<open>Provider records\<close>

abbreviation pkey :: "provider_state \<Rightarrow> string" where
  "pkey p \<equiv> provider_key (ps_network_id p) (ps_site_id p) (ps_provider_id p)"

definition provider_rank :: "provider_state \<Rightarrow> u64 \<times> string" where
  "provider_rank p = (ps_revision p, ps_writer_id p)"

text \<open>The record kept under a key that holds \<open>old\<close> when \<open>p\<close> is upserted.\<close>

definition pick_provider :: "provider_state option \<Rightarrow> provider_state \<Rightarrow> provider_state" where
  "pick_provider old p = (case old of None \<Rightarrow> p | Some e \<Rightarrow> if supersedes p e then p else e)"

text \<open>Records are stored under the key of their own identity.\<close>

definition providers_keyed :: "(string, provider_state) fmap \<Rightarrow> bool" where
  "providers_keyed m \<longleftrightarrow> fmpred (\<lambda>k p. k = pkey p) m"

lemma supersedes_rank: "supersedes p e \<longleftrightarrow> provider_rank e < provider_rank p"
  by (simp add: supersedes_def provider_rank_def)

lemma upsert_provider_frame [simp, frame_simps]:
  "gs_site_id (upsert_provider p s) = gs_site_id s"
  "gs_capabilities (upsert_provider p s) = gs_capabilities s"
  "gs_tenant_spend (upsert_provider p s) = gs_tenant_spend s"
  by (auto simp: upsert_provider_def Let_def split: option.splits)

lemma upsert_provider_lookup [lookup_simps]:
  "fmlookup (gs_providers (upsert_provider p s)) k =
    (if k = pkey p then Some (pick_provider (fmlookup (gs_providers s) k) p)
     else fmlookup (gs_providers s) k)"
  by (auto simp: upsert_provider_def pick_provider_def Let_def split: option.splits)

lemma providers_keyedD: "providers_keyed m \<Longrightarrow> fmlookup m k = Some p \<Longrightarrow> k = pkey p"
  by (auto simp: providers_keyed_def dest: fmpredD)

lemma pick_provider_keyed: "(\<And>e. old = Some e \<Longrightarrow> k = pkey e) \<Longrightarrow> k = pkey p \<Longrightarrow> k = pkey (pick_provider old p)"
  by (auto simp: pick_provider_def split: option.splits)

lemma upsert_provider_keyed [wf_intros]:
  "providers_keyed (gs_providers s) \<Longrightarrow> providers_keyed (gs_providers (upsert_provider p s))"
  unfolding providers_keyed_def fmpred_iff upsert_provider_lookup
  by (auto intro!: pick_provider_keyed split: if_splits)

lemma fold_upsert_frame [simp, frame_simps]:
  "gs_site_id (fold upsert_provider ps s) = gs_site_id s"
  "gs_capabilities (fold upsert_provider ps s) = gs_capabilities s"
  "gs_tenant_spend (fold upsert_provider ps s) = gs_tenant_spend s"
  by (induction ps arbitrary: s) simp_all

lemma fold_upsert_keyed [wf_intros]:
  "providers_keyed (gs_providers s) \<Longrightarrow> providers_keyed (gs_providers (fold upsert_provider ps s))"
  by (induction ps arbitrary: s) (simp_all add: upsert_provider_keyed)

lemma fold_upsert_lookup:
  assumes "distinct (map pkey ps)"
  shows "fmlookup (gs_providers (fold upsert_provider ps s)) k =
    (case map_of (map (\<lambda>p. (pkey p, p)) ps) k of None \<Rightarrow> fmlookup (gs_providers s) k
     | Some p \<Rightarrow> Some (pick_provider (fmlookup (gs_providers s) k) p))"
  using assms
proof (induction ps arbitrary: s)
  case (Cons p ps)
  have "map_of (map (\<lambda>p. (pkey p, p)) ps) (pkey p) = None"
    using Cons.prems by (auto simp: map_of_eq_None_iff image_iff)
  with Cons show ?case
    by (auto simp: upsert_provider_lookup split: option.splits)
qed simp

lemma keyed_values_eq_entries:
  assumes "providers_keyed m"
  shows "map (\<lambda>p. (pkey p, p)) (fmvalues m) = fmentries m"
proof -
  have "map (\<lambda>p. (pkey p, p)) (fmvalues m) = map (\<lambda>(k, p). (pkey p, p)) (fmentries m)"
    by (simp add: fmvalues_def comp_def case_prod_beta)
  also have "\<dots> = map id (fmentries m)"
    using assms by (intro map_cong) (auto dest: providers_keyedD)
  finally show ?thesis by simp
qed

lemma keyed_distinct: "providers_keyed m \<Longrightarrow> distinct (map pkey (fmvalues m))"
  using distinct_fmentries_keys [of m] keyed_values_eq_entries [of m]
  by (metis (no_types, lifting) comp_apply fst_conv list.map_comp map_cong)

lemma fold_upsert_values_lookup:
  assumes "providers_keyed m"
  shows "fmlookup (gs_providers (fold upsert_provider (fmvalues m) s)) k =
    (case fmlookup m k of None \<Rightarrow> fmlookup (gs_providers s) k
     | Some p \<Rightarrow> Some (pick_provider (fmlookup (gs_providers s) k) p))"
  using fold_upsert_lookup [OF keyed_distinct [OF assms]] keyed_values_eq_entries [OF assms] by simp

subsection \<open>Tenant spend\<close>

lemma gcounter_merge_new_slots [simp]: "gc_slots (gcounter_merge (gcounter_new r) c) = gc_slots c"
  by (rule fmap_eqI) (simp add: gcounter_merge_lookup gcounter_new_def split: option.splits)

lemma gcounter_merge_right_new_slots [simp]:
  "gc_slots (gcounter_merge c (gcounter_new r)) = gc_slots c"
  "gc_slots (gcounter_merge c (gcounter_merge (gcounter_new r) d)) = gc_slots (gcounter_merge c d)"
  by (rule fmap_eqI, simp add: gcounter_merge_lookup gcounter_new_def split: option.splits)+

lemma counter_or_new_simps [simp]:
  "counter_or_new r None = gcounter_new r" "counter_or_new r (Some c) = c"
  by (simp_all add: counter_or_new_def)

definition spend_view :: "grid_state_snapshot \<Rightarrow> (string, (string, u64) fmap) fmap" where
  "spend_view s = fmmap gc_slots (gs_tenant_spend s)"

lemma merge_tenant_spend_frame [simp, frame_simps]:
  "gs_site_id (merge_tenant_spend m s) = gs_site_id s"
  "gs_capabilities (merge_tenant_spend m s) = gs_capabilities s"
  "gs_providers (merge_tenant_spend m s) = gs_providers s"
  by (simp_all add: merge_tenant_spend_def)

lemma merge_tenant_spend_lookup [lookup_simps]:
  "fmlookup (gs_tenant_spend (merge_tenant_spend m s)) t =
    (case fmlookup m t of None \<Rightarrow> fmlookup (gs_tenant_spend s) t
     | Some c \<Rightarrow> Some (gcounter_merge (counter_or_new (gs_site_id s) (fmlookup (gs_tenant_spend s) t)) c))"
  by (simp add: merge_tenant_spend_def)

subsection \<open>Merging replicates\<close>

definition snapshot_view ::
  "grid_state_snapshot \<Rightarrow> ((capability \<Rightarrow> tag fset) \<times> tag fset) \<times> (string, provider_state) fmap \<times>
     (string, (string, u64) fmap) fmap" where
  "snapshot_view s = (orset_view (gs_capabilities s), gs_providers s, spend_view s)"

definition snapshot_ok :: "grid_state_snapshot \<Rightarrow> bool" where
  "snapshot_ok s \<longleftrightarrow> orset_ok (gs_capabilities s) \<and> providers_keyed (gs_providers s)"

text \<open>
  The contract of the module: a writer never reuses a revision for another payload, so two records
  under one key with one revision and writer are one record.
\<close>

definition revisions_unique :: "grid_state_snapshot \<Rightarrow> grid_state_snapshot \<Rightarrow> bool" where
  "revisions_unique a b \<longleftrightarrow>
     (\<forall>k p q. fmlookup (gs_providers a) k = Some p \<longrightarrow> fmlookup (gs_providers b) k = Some q \<longrightarrow>
        provider_rank p = provider_rank q \<longrightarrow> p = q)"

lemma snapshot_merge_frame [simp, frame_simps]:
  "gs_site_id (snapshot_merge a b) = gs_site_id a"
  "gs_capabilities (snapshot_merge a b) = orset_merge (gs_capabilities a) (gs_capabilities b)"
  by (simp_all add: snapshot_merge_def Let_def)

lemma snapshot_merge_providers:
  assumes "providers_keyed (gs_providers b)"
  shows "fmlookup (gs_providers (snapshot_merge a b)) k =
    (case fmlookup (gs_providers b) k of None \<Rightarrow> fmlookup (gs_providers a) k
     | Some p \<Rightarrow> Some (pick_provider (fmlookup (gs_providers a) k) p))"
  by (simp add: snapshot_merge_def Let_def fold_upsert_values_lookup [OF assms] split: option.split)

lemma snapshot_merge_keyed [wf_intros]:
  "providers_keyed (gs_providers a) \<Longrightarrow> providers_keyed (gs_providers (snapshot_merge a b))"
  by (simp add: snapshot_merge_def Let_def fold_upsert_keyed)

lemma snapshot_merge_spend:
  "fmlookup (gs_tenant_spend (snapshot_merge a b)) t =
    (case fmlookup (gs_tenant_spend b) t of None \<Rightarrow> fmlookup (gs_tenant_spend a) t
     | Some c \<Rightarrow> Some (gcounter_merge (counter_or_new (gs_site_id a) (fmlookup (gs_tenant_spend a) t)) c))"
  by (simp add: snapshot_merge_def Let_def merge_tenant_spend_lookup split: option.split)

lemma snapshot_merge_ok [wf_intros]: "snapshot_ok a \<Longrightarrow> snapshot_ok (snapshot_merge a b)"
  by (simp add: snapshot_ok_def orset_merge_ok snapshot_merge_keyed)

lemma pick_provider_idem [simp]: "pick_provider (Some p) p = p"
  by (simp add: pick_provider_def)

lemma pick_provider_None [simp]: "pick_provider None p = p"
  by (simp add: pick_provider_def)

lemma pick_provider_assoc:
  "pick_provider (Some (pick_provider old q)) r = pick_provider old (pick_provider (Some q) r)"
  by (auto simp: pick_provider_def supersedes_rank split: option.splits)

lemma pick_provider_comm:
  "(provider_rank p = provider_rank q \<Longrightarrow> p = q) \<Longrightarrow> pick_provider (Some p) q = pick_provider (Some q) p"
  by (auto simp: pick_provider_def supersedes_rank dest: less_asym)

lemma snapshot_view_eqI:
  assumes "orset_view (gs_capabilities a) = orset_view (gs_capabilities b)"
    and "\<And>k. fmlookup (gs_providers a) k = fmlookup (gs_providers b) k"
    and "\<And>t. map_option gc_slots (fmlookup (gs_tenant_spend a) t) =
              map_option gc_slots (fmlookup (gs_tenant_spend b) t)"
  shows "snapshot_view a = snapshot_view b"
  using assms by (auto simp: snapshot_view_def spend_view_def intro!: fmap_eqI)

lemma snapshot_viewD:
  assumes "snapshot_view a = snapshot_view b"
  shows "orset_view (gs_capabilities a) = orset_view (gs_capabilities b)"
    and "gs_providers a = gs_providers b"
    and "map_option gc_slots (fmlookup (gs_tenant_spend a) t) =
         map_option gc_slots (fmlookup (gs_tenant_spend b) t)"
  using assms fmlookup_map [of gc_slots "gs_tenant_spend a" t] fmlookup_map [of gc_slots "gs_tenant_spend b" t]
  by (simp_all add: snapshot_view_def spend_view_def)

lemma snapshot_merge_idem:
  assumes "snapshot_ok a"
  shows "snapshot_view (snapshot_merge a a) = snapshot_view a"
  using assms unfolding snapshot_ok_def
  by (intro snapshot_view_eqI)
    (auto simp: snapshot_merge_providers snapshot_merge_spend orset.merge_idem gcounter_merge_slots_idem
      split: option.split)

lemma snapshot_merge_comm:
  assumes "snapshot_ok a" "snapshot_ok b" "revisions_unique a b"
  shows "snapshot_view (snapshot_merge a b) = snapshot_view (snapshot_merge b a)"
proof (rule snapshot_view_eqI)
  show "orset_view (gs_capabilities (snapshot_merge a b)) = orset_view (gs_capabilities (snapshot_merge b a))"
    using assms by (simp add: snapshot_ok_def orset.merge_comm)
  show "fmlookup (gs_providers (snapshot_merge a b)) k = fmlookup (gs_providers (snapshot_merge b a)) k" for k
    using assms by (auto simp: snapshot_ok_def revisions_unique_def snapshot_merge_providers
      intro!: pick_provider_comm split: option.split)
  show "map_option gc_slots (fmlookup (gs_tenant_spend (snapshot_merge a b)) t) =
    map_option gc_slots (fmlookup (gs_tenant_spend (snapshot_merge b a)) t)" for t
    using gcounter_merge_slots_comm by (auto simp: snapshot_merge_spend split: option.split)
qed

lemma snapshot_merge_assoc:
  assumes "snapshot_ok a" "snapshot_ok b" "snapshot_ok c"
  shows "snapshot_view (snapshot_merge (snapshot_merge a b) c) =
    snapshot_view (snapshot_merge a (snapshot_merge b c))"
proof (rule snapshot_view_eqI)
  show "orset_view (gs_capabilities (snapshot_merge (snapshot_merge a b) c)) =
    orset_view (gs_capabilities (snapshot_merge a (snapshot_merge b c)))"
    using assms by (simp add: snapshot_ok_def orset.merge_assoc)
  show "fmlookup (gs_providers (snapshot_merge (snapshot_merge a b) c)) k =
    fmlookup (gs_providers (snapshot_merge a (snapshot_merge b c))) k" for k
    using assms by (simp add: snapshot_ok_def snapshot_merge_providers snapshot_merge_keyed
      pick_provider_assoc split: option.split)
  show "map_option gc_slots (fmlookup (gs_tenant_spend (snapshot_merge (snapshot_merge a b) c)) t) =
    map_option gc_slots (fmlookup (gs_tenant_spend (snapshot_merge a (snapshot_merge b c))) t)" for t
    by (simp add: snapshot_merge_spend gcounter_merge_slots_assoc split: option.split)
qed

lemma snapshot_merge_cong:
  assumes "snapshot_ok a" "snapshot_ok a'" "snapshot_ok b" "snapshot_view a = snapshot_view a'"
  shows "snapshot_view (snapshot_merge a b) = snapshot_view (snapshot_merge a' b)"
proof (rule snapshot_view_eqI)
  show "orset_view (gs_capabilities (snapshot_merge a b)) = orset_view (gs_capabilities (snapshot_merge a' b))"
    using assms snapshot_viewD(1) [OF assms(4)] unfolding snapshot_ok_def snapshot_merge_frame
    by (intro orset.merge_cong) simp_all
  show "fmlookup (gs_providers (snapshot_merge a b)) k = fmlookup (gs_providers (snapshot_merge a' b)) k" for k
    using assms(3) by (simp add: snapshot_ok_def snapshot_merge_providers snapshot_viewD(2) [OF assms(4)] split: option.split)
  show "map_option gc_slots (fmlookup (gs_tenant_spend (snapshot_merge a b)) t) =
    map_option gc_slots (fmlookup (gs_tenant_spend (snapshot_merge a' b)) t)" for t
    using snapshot_viewD(3) [OF assms(4), of t]
    by (auto simp: snapshot_merge_spend map_option_case intro: gcounter_merge_slots_cong split: option.splits)
qed

lemma revisions_unique_merge:
  assumes "snapshot_ok b" "revisions_unique c a" "revisions_unique c b"
  shows "revisions_unique c (snapshot_merge a b)"
  using assms unfolding revisions_unique_def snapshot_ok_def
  by (fastforce simp: snapshot_merge_providers pick_provider_def split: option.splits if_splits)

lemma revisions_unique_sym: "revisions_unique a b \<Longrightarrow> revisions_unique b a"
  unfolding revisions_unique_def by metis

interpretation snapshot: merge_replica snapshot_merge snapshot_view snapshot_ok revisions_unique
proof unfold_locales
  show "revisions_unique a a" for a
    by (simp add: revisions_unique_def)
qed (rule snapshot_merge_ok snapshot_merge_idem snapshot_merge_comm snapshot_merge_assoc snapshot_merge_cong
  revisions_unique_merge revisions_unique_sym; assumption)+

subsection \<open>Spend reported by one origin\<close>

text \<open>The slot a site has in a tenant's counter, 0 when either is absent.\<close>

definition spend_slot :: "(string, gcounter) fmap \<Rightarrow> string \<Rightarrow> string \<Rightarrow> u64" where
  "spend_slot m t site = (case fmlookup m t of None \<Rightarrow> 0 | Some c \<Rightarrow> slot c site)"

definition spend_bounded :: "(string, gcounter) fmap \<Rightarrow> bool" where
  "spend_bounded m \<longleftrightarrow> fmcount m \<le> MAX_TRACKED_TENANTS \<and>
     fmpred (\<lambda>_ c. gcounter_slot_count c \<le> MAX_TENANT_SPEND_ORIGINS) m"

lemma slot_retain: "slot (gcounter_retain_origin c o') s = (if s = o' then slot c s else 0)"
  by (simp add: gcounter_retain_lookup)

lemma slot_remove_slot: "slot (gcounter_remove_slot c o') s = (if s = o' then 0 else slot c s)"
  by (simp add: gcounter_remove_slot_def)

lemma slot_new [simp]: "slot (gcounter_new r) s = 0"
  by (simp add: gcounter_new_def)

lemma if_if_same: "(if A then x else if B then x else y) = (if A \<or> B then x else y)"
  by simp

lemma merge_one_cases:
  obtains "merge_one_from_origin r o' (t, c) m = m"
  | "fmlookup m t \<noteq> None \<or> fmcount m < MAX_TRACKED_TENANTS"
    "\<not> gcounter_has_slot (counter_or_new r (fmlookup m t)) o'"
    "gcounter_slot_count (counter_or_new r (fmlookup m t)) \<ge> MAX_TENANT_SPEND_ORIGINS"
    "merge_one_from_origin r o' (t, c) m = fmupd t (counter_or_new r (fmlookup m t)) m"
  | "fmlookup m t \<noteq> None \<or> fmcount m < MAX_TRACKED_TENANTS"
    "gcounter_has_slot (counter_or_new r (fmlookup m t)) o' \<or>
     gcounter_slot_count (counter_or_new r (fmlookup m t)) < MAX_TENANT_SPEND_ORIGINS"
    "merge_one_from_origin r o' (t, c) m =
       fmupd t (gcounter_merge (counter_or_new r (fmlookup m t)) (gcounter_retain_origin c o')) m"
proof -
  have upd: "fmupd t d (fmupd t e m) = fmupd t d m" for d e
    by (rule fmap_eqI) simp
  define entry where "entry = counter_or_new r (fmlookup m t)"
  define skip where "skip \<longleftrightarrow> gcounter_total (gcounter_retain_origin c o') = 0 \<or>
    fmlookup m t = None \<and> fmcount m \<ge> MAX_TRACKED_TENANTS"
  define full where "full \<longleftrightarrow> \<not> gcounter_has_slot entry o' \<and> gcounter_slot_count entry \<ge> MAX_TENANT_SPEND_ORIGINS"
  have eq: "merge_one_from_origin r o' (t, c) m =
    (if skip then m else if full then fmupd t entry m
     else fmupd t (gcounter_merge entry (gcounter_retain_origin c o')) m)"
    unfolding merge_one_from_origin_def Let_def prod.case upd if_if_same skip_def full_def entry_def by (rule refl)
  have "fmlookup m t \<noteq> None \<or> fmcount m < MAX_TRACKED_TENANTS" if "\<not> skip"
    using that by (auto simp: skip_def)
  moreover have "gcounter_has_slot entry o' \<or> gcounter_slot_count entry < MAX_TENANT_SPEND_ORIGINS" if "\<not> full"
    using that by (auto simp: full_def)
  moreover have "\<not> gcounter_has_slot entry o'" "gcounter_slot_count entry \<ge> MAX_TENANT_SPEND_ORIGINS" if full
    using that by (auto simp: full_def)
  ultimately show thesis
    using that eq unfolding entry_def [symmetric] by (cases skip; cases full) simp_all
qed

lemma spend_slot_upd [simp]:
  "spend_slot (fmupd t c m) t' s = (if t' = t then slot c s else spend_slot m t' s)"
  by (simp add: spend_slot_def)

lemma slot_counter_or_new [simp]: "slot (counter_or_new r (fmlookup m t)) s = spend_slot m t s"
  by (cases "fmlookup m t") (simp_all add: spend_slot_def)

lemma merge_one_spend_slot:
  "spend_slot (merge_one_from_origin r o' (t, c) m) t' s \<in>
     (if s = o' \<and> t' = t then {spend_slot m t s, max (spend_slot m t s) (slot c s)} else {spend_slot m t' s})"
  by (cases rule: merge_one_cases [of r o' t c m]) (auto simp: slot_merge slot_retain)

lemma slot_count_merge_retain:
  "gcounter_slot_count (gcounter_merge c (gcounter_retain_origin d o')) \<le>
     (if gcounter_has_slot c o' then gcounter_slot_count c else Suc (gcounter_slot_count c))"
proof -
  have "fmdom (gc_slots (gcounter_merge c (gcounter_retain_origin d o'))) |\<subseteq>| finsert o' (fmdom (gc_slots c))"
    by (auto simp: gcounter_merge_dom gcounter_retain_lookup fmlookup_dom_iff split: if_splits)
  then have "gcounter_slot_count (gcounter_merge c (gcounter_retain_origin d o')) \<le> fcard (finsert o' (fmdom (gc_slots c)))"
    unfolding gcounter_slot_count_def fmcount_def by (rule fcard_mono)
  then show ?thesis
    by (auto simp: gcounter_has_slot_def gcounter_slot_count_def fmcount_def fcard_finsert_if fmlookup_dom_iff
      split: if_splits)
qed

lemma counter_or_new_bounded:
  "spend_bounded m \<Longrightarrow> gcounter_slot_count (counter_or_new r (fmlookup m t)) \<le> MAX_TENANT_SPEND_ORIGINS"
  by (cases "fmlookup m t")
    (auto simp: spend_bounded_def gcounter_slot_count_def gcounter_new_def dest: fmpredD)

lemma spend_bounded_upd:
  assumes "spend_bounded m" "fmlookup m t \<noteq> None \<or> fmcount m < MAX_TRACKED_TENANTS"
    and "gcounter_slot_count c \<le> MAX_TENANT_SPEND_ORIGINS"
  shows "spend_bounded (fmupd t c m)"
  using assms by (auto simp: spend_bounded_def fmcount_fmupd fmpred_upd)

lemma merge_one_bounded [wf_intros]:
  assumes "spend_bounded m"
  shows "spend_bounded (merge_one_from_origin r o' (t, c) m)"
proof (cases rule: merge_one_cases [of r o' t c m])
  case 3
  with slot_count_merge_retain [of "counter_or_new r (fmlookup m t)" c o'] counter_or_new_bounded [OF assms, of r t]
  show ?thesis
    using assms by (auto intro!: spend_bounded_upd split: if_splits)
qed (use assms counter_or_new_bounded [OF assms] in \<open>auto intro!: spend_bounded_upd\<close>)

lemma fold_merge_one_bounded [wf_intros]:
  "spend_bounded m \<Longrightarrow> spend_bounded (fold (merge_one_from_origin r o') tcs m)"
  by (induction tcs arbitrary: m) (auto simp: merge_one_bounded)

lemma fold_merge_one_slot_other:
  assumes "s \<noteq> o'"
  shows "spend_slot (fold (merge_one_from_origin r o') tcs m) t s = spend_slot m t s"
proof (induction tcs arbitrary: m)
  case (Cons tc tcs)
  then show ?case
    using assms merge_one_spend_slot [of r o' "fst tc" "snd tc" m t s] by simp
qed simp

lemma fold_merge_one_slot_absent:
  assumes "t \<notin> fst ` set tcs"
  shows "spend_slot (fold (merge_one_from_origin r o') tcs m) t s = spend_slot m t s"
  using assms
proof (induction tcs arbitrary: m)
  case (Cons tc tcs)
  then show ?case
    using merge_one_spend_slot [of r o' "fst tc" "snd tc" m t s] by auto
qed simp

lemma fold_merge_one_slot_own:
  assumes "distinct (map fst tcs)" "(t, c) \<in> set tcs"
  shows "spend_slot (fold (merge_one_from_origin r o') tcs m) t o' \<in>
    {spend_slot m t o', max (spend_slot m t o') (slot c o')}"
  using assms
proof (induction tcs arbitrary: m)
  case (Cons tc tcs)
  show ?case
  proof (cases "tc = (t, c)")
    case True
    then have "t \<notin> fst ` set tcs"
      using Cons.prems by auto
    then show ?thesis
      using True merge_one_spend_slot [of r o' t c m t o'] by (simp add: fold_merge_one_slot_absent)
  next
    case False
    then have "fst tc \<noteq> t" "(t, c) \<in> set tcs"
      using Cons.prems by (auto simp: rev_image_eqI)
    then show ?thesis
      using Cons.IH [of "merge_one_from_origin r o' tc m"] Cons.prems
        merge_one_spend_slot [of r o' "fst tc" "snd tc" m t o'] by auto
  qed
qed simp

lemma merge_one_tracked:
  assumes "fmlookup m t = Some e" "gcounter_has_slot e o'"
  shows "merge_one_from_origin r o' (t, c) m =
    (if slot c o' = 0 then m else fmupd t (gcounter_merge e (gcounter_retain_origin c o')) m)"
proof -
  have "gcounter_total (gcounter_retain_origin c o') = 0 \<longleftrightarrow> slot c o' = 0"
    by (auto simp: gcounter_total_eq_0 slot_retain)
  moreover have "fmupd t d (fmupd t e m) = fmupd t d m" for d
    by (rule fmap_eqI) simp
  ultimately show ?thesis
    using assms by (simp add: merge_one_from_origin_def Let_def)
qed

subsection \<open>Replacing the records of an origin\<close>

definition slash_free :: "string \<Rightarrow> bool" where
  "slash_free s \<longleftrightarrow> CHR ''/'' \<notin> set s"

text \<open>Network and site names without a slash, as Kubernetes names are.\<close>

definition providers_named :: "(string, provider_state) fmap \<Rightarrow> bool" where
  "providers_named m \<longleftrightarrow> fmpred (\<lambda>_ p. slash_free (ps_network_id p) \<and> slash_free (ps_site_id p)) m"

lemma providers_namedD:
  "providers_named m \<Longrightarrow> fmlookup m k = Some p \<Longrightarrow> slash_free (ps_network_id p) \<and> slash_free (ps_site_id p)"
  by (auto simp: providers_named_def dest: fmpredD)

lemma slash_free_split:
  assumes "slash_free a" "slash_free b" "a @ CHR ''/'' # x = b @ CHR ''/'' # y"
  shows "a = b \<and> x = y"
  using assms
proof (induction a arbitrary: b)
  case Nil
  then show ?case by (cases b) (auto simp: slash_free_def)
next
  case (Cons c a)
  then show ?case by (cases b) (auto simp: slash_free_def)
qed

lemma provider_key_inject:
  assumes "slash_free n" "slash_free n'" "slash_free s" "slash_free s'"
    and "provider_key n s p = provider_key n' s' p'"
  shows "n = n' \<and> s = s' \<and> p = p'"
proof -
  have "n = n'" "s @ CHR ''/'' # p = s' @ CHR ''/'' # p'"
    using slash_free_split [OF assms(1,2), of "s @ CHR ''/'' # p" "s' @ CHR ''/'' # p'"] assms(5)
    by (simp_all add: provider_key_def)
  then show ?thesis
    using slash_free_split [OF assms(3,4), of p p'] by simp
qed

lemma stamp_provider_simps [simp]:
  "ps_network_id (stamp_provider o' r p) = ps_network_id p"
  "ps_site_id (stamp_provider o' r p) = ps_site_id p"
  "ps_provider_id (stamp_provider o' r p) = ps_provider_id p"
  "provider_rank (stamp_provider o' r p) = (r, o')"
  by (simp_all add: stamp_provider_def provider_rank_def)

lemma fold_map_comp: "fold (\<lambda>x. f (g x)) xs = fold f (map g xs)"
  by (simp add: fold_map comp_def)

lemma map_of_filter_keyed:
  assumes "providers_keyed m"
  shows "map_of (map (\<lambda>p. (pkey p, f p)) (filter Q (fmvalues m))) k =
    (case fmlookup m k of None \<Rightarrow> None | Some p \<Rightarrow> if Q p then Some (f p) else None)"
proof -
  have "map (\<lambda>p. (pkey p, f p)) (filter Q (fmvalues m)) =
    map (\<lambda>(k, p). (k, f p)) (filter (\<lambda>(k, p). Q p) (map (\<lambda>p. (pkey p, p)) (fmvalues m)))"
    by (simp add: filter_map comp_def)
  also have "\<dots> = map (\<lambda>(k, p). (k, f p)) (filter (\<lambda>(k, p). Q p) (fmentries m))"
    unfolding keyed_values_eq_entries [OF assms] ..
  finally show ?thesis
    by (simp add: map_of_map map_of_filter_values split: option.split)
qed

lemma fold_upsert_stamped_lookup:
  assumes "providers_keyed m"
  shows "fmlookup (gs_providers (fold (\<lambda>p. upsert_provider (stamp_provider o' r p)) (filter Q (fmvalues m)) s)) k =
    (case fmlookup m k of None \<Rightarrow> fmlookup (gs_providers s) k
     | Some p \<Rightarrow> if Q p then Some (pick_provider (fmlookup (gs_providers s) k) (stamp_provider o' r p))
                 else fmlookup (gs_providers s) k)"
proof -
  let ?ps = "map (stamp_provider o' r) (filter Q (fmvalues m))"
  have "distinct (map pkey ?ps)"
    using keyed_distinct [OF assms] by (simp add: comp_def distinct_map_filter)
  from fold_upsert_lookup [OF this, of s k] show ?thesis
    using map_of_filter_keyed [OF assms, of "stamp_provider o' r" Q k]
    by (simp add: fold_map_comp [of upsert_provider "stamp_provider o' r"] comp_def split: option.split if_splits)
qed

text \<open>A stamped record never meets an old one: those under its key were of the same origin and network.\<close>

lemma keyed_same_owner:
  assumes "providers_keyed m" "providers_named m" "providers_keyed n" "providers_named n"
    and "fmlookup m k = Some p" "fmlookup n k = Some q"
  shows "ps_network_id p = ps_network_id q \<and> ps_site_id p = ps_site_id q \<and> ps_provider_id p = ps_provider_id q"
proof -
  have "pkey p = pkey q"
    using providers_keyedD [OF assms(1,5)] providers_keyedD [OF assms(3,6)] by simp
  then show ?thesis
    using providers_namedD [OF assms(2,5)] providers_namedD [OF assms(4,6)] by (intro provider_key_inject) simp_all
qed

lemma fold_accepted_networks:
  "fold (\<lambda>p (accepted, s). (finsert (ps_network_id p) accepted, f p s)) ps (A, s) =
    (fold (\<lambda>p. finsert (ps_network_id p)) ps A, fold f ps s)"
  by (induction ps arbitrary: A s) simp_all

lemma replace_in_networks_unfold:
  "replace_origin_providers_in_networks o' r N a s =
    (fold (\<lambda>p. finsert (ps_network_id p))
       (filter (\<lambda>p. ps_site_id p = o' \<and> ps_network_id p |\<in>| N) (fmvalues (gs_providers a))) {||},
     fold (\<lambda>p. upsert_provider (stamp_provider o' r p))
       (filter (\<lambda>p. ps_site_id p = o' \<and> ps_network_id p |\<in>| N) (fmvalues (gs_providers a)))
       (s\<lparr>gs_providers := fmretain (\<lambda>_ p. \<not> (ps_site_id p = o' \<and> ps_network_id p |\<in>| N)) (gs_providers s)\<rparr>))"
  by (simp only: replace_origin_providers_in_networks_def Let_def fold_accepted_networks de_Morgan_conj)

lemma fold_finsert_mem: "x |\<in>| fold (\<lambda>p. finsert (f p)) ps A \<longleftrightarrow> x |\<in>| A \<or> x \<in> f ` set ps"
  by (induction ps arbitrary: A) auto

lemma merge_one_keeps_tracked:
  assumes "fmlookup m t = Some e" "gcounter_has_slot e o'"
  shows "\<exists>e. fmlookup (merge_one_from_origin r o' tc m) t = Some e \<and> gcounter_has_slot e o'"
  using assms
  by (cases tc, cases rule: merge_one_cases [of r o' "fst tc" "snd tc" m])
    (auto simp: gcounter_has_slot_def gcounter_merge_lookup split: option.splits)

lemma fold_merge_one_tracked:
  assumes "fmlookup m t = Some e" "gcounter_has_slot e o'" "distinct (map fst tcs)" "(t, c) \<in> set tcs"
  shows "spend_slot (fold (merge_one_from_origin r o') tcs m) t o' = max (spend_slot m t o') (slot c o')"
  using assms
proof (induction tcs arbitrary: m e)
  case (Cons tc tcs)
  show ?case
  proof (cases "tc = (t, c)")
    case True
    then have "t \<notin> fst ` set tcs"
      using Cons.prems by auto
    then show ?thesis
      using True Cons.prems merge_one_tracked [of m t e o' r c]
      by (simp add: fold_merge_one_slot_absent slot_merge slot_retain spend_slot_def [of m])
  next
    case False
    then have t: "fst tc \<noteq> t" "(t, c) \<in> set tcs"
      using Cons.prems by (auto simp: rev_image_eqI)
    obtain e' where "fmlookup (merge_one_from_origin r o' tc m) t = Some e'" "gcounter_has_slot e' o'"
      using merge_one_keeps_tracked [OF Cons.prems(1,2)] by blast
    then show ?thesis
      using Cons.IH [of "merge_one_from_origin r o' tc m" e'] Cons.prems(3) t
        merge_one_spend_slot [of r o' "fst tc" "snd tc" m t o'] by simp
  qed
qed simp

lemma spend_slot_entries:
  "spend_slot m t s = (case map_of (fmentries m) t of None \<Rightarrow> 0 | Some c \<Rightarrow> slot c s)"
  by (simp add: spend_slot_def)

subsection \<open>Properties\<close>

text \<open>
  C2. Replicated grid state converges: two replicas that start alike and merge the same set of
  snapshots, in any order and with any repetitions, show the same provider records, the same
  capabilities and the same spend of every tenant, as long as no two of them hold different records
  under one key, revision and writer.
\<close>

theorem snapshot_convergence:
  assumes "snapshot_ok s" and "\<forall>d\<in>set ds. snapshot_ok d \<and> revisions_unique s d"
    and "\<forall>d\<in>set ds. \<forall>e\<in>set ds. revisions_unique d e" and "set ds = set es"
  defines "left \<equiv> fold (\<lambda>d s. snapshot_merge s d) ds s" and "right \<equiv> fold (\<lambda>d s. snapshot_merge s d) es s"
  shows "gs_providers left = gs_providers right \<and>
    orset_items (gs_capabilities left) = orset_items (gs_capabilities right) \<and>
    map_option gcounter_total (fmlookup (gs_tenant_spend left) t) =
      map_option gcounter_total (fmlookup (gs_tenant_spend right) t)"
proof -
  have "snapshot.coherent s (set ds)"
    using assms(1-3) by (simp add: snapshot.coherent_def)
  then have v: "snapshot_view left = snapshot_view right"
    unfolding left_def right_def snapshot.deliver_def [symmetric]
    using assms(4) by (intro snapshot.convergence) auto
  have "map_option gcounter_total (fmlookup (gs_tenant_spend left) t) =
      map_option gcounter_total (fmlookup (gs_tenant_spend right) t)"
    using snapshot_viewD(3) [OF v, of t] by (auto simp: map_option_case gcounter_total_def split: option.splits)
  moreover have "snapshot_ok left" "snapshot_ok right"
    unfolding left_def right_def by (rule fold_invariant_mem; simp add: assms(1) snapshot_merge_ok)+
  ultimately show ?thesis
    using snapshot_viewD(1,2) [OF v] orset_items_view [of "gs_capabilities left" "gs_capabilities right"]
    by (simp add: snapshot_ok_def)
qed

text \<open>
  An origin is believed for its own spend only: merging what it reports changes no slot but its
  own, in any tenant, and its own slot only to the greater of the old and the reported count;
  where the tenant and the slot are already tracked, to exactly that.
\<close>

theorem spend_from_origin_isolated:
  fixes s :: grid_state_snapshot and other :: "(string, gcounter) fmap" and origin :: string
  defines "result \<equiv> gs_tenant_spend (merge_tenant_spend_from_origin origin other s)"
  shows "spend_slot result t site \<in>
      (if site = origin then {spend_slot (gs_tenant_spend s) t site,
         max (spend_slot (gs_tenant_spend s) t site) (spend_slot other t site)}
       else {spend_slot (gs_tenant_spend s) t site}) \<and>
    (fmlookup (gs_tenant_spend s) t = Some e \<and> gcounter_has_slot e origin \<longrightarrow>
       spend_slot result t origin = max (spend_slot (gs_tenant_spend s) t origin) (spend_slot other t origin))"
proof (cases "fmlookup other t")
  case None
  then have "t \<notin> fst ` set (fmentries other)"
    by force
  with None show ?thesis
    by (simp add: result_def merge_tenant_spend_from_origin_def fold_merge_one_slot_absent spend_slot_def [of other])
next
  case (Some c)
  then have c: "(t, c) \<in> set (fmentries other)" "spend_slot other t origin = slot c origin"
    by (simp_all add: spend_slot_def)
  have r: "result = fold (merge_one_from_origin (gs_site_id s) origin) (fmentries other) (gs_tenant_spend s)"
    by (simp add: result_def merge_tenant_spend_from_origin_def)
  have "spend_slot result t origin \<in> {spend_slot (gs_tenant_spend s) t origin,
      max (spend_slot (gs_tenant_spend s) t origin) (spend_slot other t origin)}"
    unfolding r c(2) by (rule fold_merge_one_slot_own [OF distinct_fmentries_keys c(1)])
  moreover have "spend_slot result t origin = max (spend_slot (gs_tenant_spend s) t origin) (spend_slot other t origin)"
    if "fmlookup (gs_tenant_spend s) t = Some e" "gcounter_has_slot e origin"
    unfolding r c(2) by (rule fold_merge_one_tracked [OF that distinct_fmentries_keys c(1)])
  moreover have "spend_slot result t site = spend_slot (gs_tenant_spend s) t site" if "site \<noteq> origin"
    unfolding r by (rule fold_merge_one_slot_other [OF that])
  ultimately show ?thesis by (cases "site = origin") simp_all
qed

text \<open>
  The spend table stays bounded: whatever an origin reports, at most \<^verbatim>\<open>MAX_TRACKED_TENANTS\<close>
  tenants are tracked, each with at most \<^verbatim>\<open>MAX_TENANT_SPEND_ORIGINS\<close> slots.
\<close>

theorem spend_from_origin_bounded:
  assumes "spend_bounded (gs_tenant_spend s)"
  shows "spend_bounded (gs_tenant_spend (merge_tenant_spend_from_origin origin other s))"
  using assms by (simp add: merge_tenant_spend_from_origin_def fold_merge_one_bounded)

text \<open>
  An authoritative replacement is exact: afterwards the origin's records in the named networks
  are those of the authoritative snapshot, stamped with the transport revision and the origin as
  writer, every other record is as it was, and the networks reported are those that got a record.
\<close>

theorem replace_origin_in_networks_exact:
  assumes "providers_keyed (gs_providers s)" "providers_named (gs_providers s)"
    and "providers_keyed (gs_providers a)" "providers_named (gs_providers a)"
    and "replace_origin_providers_in_networks origin revision networks a s = (accepted, s')"
  defines "mine \<equiv> \<lambda>p. ps_site_id p = origin \<and> ps_network_id p |\<in>| networks"
  shows "fmlookup (gs_providers s') k =
      (case fmlookup (gs_providers a) k of
         Some p \<Rightarrow> if mine p then Some (stamp_provider origin revision p)
                   else fmlookup (fmretain (\<lambda>_ p. \<not> mine p) (gs_providers s)) k
       | None \<Rightarrow> fmlookup (fmretain (\<lambda>_ p. \<not> mine p) (gs_providers s)) k) \<and>
    (n |\<in>| accepted \<longleftrightarrow> (\<exists>k p. fmlookup (gs_providers a) k = Some p \<and> mine p \<and> ps_network_id p = n)) \<and>
    gs_capabilities s' = gs_capabilities s \<and> gs_tenant_spend s' = gs_tenant_spend s"
proof -
  let ?s0 = "s\<lparr>gs_providers := fmretain (\<lambda>_ p. \<not> mine p) (gs_providers s)\<rparr>"
  let ?ps = "filter mine (fmvalues (gs_providers a))"
  have *: "accepted = fold (\<lambda>p. finsert (ps_network_id p)) ?ps {||}"
    "s' = fold (\<lambda>p. upsert_provider (stamp_provider origin revision p)) ?ps ?s0"
    using assms(5) unfolding replace_in_networks_unfold mine_def by simp_all
  have "pick_provider (fmlookup (gs_providers ?s0) k) q = q" if "fmlookup (gs_providers a) k = Some p" "mine p" for p q
  proof (cases "fmlookup (gs_providers s) k")
    case (Some e)
    then show ?thesis
      using keyed_same_owner [OF assms(1-4) Some that(1)] that(2) by (simp add: mine_def)
  qed simp
  then have "fmlookup (gs_providers s') k =
      (case fmlookup (gs_providers a) k of
         Some p \<Rightarrow> if mine p then Some (stamp_provider origin revision p) else fmlookup (gs_providers ?s0) k
       | None \<Rightarrow> fmlookup (gs_providers ?s0) k)"
    unfolding * fold_upsert_stamped_lookup [OF assms(3)] by (auto split: option.split)
  moreover have "gs_capabilities s' = gs_capabilities s \<and> gs_tenant_spend s' = gs_tenant_spend s"
    unfolding * fold_map_comp [of upsert_provider "stamp_provider origin revision"] by simp
  moreover have "n |\<in>| accepted \<longleftrightarrow> (\<exists>k p. fmlookup (gs_providers a) k = Some p \<and> mine p \<and> ps_network_id p = n)"
    unfolding * by (auto simp: fold_finsert_mem)
  ultimately show ?thesis by (simp split: option.split)
qed

text \<open>
  Removing a departed origin forgets exactly what it contributed: none of its records remain
  and every other record does; its slot reads 0 in every tenant and every other slot as before, and
  a tenant stays tracked only while another origin has spent for it.
\<close>

theorem remove_origin_exact:
  "fmlookup (gs_providers (remove_origin_providers origin s)) k =
     (case fmlookup (gs_providers s) k of
        None \<Rightarrow> None | Some p \<Rightarrow> if ps_site_id p = origin then None else Some p) \<and>
   spend_slot (gs_tenant_spend (remove_origin_tenant_spend origin s)) t site =
     (if site = origin then 0 else spend_slot (gs_tenant_spend s) t site) \<and>
   (fmlookup (gs_tenant_spend (remove_origin_tenant_spend origin s)) t \<noteq> None \<longleftrightarrow>
     (\<exists>site. site \<noteq> origin \<and> spend_slot (gs_tenant_spend s) t site \<noteq> 0))"
proof -
  have total: "gcounter_total (gcounter_remove_slot c origin) > 0 \<longleftrightarrow> (\<exists>site. site \<noteq> origin \<and> slot c site \<noteq> 0)" for c
    by (auto simp: word_gt_0 gcounter_total_eq_0 slot_remove_slot)
  then have zero: "slot c site = 0" if "\<not> gcounter_total (gcounter_remove_slot c origin) > 0" "site \<noteq> origin" for c
    using that by blast
  show ?thesis
    by (cases "fmlookup (gs_tenant_spend s) t")
      (simp_all add: remove_origin_providers_def remove_origin_tenant_spend_def spend_slot_def total zero
        slot_remove_slot split: option.split)
qed

subsection \<open>Witnesses\<close>

definition ex_provider :: "string \<Rightarrow> string \<Rightarrow> u64 \<Rightarrow> provider_state" where
  "ex_provider site name revision =
     \<lparr>ps_network_id = ''n'', ps_site_id = site, ps_provider_id = name, ps_routing_cluster = ''c'',
      ps_models = [''m''], ps_tools = [], ps_backend_kind = ''k'', ps_capacity_weight = 1, ps_phase = Available,
      ps_metrics = \<lparr>pm_queue_depth = None, pm_kv_cache_utilization = None, pm_latency_p99_ms = None,
        pm_prefix_cache_hit_ratio = None, pm_error_rate = None, pm_healthy = Some True\<rparr>,
      ps_access_policy = \<lparr>match_labels = fmempty\<rparr>, ps_revision = revision, ps_writer_id = site\<rparr>"

definition ex_snapshot_a :: grid_state_snapshot where
  "ex_snapshot_a = increment_tenant_spend ''t'' 5 (snd (add_capability
     (upsert_provider (ex_provider ''a'' ''p'' 1) (snapshot_new ''a'')) (Model ''m'')))"

definition ex_snapshot_b :: grid_state_snapshot where
  "ex_snapshot_b = increment_tenant_spend ''t'' 7
     (upsert_provider (ex_provider ''b'' ''q'' 2) (upsert_provider (ex_provider ''a'' ''p'' 2) (snapshot_new ''b'')))"

lemma ex_snapshots_ok: "snapshot_ok ex_snapshot_a" "snapshot_ok ex_snapshot_b" "snapshot_ok (snapshot_new ''c'')"
  by code_simp+

lemma ex_provider_rank_inject: "provider_rank (ex_provider s n r) = provider_rank (ex_provider s n r') \<longleftrightarrow> r = r'"
  by (simp add: ex_provider_def provider_rank_def)

lemma ex_snapshot_providers:
  "gs_providers ex_snapshot_a = fmap_of_list [(''n/a/p'', ex_provider ''a'' ''p'' 1)]"
  "gs_providers ex_snapshot_b = fmap_of_list [(''n/a/p'', ex_provider ''a'' ''p'' 2), (''n/b/q'', ex_provider ''b'' ''q'' 2)]"
  by code_simp+

lemma ex_revisions_unique:
  "revisions_unique ex_snapshot_a ex_snapshot_b" "revisions_unique ex_snapshot_b ex_snapshot_a"
  "revisions_unique ex_snapshot_a ex_snapshot_a" "revisions_unique ex_snapshot_b ex_snapshot_b"
  "revisions_unique (snapshot_new ''c'') s"
  by (auto simp: revisions_unique_def ex_snapshot_providers fmlookup_of_list snapshot_new_def
    ex_provider_rank_inject split: if_splits)

theorem snapshot_convergence_witness:
  "gs_providers (fold (\<lambda>d s. snapshot_merge s d) [ex_snapshot_a, ex_snapshot_b] (snapshot_new ''c'')) =
   gs_providers (fold (\<lambda>d s. snapshot_merge s d) [ex_snapshot_b, ex_snapshot_a, ex_snapshot_b] (snapshot_new ''c''))"
  using snapshot_convergence [of "snapshot_new ''c''" "[ex_snapshot_a, ex_snapshot_b]"
      "[ex_snapshot_b, ex_snapshot_a, ex_snapshot_b]"] ex_snapshots_ok ex_revisions_unique
  by (simp del: fold.simps add: insert_commute)

end
