(* ===== verification/Identity.thy ===== *)
theory Identity
  imports Prelude
begin

section \<open>Node identities\<close>

text \<open>
  \<^verbatim>\<open>crates/swim/src/identity.rs\<close>: the identity a node has in the membership protocol, its renewal
  within a reserved range of generations, and the rule that decides between two identities at one
  address. A socket address is its text. A reading of the wall clock is the number of nanoseconds
  since the epoch, negative for a clock set before it.
\<close>

type_synonym socket_addr = string

type_synonym clock = int

definition MAX_LEASE_SKEW_SECS :: nat where
  "MAX_LEASE_SKEW_SECS = 600"

record node_id =
  nid_generation :: u64
  nid_generation_limit :: u64
  nid_site_name :: string
  nid_addr :: socket_addr

definition skew_nanos :: u64 where
  "skew_nanos = u64_from_or_max (MAX_LEASE_SKEW_SECS * 1000000000)"

definition is_future_generation :: "u64 \<Rightarrow> u64 \<Rightarrow> bool" where
  "is_future_generation generation now_nanos \<longleftrightarrow> generation > saturating_add now_nanos skew_nanos"

definition maximum_generation :: u64 where
  "maximum_generation = u64_MAX"

definition initial_generation :: "clock \<Rightarrow> u64" where
  "initial_generation now = (let nanos = (if now < 0 then 0 else nat now) in u64_from_or_max nanos)"

definition node_id_new :: "clock \<Rightarrow> string \<Rightarrow> socket_addr \<Rightarrow> node_id" where
  "node_id_new now site_name addr =
     \<lparr>nid_generation = initial_generation now, nid_generation_limit = u64_MAX,
      nid_site_name = site_name, nid_addr = addr\<rparr>"

definition with_generation :: "string \<Rightarrow> socket_addr \<Rightarrow> u64 \<Rightarrow> node_id" where
  "with_generation site_name addr generation =
     \<lparr>nid_generation = generation, nid_generation_limit = generation,
      nid_site_name = site_name, nid_addr = addr\<rparr>"

definition with_generation_range :: "string \<Rightarrow> socket_addr \<Rightarrow> u64 \<Rightarrow> u64 \<Rightarrow> node_id" where
  "with_generation_range site_name addr first_generation last_generation =
     \<lparr>nid_generation = first_generation, nid_generation_limit = max last_generation first_generation,
      nid_site_name = site_name, nid_addr = addr\<rparr>"

definition node_id_seed :: "socket_addr \<Rightarrow> node_id" where
  "node_id_seed addr =
     \<lparr>nid_generation = 0, nid_generation_limit = 0, nid_site_name = ''seed-'' @ addr, nid_addr = addr\<rparr>"

text \<open>Equality of identities leaves the process-local limit out.\<close>

definition node_id_eq :: "node_id \<Rightarrow> node_id \<Rightarrow> bool" where
  "node_id_eq self other \<longleftrightarrow> nid_generation self = nid_generation other \<and>
     nid_site_name self = nid_site_name other \<and> nid_addr self = nid_addr other"

definition renew :: "node_id \<Rightarrow> node_id option" where
  "renew self = (case checked_add (nid_generation self) 1 of
     None \<Rightarrow> None
   | Some generation \<Rightarrow>
       if generation \<le> nid_generation_limit self
       then Some \<lparr>nid_generation = generation, nid_generation_limit = nid_generation_limit self,
                  nid_site_name = nid_site_name self, nid_addr = nid_addr self\<rparr>
       else None)"

definition win_addr_conflict :: "clock \<Rightarrow> node_id \<Rightarrow> node_id \<Rightarrow> bool" where
  "win_addr_conflict clock self other =
     (let now = initial_generation clock
      in case (is_future_generation (nid_generation self) now, is_future_generation (nid_generation other) now) of
           (False, True) \<Rightarrow> True
         | (True, False) \<Rightarrow> False
         | _ \<Rightarrow> nid_generation self > nid_generation other)"

subsection \<open>Lemmas\<close>

text \<open>Renewing \<open>k\<close> times in a row, as the membership protocol does for a node declared down.\<close>

primrec renew_times :: "nat \<Rightarrow> node_id \<Rightarrow> node_id option" where
  "renew_times 0 i = Some i"
| "renew_times (Suc k) i = (case renew_times k i of None \<Rightarrow> None | Some j \<Rightarrow> renew j)"

lemma unat_skew_nanos: "unat skew_nanos = 600000000000"
  unfolding skew_nanos_def unat_u64_from_or_max by (simp add: MAX_LEASE_SKEW_SECS_def)

lemma is_future_generation_iff:
  "is_future_generation g now \<longleftrightarrow> unat g > unat now + 600000000000"
  using unat_lt_u64 [of g]
  by (auto simp: is_future_generation_def word_less_nat_alt unat_saturating_add unat_skew_nanos)

text \<open>The order conflicts are decided by: plausible before future, then the generation.\<close>

definition conflict_rank :: "clock \<Rightarrow> node_id \<Rightarrow> bool \<times> u64" where
  "conflict_rank now i = (\<not> is_future_generation (nid_generation i) (initial_generation now), nid_generation i)"

lemma win_addr_conflict_rank: "win_addr_conflict now a b \<longleftrightarrow> conflict_rank now b < conflict_rank now a"
  by (auto simp: win_addr_conflict_def conflict_rank_def Let_def split: bool.splits)

lemma renew_Some_iff:
  "renew i = Some j \<longleftrightarrow> unat (nid_generation i) < unat (nid_generation_limit i) \<and>
    j = i\<lparr>nid_generation := nid_generation i + 1\<rparr>"
proof -
  have lim: "unat (nid_generation_limit i) < 2 ^ 64"
    by (rule unat_lt_u64)
  show ?thesis
  proof (cases "checked_add (nid_generation i) 1")
    case None
    then have "renew i = None"
      by (simp add: renew_def)
    moreover have "unat (nid_generation i) + 1 \<ge> 2 ^ 64"
      using None by (simp add: checked_add_None_iff)
    ultimately show ?thesis
      using lim by simp
  next
    case (Some g)
    then have "unat g = unat (nid_generation i) + 1"
      using unat_checked_add by fastforce
    moreover have "g = nid_generation i + 1"
      using Some by (auto simp: checked_add_def split: if_splits)
    ultimately show ?thesis
      using Some by (cases i) (auto simp: renew_def word_le_nat_alt)
  qed
qed

lemma renew_None_iff: "renew i = None \<longleftrightarrow> unat (nid_generation_limit i) \<le> unat (nid_generation i)"
proof (cases "renew i")
  case None
  then show ?thesis
    using renew_Some_iff [of i "i\<lparr>nid_generation := nid_generation i + 1\<rparr>"] by simp
next
  case (Some j)
  then show ?thesis
    using renew_Some_iff [of i j] by simp
qed

subsection \<open>Properties\<close>

text \<open>
  A process stays within the generations reserved for it: renewing an identity created with the
  range \<open>f\<close> to \<open>l\<close> succeeds exactly as long as the range lasts, each time with the next generation
  and the same limit, name and address, so a replacement that reserves from \<open>l + 1\<close> on is never met.
\<close>

theorem renew_within_range:
  "renew_times k (with_generation_range site addr f l) =
    (if unat f + k \<le> unat (max l f)
     then Some ((with_generation_range site addr f l)\<lparr>nid_generation := f + of_nat k\<rparr>) else None)"
proof (induction k)
  case (Suc k)
  have "unat (max l f) < 2 ^ 64"
    by (rule unat_lt_u64)
  then have "unat (f + of_nat k) = unat f + k" if "unat f + k \<le> unat (max l f)"
    using that by (simp add: unat_word_ariths unat_of_nat take_bit_nat_eq_self)
  with Suc show ?case
    by (auto simp: renew_Some_iff renew_None_iff with_generation_range_def algebra_simps split: option.splits)
qed (simp add: with_generation_range_def max_def word_le_nat_alt)

text \<open>
  C29. Address conflicts are decided by a strict order, so two nodes never both win and the winner
  among several does not depend on the order of arrival; between identities with different
  generations one wins; an identity more than ten minutes ahead of the clock never wins against one
  that is not.
\<close>

theorem win_addr_conflict_order:
  "\<not> (win_addr_conflict now a b \<and> win_addr_conflict now b a) \<and>
   (win_addr_conflict now a b \<longrightarrow> win_addr_conflict now b c \<longrightarrow> win_addr_conflict now a c) \<and>
   (nid_generation a \<noteq> nid_generation b \<longrightarrow> win_addr_conflict now a b \<or> win_addr_conflict now b a) \<and>
   (unat (nid_generation a) > unat (initial_generation now) + 600000000000 \<and>
    unat (nid_generation b) \<le> unat (initial_generation now) + 600000000000 \<longrightarrow>
      win_addr_conflict now b a \<and> \<not> win_addr_conflict now a b)"
proof -
  have "conflict_rank now a \<noteq> conflict_rank now b" if "nid_generation a \<noteq> nid_generation b"
    using that by (simp add: conflict_rank_def)
  moreover have "conflict_rank now a < conflict_rank now b"
    if "unat (nid_generation a) > unat (initial_generation now) + 600000000000"
      "unat (nid_generation b) \<le> unat (initial_generation now) + 600000000000"
    using that by (simp add: conflict_rank_def is_future_generation_iff)
  ultimately show ?thesis
    unfolding win_addr_conflict_rank by (meson less_asym less_trans neq_iff)
qed

theorem win_addr_conflict_order_witness:
  "win_addr_conflict 0 (with_generation ''a'' ''x'' 7) (with_generation ''b'' ''x'' 700000000000) \<and>
   win_addr_conflict 0 (with_generation ''a'' ''x'' 7) (node_id_seed ''x'')"
proof -
  have "unat (initial_generation 0) = 0"
    by (simp add: initial_generation_def unat_u64_from_or_max)
  then have "win_addr_conflict 0 (with_generation ''a'' ''x'' 7) (with_generation ''b'' ''x'' 700000000000)"
    using win_addr_conflict_order [of 0 "with_generation ''b'' ''x'' 700000000000" "with_generation ''a'' ''x'' 7"]
    by (simp add: with_generation_def)
  moreover have "win_addr_conflict 0 (with_generation ''a'' ''x'' 7) (node_id_seed ''x'')"
    by code_simp
  ultimately show ?thesis by simp
qed

end
