(* ===== verification/ModelInventory.thy ===== *)
theory ModelInventory
  imports Identity
begin

section \<open>Model inventories\<close>

text \<open>
  \<^verbatim>\<open>crates/swim/src/model_inventory.rs\<close>: a provider's model list is split into signed one-name
  frames, and the receiver assembles the frames of each revision within fixed bounds. The digest
  provider is the parameter \<open>hash\<close>, which returns an error text or the raw digest bytes.
\<close>

subsection \<open>Limits\<close>

definition MAX_BROADCAST_AGE_MS :: u64 where
  "MAX_BROADCAST_AGE_MS = 5 * 60 * 1000"

definition MAX_CLOCK_SKEW_AHEAD_MS :: u64 where
  "MAX_CLOCK_SKEW_AHEAD_MS = 30000"

definition MODEL_INVENTORY_FRAME_VERSION :: u16 where
  "MODEL_INVENTORY_FRAME_VERSION = 1"

definition MAX_INVENTORY_MODELS :: nat where
  "MAX_INVENTORY_MODELS = 256"

definition MAX_MODEL_NAME_BYTES :: nat where
  "MAX_MODEL_NAME_BYTES = 256"

definition MAX_INVENTORY_FRAMES :: nat where
  "MAX_INVENTORY_FRAMES = 256"

definition MAX_ORIGIN_INVENTORY_NAME_BYTES :: nat where
  "MAX_ORIGIN_INVENTORY_NAME_BYTES = 128 * 1024"

definition MAX_IN_PROGRESS_FRAMES_PER_ORIGIN :: nat where
  "MAX_IN_PROGRESS_FRAMES_PER_ORIGIN = 256"

definition MAX_ORIGIN_PROVIDER_INVENTORIES :: nat where
  "MAX_ORIGIN_PROVIDER_INVENTORIES = 256"

definition MAX_ORIGIN_MODEL_PAIRS :: nat where
  "MAX_ORIGIN_MODEL_PAIRS = 256"

definition MAX_INVENTORY_ID_BYTES :: nat where
  "MAX_INVENTORY_ID_BYTES = 253"

definition MAX_PROVIDER_UID_BYTES :: nat where
  "MAX_PROVIDER_UID_BYTES = 128"

subsection \<open>Data\<close>

record model_inventory_frame =
  mf_version :: u16
  mf_network_id :: string
  mf_provider_id :: string
  mf_provider_uid :: string
  mf_inventory_revision :: u64
  mf_expires_at_ms :: u64
  mf_frame_index :: u16
  mf_frame_count :: u16
  mf_inventory_digest :: bytes
  mf_models :: "string list"
  mf_signed_at_ms :: "u64 option"
  mf_signature :: "bytes option"

record model_inventory_broadcast =
  mb_version :: u16
  mb_origin_site :: string
  mb_grid_id :: string
  mb_frame :: model_inventory_frame

record model_inventory =
  mi_origin_site :: string
  mi_grid_id :: string
  mi_network_id :: string
  mi_provider_id :: string
  mi_provider_uid :: string
  mi_revision :: u64
  mi_expires_at_ms :: u64
  mi_models :: "string list"

datatype inventory_frame_error =
    UnsupportedVersion u16
  | TooManyModels nat
  | BlankModelName
  | ModelNameTooLong nat
  | DuplicateModelName
  | TooManyNameBytes nat
  | DigestComputation string
  | InvalidDigestLength
  | InvalidFramePosition
  | TooManyFrames
  | InProgressCapacity
  | InventoryCapacity
  | InvalidIdentity
  | TooManyModelsInFrame
  | ConflictingDuplicate
  | InconsistentFrames
  | DigestMismatch
  | Expired
  | StaleRevision

datatype inventory_scope = InventoryScope
  (is_origin_site: string) (is_grid_id: string) (is_network_id: string)
  (is_provider_id: string) (is_provider_uid: string)

datatype inventory_key = InventoryKey (ik_scope: inventory_scope) (ik_revision: u64)

text \<open>The derived orders: fields compared in order of declaration.\<close>

definition inventory_scope_fields :: "inventory_scope \<Rightarrow> string \<times> string \<times> string \<times> string \<times> string" where
  "inventory_scope_fields s =
     (is_origin_site s, is_grid_id s, is_network_id s, is_provider_id s, is_provider_uid s)"

lemma inventory_scope_fields_inject: "inventory_scope_fields a = inventory_scope_fields b \<longleftrightarrow> a = b"
  by (cases a; cases b) (simp add: inventory_scope_fields_def)

instantiation inventory_scope :: linorder
begin

definition less_eq_inventory_scope :: "inventory_scope \<Rightarrow> inventory_scope \<Rightarrow> bool" where
  "less_eq_inventory_scope a b \<longleftrightarrow> inventory_scope_fields a \<le> inventory_scope_fields b"

definition less_inventory_scope :: "inventory_scope \<Rightarrow> inventory_scope \<Rightarrow> bool" where
  "less_inventory_scope a b \<longleftrightarrow> inventory_scope_fields a < inventory_scope_fields b"

instance
  by standard
    (auto simp: less_eq_inventory_scope_def less_inventory_scope_def inventory_scope_fields_inject [symmetric] less_le)

end

definition inventory_key_fields :: "inventory_key \<Rightarrow> inventory_scope \<times> u64" where
  "inventory_key_fields k = (ik_scope k, ik_revision k)"

lemma inventory_key_fields_inject: "inventory_key_fields a = inventory_key_fields b \<longleftrightarrow> a = b"
  by (cases a; cases b) (simp add: inventory_key_fields_def)

instantiation inventory_key :: linorder
begin

definition less_eq_inventory_key :: "inventory_key \<Rightarrow> inventory_key \<Rightarrow> bool" where
  "less_eq_inventory_key a b \<longleftrightarrow> inventory_key_fields a \<le> inventory_key_fields b"

definition less_inventory_key :: "inventory_key \<Rightarrow> inventory_key \<Rightarrow> bool" where
  "less_inventory_key a b \<longleftrightarrow> inventory_key_fields a < inventory_key_fields b"

instance
  by standard
    (auto simp: less_eq_inventory_key_def less_inventory_key_def inventory_key_fields_inject [symmetric] less_le)

end

record pending_inventory =
  pi_expires_at_ms :: u64
  pi_frame_count :: u16
  pi_digest :: bytes
  pi_frames :: "(u16, string list) fmap"
  pi_started_at_ms :: u64

record revision_floor =
  rf_revision :: u64
  rf_retain_until_ms :: u64

datatype inventory_assembly_result = Incomplete | Duplicate | Complete model_inventory

record model_inventory_assembler =
  as_pending :: "(inventory_key, pending_inventory) fmap"
  as_complete :: "(inventory_scope, model_inventory) fmap"
  as_revision_floor :: "(inventory_scope, revision_floor) fmap"
  as_blocked_origins :: "(string, u64) fmap"

definition assembler_empty :: model_inventory_assembler where
  "assembler_empty = \<lparr>as_pending = fmempty, as_complete = fmempty, as_revision_floor = fmempty,
     as_blocked_origins = fmempty\<rparr>"

subsection \<open>Frames and their signatures\<close>

definition frame_with_signed_at :: "u64 \<Rightarrow> model_inventory_frame \<Rightarrow> model_inventory_frame" where
  "frame_with_signed_at signed_at_ms self = self\<lparr>mf_signed_at_ms := Some signed_at_ms\<rparr>"

definition frame_with_signature :: "bytes \<Rightarrow> model_inventory_frame \<Rightarrow> model_inventory_frame" where
  "frame_with_signature signature self = self\<lparr>mf_signature := Some signature\<rparr>"

definition INVENTORY_SIGNATURE_DOMAIN :: bytes where
  "INVENTORY_SIGNATURE_DOMAIN = string_bytes ''praxis-grid/swim/model-inventory-frame/v1''"

definition MODEL_INVENTORY_BROADCAST_MAGIC :: bytes where
  "MODEL_INVENTORY_BROADCAST_MAGIC = string_bytes ''AGNMIF01''"

text \<open>\<open>encode_scoped\<close> is the serialisation of the tuple \<^verbatim>\<open>(origin_site, grid_id, unsigned)\<close>.\<close>

definition frame_signable_bytes ::
  "(string \<times> string \<times> model_inventory_frame \<Rightarrow> string + bytes) \<Rightarrow>
   string \<Rightarrow> string \<Rightarrow> model_inventory_frame \<Rightarrow> string + bytes" where
  "frame_signable_bytes encode_scoped origin_site grid_id self =
     (let unsigned = self\<lparr>mf_signature := None\<rparr>
      in try_bind (encode_scoped (origin_site, grid_id, unsigned)) (\<lambda>encoded.
         Inr (INVENTORY_SIGNATURE_DOMAIN @ encoded)))"

datatype frame_signing_error = EncodeFailed string | SigningFailed string

text \<open>\<open>sign_key pkcs8_der payload\<close> is the signing primitive.\<close>

definition frame_sign ::
  "(string \<times> string \<times> model_inventory_frame \<Rightarrow> string + bytes) \<Rightarrow> (bytes \<Rightarrow> bytes \<Rightarrow> string + bytes) \<Rightarrow>
   string \<Rightarrow> string \<Rightarrow> bytes \<Rightarrow> u64 \<Rightarrow> model_inventory_frame \<Rightarrow> frame_signing_error + model_inventory_frame" where
  "frame_sign encode_scoped sign_key origin_site grid_id pkcs8_der signed_at_ms self =
     (let self = self\<lparr>mf_signed_at_ms := Some signed_at_ms\<rparr>
      in case frame_signable_bytes encode_scoped origin_site grid_id self of
           Inl e \<Rightarrow> Inl (EncodeFailed e)
         | Inr bytes \<Rightarrow>
             (case sign_key pkcs8_der bytes of
                Inl e \<Rightarrow> Inl (SigningFailed e)
              | Inr signature \<Rightarrow> Inr (self\<lparr>mf_signature := Some signature\<rparr>)))"

definition wall_ms :: "clock \<Rightarrow> u64" where
  "wall_ms now = (if now < 0 then 0 else u64_from_or_max (nat now div 1000000))"

text \<open>\<open>verify key payload signature\<close> is the verification primitive.\<close>

definition frame_verifies ::
  "(string \<times> string \<times> model_inventory_frame \<Rightarrow> string + bytes) \<Rightarrow> (bytes \<Rightarrow> bytes \<Rightarrow> bytes \<Rightarrow> bool) \<Rightarrow>
   clock \<Rightarrow> string \<Rightarrow> string \<Rightarrow> bytes list \<Rightarrow> model_inventory_frame \<Rightarrow> bool" where
  "frame_verifies encode_scoped verify now origin_site grid_id keys self =
     (case (mf_signature self, mf_signed_at_ms self) of
        (Some signature, Some signed_at_ms) \<Rightarrow>
          let now_ms = wall_ms now
          in if saturating_sub now_ms signed_at_ms > MAX_BROADCAST_AGE_MS \<or>
                saturating_sub signed_at_ms now_ms > MAX_CLOCK_SKEW_AHEAD_MS
             then False
             else (case frame_signable_bytes encode_scoped origin_site grid_id self of
                     Inl _ \<Rightarrow> False
                   | Inr bytes \<Rightarrow> list_ex (\<lambda>key. verify key bytes signature) keys)
      | _ \<Rightarrow> False)"

subsection \<open>Broadcast envelope\<close>

definition inventory_broadcast_new :: "string \<Rightarrow> string \<Rightarrow> model_inventory_frame \<Rightarrow> model_inventory_broadcast" where
  "inventory_broadcast_new origin_site grid_id frame =
     \<lparr>mb_version = MODEL_INVENTORY_FRAME_VERSION, mb_origin_site = origin_site, mb_grid_id = grid_id,
      mb_frame = frame\<rparr>"

definition recognizes :: "bytes \<Rightarrow> bool" where
  "recognizes bytes \<longleftrightarrow>
     take (length MODEL_INVENTORY_BROADCAST_MAGIC) bytes = MODEL_INVENTORY_BROADCAST_MAGIC"

text \<open>
  \<open>encode\<close> and \<open>decode\<close> are the serialisation of the envelope; \<open>decode\<close> also returns the number of
  bytes it used, and refuses payloads over its limit of 1,400 bytes.
\<close>

definition inventory_broadcast_encode ::
  "(model_inventory_broadcast \<Rightarrow> string + bytes) \<Rightarrow> model_inventory_broadcast \<Rightarrow> string + bytes" where
  "inventory_broadcast_encode encode self =
     try_bind (encode self) (\<lambda>encoded. Inr (MODEL_INVENTORY_BROADCAST_MAGIC @ encoded))"

definition inventory_broadcast_decode ::
  "(bytes \<Rightarrow> string + model_inventory_broadcast \<times> nat) \<Rightarrow> bytes \<Rightarrow> string + model_inventory_broadcast" where
  "inventory_broadcast_decode decode bytes =
     (if \<not> recognizes bytes then Inl ''invalid model inventory discriminator''
      else
        let payload = drop (length MODEL_INVENTORY_BROADCAST_MAGIC) bytes
        in try_bind (decode payload) (\<lambda>(broadcast, consumed).
             if consumed \<noteq> length payload \<or> mb_version broadcast \<noteq> MODEL_INVENTORY_FRAME_VERSION
             then Inl ''invalid model inventory broadcast''
             else Inr broadcast))"

subsection \<open>Validation\<close>

definition valid_identifier :: "string \<Rightarrow> bool" where
  "valid_identifier value \<longleftrightarrow>
     value \<noteq> [] \<and> length value \<le> MAX_INVENTORY_ID_BYTES \<and> \<not> is_blank value"

definition scope_from_inventory :: "model_inventory \<Rightarrow> inventory_scope" where
  "scope_from_inventory inventory =
     InventoryScope (mi_origin_site inventory) (mi_grid_id inventory) (mi_network_id inventory)
       (mi_provider_id inventory) (mi_provider_uid inventory)"

definition scope_validate :: "inventory_scope \<Rightarrow> inventory_frame_error + unit" where
  "scope_validate self =
     (if list_all valid_identifier
           [is_origin_site self, is_grid_id self, is_network_id self, is_provider_id self] \<and>
         \<not> is_blank (is_provider_uid self) \<and> length (is_provider_uid self) \<le> MAX_PROVIDER_UID_BYTES
      then Inr () else Inl InvalidIdentity)"

primrec check_model_names :: "string list \<Rightarrow> nat \<Rightarrow> inventory_frame_error + nat" where
  "check_model_names [] name_bytes = Inr name_bytes"
| "check_model_names (model # models) name_bytes =
     (if is_blank model then Inl BlankModelName
      else if length model > MAX_MODEL_NAME_BYTES then Inl (ModelNameTooLong (length model))
      else check_model_names models (name_bytes + length model))"

definition validate_frame :: "model_inventory_frame \<Rightarrow> u64 \<Rightarrow> inventory_frame_error + unit" where
  "validate_frame frame now_ms =
     (if mf_version frame \<noteq> MODEL_INVENTORY_FRAME_VERSION then Inl (UnsupportedVersion (mf_version frame))
      else if mf_frame_count frame = 0 \<or> nat (uint (mf_frame_count frame)) > MAX_INVENTORY_FRAMES \<or>
              mf_frame_index frame \<ge> mf_frame_count frame \<or> (mf_models frame = [] \<and> mf_frame_count frame \<noteq> 1)
      then Inl InvalidFramePosition
      else if length (mf_models frame) > 1 then Inl TooManyModelsInFrame
      else if mf_expires_at_ms frame \<le> now_ms then Inl Expired
      else try_bind (check_model_names (mf_models frame) 0) (\<lambda>_. Inr ()))"

text \<open>The loop over \<^verbatim>\<open>models.windows(2)\<close>.\<close>

fun ascending_windows :: "string list \<Rightarrow> bool" where
  "ascending_windows (a # b # models) \<longleftrightarrow> \<not> a \<ge> b \<and> ascending_windows (b # models)"
| "ascending_windows _ \<longleftrightarrow> True"

text \<open>Big-endian bytes of a 32-bit length, saturated.\<close>

definition length_prefix :: "string \<Rightarrow> bytes" where
  "length_prefix model =
     (let n = min (length model) (2 ^ 32 - 1)
      in [word_of_int (int (n div 2 ^ 24)), word_of_int (int (n div 2 ^ 16)),
          word_of_int (int (n div 2 ^ 8)), word_of_int (int n)])"

definition digest_models ::
  "(bytes \<Rightarrow> string + bytes) \<Rightarrow> string list \<Rightarrow> inventory_frame_error + bytes" where
  "digest_models hash models =
     (let bytes = fold (\<lambda>model acc. acc @ length_prefix model @ string_bytes model) models []
      in case hash bytes of
           Inl error \<Rightarrow> Inl (DigestComputation error)
         | Inr digest \<Rightarrow> if length digest = 32 then Inr digest else Inl InvalidDigestLength)"

definition validate_complete ::
  "(bytes \<Rightarrow> string + bytes) \<Rightarrow> model_inventory \<Rightarrow> bytes \<Rightarrow> inventory_frame_error + unit" where
  "validate_complete hash inventory expected_digest =
     (if length (mi_models inventory) > MAX_INVENTORY_MODELS
      then Inl (TooManyModels (length (mi_models inventory)))
      else if \<not> ascending_windows (mi_models inventory) then Inl DuplicateModelName
      else try_bind (check_model_names (mi_models inventory) 0) (\<lambda>name_bytes.
        if name_bytes > MAX_ORIGIN_INVENTORY_NAME_BYTES then Inl (TooManyNameBytes name_bytes)
        else try_bind (digest_models hash (mi_models inventory)) (\<lambda>digest.
          if digest \<noteq> expected_digest then Inl DigestMismatch else Inr ())))"

subsection \<open>Splitting an inventory into frames\<close>

definition u16_try_from :: "nat \<Rightarrow> inventory_frame_error + u16" where
  "u16_try_from n = (if n < 65536 then Inr (word_of_int (int n)) else Inl TooManyFrames)"

definition frames :: "(bytes \<Rightarrow> string + bytes) \<Rightarrow> model_inventory \<Rightarrow> inventory_frame_error + model_inventory_frame list" where
  "frames hash self =
     (let sorted = sort (mi_models self)
      in try_bind (digest_models hash sorted) (\<lambda>digest.
         let canonical = self\<lparr>mi_models := sorted\<rparr>
         in try_bind (validate_complete hash canonical digest) (\<lambda>_.
            let scope = scope_from_inventory self
            in try_bind (scope_validate scope) (\<lambda>_.
               try_bind (u16_try_from (max (length sorted) 1)) (\<lambda>frame_count.
               let names = (if sorted = [] then [[]] else map (\<lambda>name. [name]) sorted)
               in collect_results (map (\<lambda>(index, models).
                    try_bind (u16_try_from index) (\<lambda>frame_index.
                    Inr \<lparr>mf_version = MODEL_INVENTORY_FRAME_VERSION,
                         mf_network_id = mi_network_id self,
                         mf_provider_id = mi_provider_id self,
                         mf_provider_uid = mi_provider_uid self,
                         mf_inventory_revision = mi_revision self,
                         mf_expires_at_ms = mi_expires_at_ms self,
                         mf_frame_index = frame_index,
                         mf_frame_count = frame_count,
                         mf_inventory_digest = digest,
                         mf_models = models,
                         mf_signed_at_ms = None,
                         mf_signature = None\<rparr>)) (enumerate 0 names)))))))"

subsection \<open>Assembling frames\<close>

definition pending_insert ::
  "pending_inventory \<Rightarrow> model_inventory_frame \<Rightarrow> inventory_frame_error + pending_inventory" where
  "pending_insert self frame =
     (if pi_expires_at_ms self \<noteq> mf_expires_at_ms frame \<or> pi_frame_count self \<noteq> mf_frame_count frame \<or>
         pi_digest self \<noteq> mf_inventory_digest frame
      then Inl InconsistentFrames
      else case fmlookup (pi_frames self) (mf_frame_index frame) of
             Some held \<Rightarrow> if held \<noteq> mf_models frame then Inl ConflictingDuplicate else Inr self
           | None \<Rightarrow> Inr (self\<lparr>pi_frames := fmupd (mf_frame_index frame) (mf_models frame) (pi_frames self)\<rparr>))"

definition inventories :: "u64 \<Rightarrow> model_inventory_assembler \<Rightarrow> model_inventory list" where
  "inventories now_ms self =
     filter (\<lambda>inventory. mi_expires_at_ms inventory > now_ms) (fmvalues (as_complete self))"

definition withdraw_provider :: "inventory_scope \<Rightarrow> model_inventory_assembler \<Rightarrow> model_inventory_assembler" where
  "withdraw_provider scope self =
     self\<lparr>as_pending := fmretain (\<lambda>key _. ik_scope key \<noteq> scope) (as_pending self),
          as_complete := fmdrop scope (as_complete self)\<rparr>"

definition assembler_remove_origin :: "string \<Rightarrow> model_inventory_assembler \<Rightarrow> model_inventory_assembler" where
  "assembler_remove_origin origin self =
     self\<lparr>as_pending := fmretain (\<lambda>key _. is_origin_site (ik_scope key) \<noteq> origin) (as_pending self),
          as_complete := fmretain (\<lambda>scope _. is_origin_site scope \<noteq> origin) (as_complete self),
          as_revision_floor := fmretain (\<lambda>scope _. is_origin_site scope \<noteq> origin) (as_revision_floor self),
          as_blocked_origins := fmdrop origin (as_blocked_origins self)\<rparr>"

definition keep_scope :: "string \<Rightarrow> string option \<Rightarrow> inventory_scope \<Rightarrow> bool" where
  "keep_scope grid_id origin scope \<longleftrightarrow>
     is_grid_id scope \<noteq> grid_id \<or> (case origin of None \<Rightarrow> False | Some origin \<Rightarrow> is_origin_site scope \<noteq> origin)"

definition assembler_remove_grid ::
  "string \<Rightarrow> string option \<Rightarrow> model_inventory_assembler \<Rightarrow> model_inventory_assembler" where
  "assembler_remove_grid grid_id origin self =
     self\<lparr>as_pending := fmretain (\<lambda>key _. keep_scope grid_id origin (ik_scope key)) (as_pending self),
          as_complete := fmretain (\<lambda>scope _. keep_scope grid_id origin scope) (as_complete self),
          as_revision_floor := fmretain (\<lambda>scope _. keep_scope grid_id origin scope) (as_revision_floor self)\<rparr>"

definition replay_deadline :: "u64 \<Rightarrow> u64" where
  "replay_deadline now_ms = saturating_add (saturating_add now_ms MAX_BROADCAST_AGE_MS) MAX_CLOCK_SKEW_AHEAD_MS"

definition block_origin :: "string \<Rightarrow> u64 \<Rightarrow> model_inventory_assembler \<Rightarrow> model_inventory_assembler" where
  "block_origin origin now_ms self =
     (let self = assembler_remove_origin origin self
      in self\<lparr>as_blocked_origins := fmupd origin (replay_deadline now_ms) (as_blocked_origins self)\<rparr>)"

definition pending_frames_for_origin :: "model_inventory_assembler \<Rightarrow> string \<Rightarrow> nat" where
  "pending_frames_for_origin self origin =
     sum_list (map (\<lambda>(_, pending). fmcount (pi_frames pending))
       (filter (\<lambda>(key, _). is_origin_site (ik_scope key) = origin) (fmentries (as_pending self))))"

definition name_bytes_of :: "string list \<Rightarrow> nat" where
  "name_bytes_of models = sum_list (map length models)"

definition can_retain_inventory ::
  "model_inventory_assembler \<Rightarrow> inventory_scope \<Rightarrow> model_inventory \<Rightarrow> bool" where
  "can_retain_inventory self scope incoming =
     (let others = filter (\<lambda>(held, _). is_origin_site held = is_origin_site scope \<and> held \<noteq> scope)
            (fmentries (as_complete self));
          held_names = sum_list (map (\<lambda>(_, inventory). length (mi_models inventory)) others);
          held_bytes = sum_list (map length (concat (map (\<lambda>(_, inventory). mi_models inventory) others)));
          held_scopes = length (filter (\<lambda>held. is_origin_site held = is_origin_site scope \<and> held \<noteq> scope)
            (fmkeys (as_revision_floor self)));
          pending_bytes = sum_list (map length (concat (map (\<lambda>(_, pending). concat (fmvalues (pi_frames pending)))
            (filter (\<lambda>(key, _). is_origin_site (ik_scope key) = is_origin_site scope) (fmentries (as_pending self))))))
      in held_scopes < MAX_ORIGIN_PROVIDER_INVENTORIES \<and>
         held_names + length (mi_models incoming) \<le> MAX_ORIGIN_MODEL_PAIRS \<and>
         held_bytes + name_bytes_of (mi_models incoming) + pending_bytes \<le> MAX_ORIGIN_INVENTORY_NAME_BYTES)"

definition prune :: "u64 \<Rightarrow> model_inventory_assembler \<Rightarrow> model_inventory_assembler" where
  "prune now_ms self =
     (let self = self\<lparr>as_pending := fmretain (\<lambda>_ pending. pi_expires_at_ms pending > now_ms \<and>
            saturating_sub now_ms (pi_started_at_ms pending) \<le> MAX_BROADCAST_AGE_MS) (as_pending self)\<rparr>;
          self = self\<lparr>as_complete := fmretain (\<lambda>_ inventory. mi_expires_at_ms inventory > now_ms)
            (as_complete self)\<rparr>;
          self = self\<lparr>as_revision_floor := fmretain (\<lambda>scope held. rf_retain_until_ms held \<ge> now_ms \<or>
            fmlookup (as_complete self) scope \<noteq> None) (as_revision_floor self)\<rparr>
      in self\<lparr>as_blocked_origins := fmretain (\<lambda>_ until_ms. until_ms \<ge> now_ms) (as_blocked_origins self)\<rparr>)"

definition assembled_inventory :: "inventory_scope \<Rightarrow> inventory_key \<Rightarrow> pending_inventory \<Rightarrow> model_inventory" where
  "assembled_inventory scope key pending =
     \<lparr>mi_origin_site = is_origin_site scope, mi_grid_id = is_grid_id scope,
      mi_network_id = is_network_id scope, mi_provider_id = is_provider_id scope,
      mi_provider_uid = is_provider_uid scope, mi_revision = ik_revision key,
      mi_expires_at_ms = pi_expires_at_ms pending, mi_models = concat (fmvalues (pi_frames pending))\<rparr>"

text \<open>The part of \<^verbatim>\<open>push\<close> that runs once every frame of the revision is held.\<close>

definition complete_assembly ::
  "(bytes \<Rightarrow> string + bytes) \<Rightarrow> inventory_scope \<Rightarrow> inventory_key \<Rightarrow> pending_inventory \<Rightarrow> u64 \<Rightarrow>
   model_inventory_assembler \<Rightarrow> (inventory_frame_error + inventory_assembly_result) \<times> model_inventory_assembler" where
  "complete_assembly hash scope key pending now_ms self =
     (let inventory = assembled_inventory scope key pending;
          expected_digest = pi_digest pending;
          self = self\<lparr>as_pending := fmdrop key (as_pending self)\<rparr>
      in case validate_complete hash inventory expected_digest of
           Inl error \<Rightarrow> (Inl error, self)
         | Inr _ \<Rightarrow>
             if \<not> can_retain_inventory self scope inventory
             then (Inl InventoryCapacity, block_origin (is_origin_site scope) now_ms self)
             else
               let self = self\<lparr>as_pending := fmretain (\<lambda>held _. ik_scope held \<noteq> scope \<or> ik_revision held > ik_revision key)
                     (as_pending self)\<rparr>;
                   self = self\<lparr>as_revision_floor := fmupd scope
                     \<lparr>rf_revision = mi_revision inventory, rf_retain_until_ms = replay_deadline now_ms\<rparr>
                     (as_revision_floor self)\<rparr>;
                   self = self\<lparr>as_complete := fmupd scope inventory (as_complete self)\<rparr>
               in (Inr (Complete inventory), self))"

definition scope_of_broadcast :: "model_inventory_broadcast \<Rightarrow> inventory_scope" where
  "scope_of_broadcast b =
     InventoryScope (mb_origin_site b) (mb_grid_id b) (mf_network_id (mb_frame b))
       (mf_provider_id (mb_frame b)) (mf_provider_uid (mb_frame b))"

definition push ::
  "(bytes \<Rightarrow> string + bytes) \<Rightarrow> model_inventory_broadcast \<Rightarrow> u64 \<Rightarrow> model_inventory_assembler \<Rightarrow>
   (inventory_frame_error + inventory_assembly_result) \<times> model_inventory_assembler" where
  "push hash broadcast now_ms self =
     (let self = prune now_ms self;
          frame = mb_frame broadcast
      in case validate_frame frame now_ms of
           Inl error \<Rightarrow> (Inl error, self)
         | Inr _ \<Rightarrow>
      if fmlookup (as_blocked_origins self) (mb_origin_site broadcast) \<noteq> None
      then (Inl InventoryCapacity, self)
      else
      let scope = scope_of_broadcast broadcast
      in case scope_validate scope of
           Inl error \<Rightarrow> (Inl error, self)
         | Inr _ \<Rightarrow>
      if (case fmlookup (as_revision_floor self) scope of
            None \<Rightarrow> False | Some held \<Rightarrow> rf_revision held \<ge> mf_inventory_revision frame)
      then (Inl StaleRevision, self)
      else
      let self = self\<lparr>as_pending := fmretain
            (\<lambda>held _. ik_scope held \<noteq> scope \<or> ik_revision held \<ge> mf_inventory_revision frame) (as_pending self)\<rparr>;
          key = InventoryKey scope (mf_inventory_revision frame);
          duplicate = (case fmlookup (as_pending self) key of
            None \<Rightarrow> False | Some pending \<Rightarrow> fmlookup (pi_frames pending) (mf_frame_index frame) \<noteq> None)
      in if \<not> duplicate \<and> pending_frames_for_origin self (is_origin_site scope) \<ge> MAX_IN_PROGRESS_FRAMES_PER_ORIGIN
      then (Inl InProgressCapacity, block_origin (is_origin_site scope) now_ms self)
      else
      let pending = (case fmlookup (as_pending self) key of
            Some pending \<Rightarrow> pending
          | None \<Rightarrow> \<lparr>pi_expires_at_ms = mf_expires_at_ms frame, pi_frame_count = mf_frame_count frame,
                     pi_digest = mf_inventory_digest frame, pi_frames = fmempty, pi_started_at_ms = now_ms\<rparr>)
      in case pending_insert pending frame of
           Inl error \<Rightarrow> (Inl error, self\<lparr>as_pending := fmdrop key (as_pending self)\<rparr>)
         | Inr pending \<Rightarrow>
      let self = self\<lparr>as_pending := fmupd key pending (as_pending self)\<rparr>
      in if fmcount (pi_frames pending) \<noteq> nat (uint (pi_frame_count pending))
      then (Inr (if duplicate then Duplicate else Incomplete), self)
      else complete_assembly hash scope key pending now_ms self)"

end
