(* ===== verification/InventoryAssembly.thy ===== *)
theory InventoryAssembly
  imports ModelInventory
begin

section \<open>Model inventories: what assembly guarantees\<close>

text \<open>
  The invariant of the assembler with its per-origin bounds, what a completed inventory is known to
  be, protection against replayed revisions, and that the frames an origin cuts an inventory into
  reassemble to it in any order.
\<close>

subsection \<open>The steps of a push\<close>

definition superseded :: "inventory_scope \<Rightarrow> u64 \<Rightarrow> model_inventory_assembler \<Rightarrow> model_inventory_assembler" where
  "superseded scope revision a =
     a\<lparr>as_pending := fmretain (\<lambda>held _. ik_scope held \<noteq> scope \<or> ik_revision held \<ge> revision) (as_pending a)\<rparr>"

definition pending_or_new ::
  "inventory_key \<Rightarrow> model_inventory_frame \<Rightarrow> u64 \<Rightarrow> model_inventory_assembler \<Rightarrow> pending_inventory" where
  "pending_or_new key frame now_ms a = (case fmlookup (as_pending a) key of
     Some pending \<Rightarrow> pending
   | None \<Rightarrow> \<lparr>pi_expires_at_ms = mf_expires_at_ms frame, pi_frame_count = mf_frame_count frame,
              pi_digest = mf_inventory_digest frame, pi_frames = fmempty, pi_started_at_ms = now_ms\<rparr>)"

definition is_stale :: "inventory_scope \<Rightarrow> u64 \<Rightarrow> model_inventory_assembler \<Rightarrow> bool" where
  "is_stale scope revision a \<longleftrightarrow> (case fmlookup (as_revision_floor a) scope of
     None \<Rightarrow> False | Some held \<Rightarrow> rf_revision held \<ge> revision)"

definition is_duplicate :: "inventory_key \<Rightarrow> model_inventory_frame \<Rightarrow> model_inventory_assembler \<Rightarrow> bool" where
  "is_duplicate key frame a \<longleftrightarrow> (case fmlookup (as_pending a) key of
     None \<Rightarrow> False | Some pending \<Rightarrow> fmlookup (pi_frames pending) (mf_frame_index frame) \<noteq> None)"

text \<open>The checks a frame passes before anything is stored.\<close>

definition frame_admitted :: "model_inventory_broadcast \<Rightarrow> u64 \<Rightarrow> model_inventory_assembler \<Rightarrow> bool" where
  "frame_admitted b now_ms a \<longleftrightarrow> validate_frame (mb_frame b) now_ms = Inr () \<and>
     fmlookup (as_blocked_origins a) (mb_origin_site b) = None \<and>
     scope_validate (scope_of_broadcast b) = Inr () \<and>
     \<not> is_stale (scope_of_broadcast b) (mf_inventory_revision (mb_frame b)) a"

definition key_of_broadcast :: "model_inventory_broadcast \<Rightarrow> inventory_key" where
  "key_of_broadcast b = InventoryKey (scope_of_broadcast b) (mf_inventory_revision (mb_frame b))"

definition store_frame ::
  "(bytes \<Rightarrow> string + bytes) \<Rightarrow> model_inventory_broadcast \<Rightarrow> u64 \<Rightarrow> model_inventory_assembler \<Rightarrow>
   (inventory_frame_error + inventory_assembly_result) \<times> model_inventory_assembler" where
  "store_frame hash b now_ms a =
     (let key = key_of_broadcast b; frame = mb_frame b
      in if \<not> is_duplicate key frame a \<and>
            pending_frames_for_origin a (mb_origin_site b) \<ge> MAX_IN_PROGRESS_FRAMES_PER_ORIGIN
         then (Inl InProgressCapacity, block_origin (mb_origin_site b) now_ms a)
         else case pending_insert (pending_or_new key frame now_ms a) frame of
                Inl error \<Rightarrow> (Inl error, a\<lparr>as_pending := fmdrop key (as_pending a)\<rparr>)
              | Inr pending \<Rightarrow>
                  if fmcount (pi_frames pending) \<noteq> nat (uint (pi_frame_count pending))
                  then (Inr (if is_duplicate key frame a then Duplicate else Incomplete),
                        a\<lparr>as_pending := fmupd key pending (as_pending a)\<rparr>)
                  else complete_assembly hash (scope_of_broadcast b) key pending now_ms
                         (a\<lparr>as_pending := fmupd key pending (as_pending a)\<rparr>))"

lemma scope_of_broadcast_origin [simp]: "is_origin_site (scope_of_broadcast b) = mb_origin_site b"
  by (simp add: scope_of_broadcast_def)

lemma ik_key_of_broadcast [simp]:
  "ik_scope (key_of_broadcast b) = scope_of_broadcast b"
  "ik_revision (key_of_broadcast b) = mf_inventory_revision (mb_frame b)"
  by (simp_all add: key_of_broadcast_def)

lemma push_admitted:
  assumes "frame_admitted b now_ms (prune now_ms a)"
  shows "push hash b now_ms a =
    store_frame hash b now_ms (superseded (scope_of_broadcast b) (mf_inventory_revision (mb_frame b)) (prune now_ms a))"
  using assms
  unfolding push_def store_frame_def Let_def frame_admitted_def is_stale_def is_duplicate_def pending_or_new_def
    superseded_def key_of_broadcast_def
  by simp

lemma push_refused:
  assumes "\<not> frame_admitted b now_ms (prune now_ms a)"
  shows "\<exists>e. push hash b now_ms a = (Inl e, prune now_ms a)"
proof -
  consider (frame) e where "validate_frame (mb_frame b) now_ms = Inl e"
    | (blocked) "validate_frame (mb_frame b) now_ms = Inr ()"
        "fmlookup (as_blocked_origins (prune now_ms a)) (mb_origin_site b) \<noteq> None"
    | (scope) e where "validate_frame (mb_frame b) now_ms = Inr ()"
        "fmlookup (as_blocked_origins (prune now_ms a)) (mb_origin_site b) = None"
        "scope_validate (scope_of_broadcast b) = Inl e"
    | (stale) "validate_frame (mb_frame b) now_ms = Inr ()"
        "fmlookup (as_blocked_origins (prune now_ms a)) (mb_origin_site b) = None"
        "scope_validate (scope_of_broadcast b) = Inr ()"
        "is_stale (scope_of_broadcast b) (mf_inventory_revision (mb_frame b)) (prune now_ms a)"
    using assms unfolding frame_admitted_def
    by (cases "validate_frame (mb_frame b) now_ms"; cases "scope_validate (scope_of_broadcast b)") auto
  then show ?thesis
    by cases (auto simp: push_def Let_def is_stale_def)
qed

lemma store_frame_cases:
  fixes a :: model_inventory_assembler and b :: model_inventory_broadcast
  defines "key \<equiv> key_of_broadcast b" and "frame \<equiv> mb_frame b"
  obtains (capacity) "store_frame hash b now_ms a = (Inl InProgressCapacity, block_origin (mb_origin_site b) now_ms a)"
  | (conflict) e where "store_frame hash b now_ms a = (Inl e, a\<lparr>as_pending := fmdrop key (as_pending a)\<rparr>)"
  | (held) p r where
      "is_duplicate key frame a \<or> pending_frames_for_origin a (mb_origin_site b) < MAX_IN_PROGRESS_FRAMES_PER_ORIGIN"
      "pending_insert (pending_or_new key frame now_ms a) frame = Inr p"
      "fmcount (pi_frames p) \<noteq> unat (pi_frame_count p)"
      "store_frame hash b now_ms a = (Inr r, a\<lparr>as_pending := fmupd key p (as_pending a)\<rparr>)"
      "r = (if is_duplicate key frame a then Duplicate else Incomplete)"
  | (full) p where
      "is_duplicate key frame a \<or> pending_frames_for_origin a (mb_origin_site b) < MAX_IN_PROGRESS_FRAMES_PER_ORIGIN"
      "pending_insert (pending_or_new key frame now_ms a) frame = Inr p"
      "fmcount (pi_frames p) = unat (pi_frame_count p)"
      "store_frame hash b now_ms a = complete_assembly hash (scope_of_broadcast b) key p now_ms
         (a\<lparr>as_pending := fmupd key p (as_pending a)\<rparr>)"
proof -
  define over where "over \<longleftrightarrow> \<not> is_duplicate key frame a \<and>
    pending_frames_for_origin a (mb_origin_site b) \<ge> MAX_IN_PROGRESS_FRAMES_PER_ORIGIN"
  have room: "is_duplicate key frame a \<or> pending_frames_for_origin a (mb_origin_site b) < MAX_IN_PROGRESS_FRAMES_PER_ORIGIN"
    if "\<not> over"
    using that by (auto simp: over_def)
  have eq: "store_frame hash b now_ms a =
    (if over then (Inl InProgressCapacity, block_origin (mb_origin_site b) now_ms a)
     else case pending_insert (pending_or_new key frame now_ms a) frame of
            Inl error \<Rightarrow> (Inl error, a\<lparr>as_pending := fmdrop key (as_pending a)\<rparr>)
          | Inr pending \<Rightarrow>
              if fmcount (pi_frames pending) \<noteq> unat (pi_frame_count pending)
              then (Inr (if is_duplicate key frame a then Duplicate else Incomplete),
                    a\<lparr>as_pending := fmupd key pending (as_pending a)\<rparr>)
              else complete_assembly hash (scope_of_broadcast b) key pending now_ms
                     (a\<lparr>as_pending := fmupd key pending (as_pending a)\<rparr>))"
    unfolding store_frame_def Let_def over_def key_def frame_def unat_eq_nat_uint by (rule refl)
  show thesis
  proof (cases "over")
    case True
    with eq show ?thesis by (intro capacity) simp
  next
    case False
    show ?thesis
    proof (cases "pending_insert (pending_or_new key frame now_ms a) frame")
      case (Inl e)
      with eq False show ?thesis by (intro conflict) simp
    next
      case (Inr p)
      with eq False room [OF False] held [of p] full [of p] show ?thesis
        by (cases "fmcount (pi_frames p) = unat (pi_frame_count p)") auto
    qed
  qed
qed

subsection \<open>Per-origin loads\<close>

definition origin_models :: "model_inventory_assembler \<Rightarrow> string \<Rightarrow> nat" where
  "origin_models a origin =
     fmsum (\<lambda>(s, i). if is_origin_site s = origin then length (mi_models i) else 0) (as_complete a)"

definition origin_name_bytes :: "model_inventory_assembler \<Rightarrow> string \<Rightarrow> nat" where
  "origin_name_bytes a origin =
     fmsum (\<lambda>(s, i). if is_origin_site s = origin then name_bytes_of (mi_models i) else 0) (as_complete a)"

definition origin_floors :: "model_inventory_assembler \<Rightarrow> string \<Rightarrow> nat" where
  "origin_floors a origin = fmsum (\<lambda>(s, _). if is_origin_site s = origin then 1 else 0) (as_revision_floor a)"

lemma pending_frames_fmsum:
  "pending_frames_for_origin a origin =
    fmsum (\<lambda>(k, p). if is_origin_site (ik_scope k) = origin then fmcount (pi_frames p) else 0) (as_pending a)"
  unfolding pending_frames_for_origin_def sum_list_filter_fmentries by (rule fmsum_cong) simp

lemma name_bytes_concat: "sum_list (map length (concat xss)) = sum_list (map name_bytes_of xss)"
  by (induction xss) (simp_all add: name_bytes_of_def)

lemma can_retain_bounds:
  assumes "can_retain_inventory a scope i"
  shows "fmsum (\<lambda>(s, i). if is_origin_site s = is_origin_site scope then length (mi_models i) else 0)
      (fmdrop scope (as_complete a)) + length (mi_models i) \<le> MAX_ORIGIN_MODEL_PAIRS"
    and "fmsum (\<lambda>(s, i). if is_origin_site s = is_origin_site scope then name_bytes_of (mi_models i) else 0)
      (fmdrop scope (as_complete a)) + name_bytes_of (mi_models i) \<le> MAX_ORIGIN_INVENTORY_NAME_BYTES"
    and "fmsum (\<lambda>(s, _). if is_origin_site s = is_origin_site scope then 1 else 0)
      (fmdrop scope (as_revision_floor a)) < MAX_ORIGIN_PROVIDER_INVENTORIES"
proof -
  let ?P = "\<lambda>x. is_origin_site (fst x) = is_origin_site scope"
  have load: "sum_list (map g (filter (\<lambda>p. ?P p \<and> fst p \<noteq> scope) (fmentries (as_complete a)))) =
    fmsum (\<lambda>x. if ?P x then g x else 0) (fmdrop scope (as_complete a))" for g
    unfolding sum_list_filter_fmentries fmsum_drop_filter ..
  have floors: "length (filter (\<lambda>held. is_origin_site held = is_origin_site scope \<and> held \<noteq> scope)
      (fmkeys (as_revision_floor a))) = fmsum (\<lambda>x. if ?P x then 1 else 0) (fmdrop scope (as_revision_floor a))"
    unfolding length_filter_fmkeys fmsum_drop_filter ..
  show "fmsum (\<lambda>(s, i). if is_origin_site s = is_origin_site scope then length (mi_models i) else 0)
      (fmdrop scope (as_complete a)) + length (mi_models i) \<le> MAX_ORIGIN_MODEL_PAIRS"
    using assms unfolding can_retain_inventory_def Let_def case_prod_unfold load by simp
  show "fmsum (\<lambda>(s, i). if is_origin_site s = is_origin_site scope then name_bytes_of (mi_models i) else 0)
      (fmdrop scope (as_complete a)) + name_bytes_of (mi_models i) \<le> MAX_ORIGIN_INVENTORY_NAME_BYTES"
    using assms unfolding can_retain_inventory_def Let_def case_prod_unfold name_bytes_concat map_map comp_def load
    by simp
  show "fmsum (\<lambda>(s, _). if is_origin_site s = is_origin_site scope then 1 else 0)
      (fmdrop scope (as_revision_floor a)) < MAX_ORIGIN_PROVIDER_INVENTORIES"
    using assms unfolding can_retain_inventory_def Let_def case_prod_unfold floors by simp
qed

subsection \<open>The invariant\<close>

definition names_wf :: "string list \<Rightarrow> bool" where
  "names_wf models \<longleftrightarrow> (\<forall>m\<in>set models. \<not> is_blank m \<and> length m \<le> MAX_MODEL_NAME_BYTES)"

definition pending_wf :: "pending_inventory \<Rightarrow> bool" where
  "pending_wf p \<longleftrightarrow> unat (pi_frame_count p) \<le> MAX_INVENTORY_FRAMES \<and>
     fmcount (pi_frames p) < unat (pi_frame_count p) \<and>
     fmpred (\<lambda>i models. i < pi_frame_count p \<and> length models \<le> 1 \<and> names_wf models) (pi_frames p)"

definition models_wf :: "string list \<Rightarrow> bool" where
  "models_wf models \<longleftrightarrow> length models \<le> MAX_INVENTORY_MODELS \<and> sorted_wrt (<) models \<and> names_wf models"

definition complete_wf :: "model_inventory_assembler \<Rightarrow> bool" where
  "complete_wf a \<longleftrightarrow> fmpred (\<lambda>s i. scope_from_inventory i = s \<and> models_wf (mi_models i) \<and>
     map_option rf_revision (fmlookup (as_revision_floor a) s) = Some (mi_revision i)) (as_complete a)"

definition loads_wf :: "model_inventory_assembler \<Rightarrow> bool" where
  "loads_wf a \<longleftrightarrow> (\<forall>origin. pending_frames_for_origin a origin \<le> MAX_IN_PROGRESS_FRAMES_PER_ORIGIN \<and>
     origin_models a origin \<le> MAX_ORIGIN_MODEL_PAIRS \<and>
     origin_name_bytes a origin \<le> MAX_ORIGIN_INVENTORY_NAME_BYTES \<and>
     origin_floors a origin \<le> MAX_ORIGIN_PROVIDER_INVENTORIES)"

definition assembler_inv :: "model_inventory_assembler \<Rightarrow> bool" where
  "assembler_inv a \<longleftrightarrow> fmpred (\<lambda>_. pending_wf) (as_pending a) \<and> complete_wf a \<and> loads_wf a"

text \<open>An assembler with less in it, in which floors outlive the inventories they guard.\<close>

definition shrinks :: "model_inventory_assembler \<Rightarrow> model_inventory_assembler \<Rightarrow> bool" where
  "shrinks a' a \<longleftrightarrow>
     (\<forall>k p. fmlookup (as_pending a') k = Some p \<longrightarrow> fmlookup (as_pending a) k = Some p) \<and>
     (\<forall>s i. fmlookup (as_complete a') s = Some i \<longrightarrow> fmlookup (as_complete a) s = Some i \<and>
        fmlookup (as_revision_floor a') s = fmlookup (as_revision_floor a) s) \<and>
     (\<forall>s f. fmlookup (as_revision_floor a') s = Some f \<longrightarrow> fmlookup (as_revision_floor a) s = Some f)"

lemma shrinks_inv:
  assumes "shrinks a' a" "assembler_inv a"
  shows "assembler_inv a'"
proof -
  have p: "fmlookup (as_pending a) k = Some p" if "fmlookup (as_pending a') k = Some p" for k p
    using assms(1) that unfolding shrinks_def by blast
  have c: "fmlookup (as_complete a) s = Some i"
    "fmlookup (as_revision_floor a') s = fmlookup (as_revision_floor a) s"
    if "fmlookup (as_complete a') s = Some i" for s i
    using assms(1) that unfolding shrinks_def by blast+
  have f: "fmlookup (as_revision_floor a) s = Some r" if "fmlookup (as_revision_floor a') s = Some r" for s r
    using assms(1) that unfolding shrinks_def by blast
  have le: "pending_frames_for_origin a' origin \<le> pending_frames_for_origin a origin"
    "origin_models a' origin \<le> origin_models a origin" "origin_name_bytes a' origin \<le> origin_name_bytes a origin"
    "origin_floors a' origin \<le> origin_floors a origin" for origin
    unfolding pending_frames_fmsum origin_models_def origin_name_bytes_def origin_floors_def
    by (rule fmsum_mono; simp add: p c f)+
  have "loads_wf a'"
    unfolding loads_wf_def
  proof (intro allI)
    fix origin
    have "loads_wf a"
      using assms(2) by (simp add: assembler_inv_def)
    then show "pending_frames_for_origin a' origin \<le> MAX_IN_PROGRESS_FRAMES_PER_ORIGIN \<and>
      origin_models a' origin \<le> MAX_ORIGIN_MODEL_PAIRS \<and>
      origin_name_bytes a' origin \<le> MAX_ORIGIN_INVENTORY_NAME_BYTES \<and>
      origin_floors a' origin \<le> MAX_ORIGIN_PROVIDER_INVENTORIES"
      using le [of origin] unfolding loads_wf_def by (meson order_trans)
  qed
  moreover have "fmpred (\<lambda>_. pending_wf) (as_pending a')"
    using assms(2) p unfolding assembler_inv_def fmpred_iff by blast
  moreover have "complete_wf a'"
    unfolding complete_wf_def
  proof (rule fmpredI)
    fix s i
    assume "fmlookup (as_complete a') s = Some i"
    from c [OF this] show "scope_from_inventory i = s \<and> models_wf (mi_models i) \<and>
      map_option rf_revision (fmlookup (as_revision_floor a') s) = Some (mi_revision i)"
      using assms(2) by (auto simp: assembler_inv_def complete_wf_def dest: fmpredD)
  qed
  ultimately show ?thesis
    by (simp add: assembler_inv_def)
qed

lemma shrinks_trans: "shrinks a b \<Longrightarrow> shrinks b c \<Longrightarrow> shrinks a c"
  unfolding shrinks_def by metis

lemma shrinks_prune: "shrinks (prune now_ms a) a"
  by (auto simp: shrinks_def prune_def Let_def split: option.splits if_splits)

lemma shrinks_superseded: "shrinks (superseded s r a) a"
  by (auto simp: shrinks_def superseded_def split: option.splits if_splits)

lemma shrinks_withdraw: "shrinks (withdraw_provider s a) a"
  by (auto simp: shrinks_def withdraw_provider_def split: option.splits if_splits)

lemma shrinks_remove_origin: "shrinks (assembler_remove_origin o' a) a"
  by (auto simp: shrinks_def assembler_remove_origin_def split: option.splits if_splits)

lemma shrinks_remove_grid: "shrinks (assembler_remove_grid g o' a) a"
  by (auto simp: shrinks_def assembler_remove_grid_def split: option.splits if_splits)

lemma shrinks_block: "shrinks (block_origin o' now_ms a) a"
  by (auto simp: shrinks_def block_origin_def assembler_remove_origin_def Let_def split: option.splits if_splits)

lemma shrinks_drop_pending: "shrinks (a\<lparr>as_pending := fmdrop k (as_pending a)\<rparr>) a"
  by (auto simp: shrinks_def split: if_splits)

subsection \<open>Every operation keeps the invariant\<close>

lemma assembler_empty_inv: "assembler_inv assembler_empty"
  by (simp add: assembler_inv_def assembler_empty_def complete_wf_def loads_wf_def pending_frames_fmsum
    origin_models_def origin_name_bytes_def origin_floors_def)

lemma ascending_windows_sorted: "ascending_windows models \<longleftrightarrow> sorted_wrt (<) models"
  by (induction models rule: ascending_windows.induct) (auto simp: not_le intro: less_trans)

lemma check_model_names_Inr:
  "check_model_names models n = Inr m \<longleftrightarrow> names_wf models \<and> m = n + name_bytes_of models"
  by (induction models arbitrary: n) (auto simp: names_wf_def name_bytes_of_def)

lemma validate_complete_Inr:
  "validate_complete hash i d = Inr () \<longleftrightarrow> models_wf (mi_models i) \<and>
    name_bytes_of (mi_models i) \<le> MAX_ORIGIN_INVENTORY_NAME_BYTES \<and> digest_models hash (mi_models i) = Inr d"
  by (auto simp: validate_complete_def models_wf_def ascending_windows_sorted check_model_names_Inr)

lemma validate_frame_Inr:
  assumes "validate_frame frame now_ms = Inr ()"
  shows "unat (mf_frame_count frame) \<le> MAX_INVENTORY_FRAMES" "mf_frame_index frame < mf_frame_count frame"
    "length (mf_models frame) \<le> 1" "names_wf (mf_models frame)" "mf_expires_at_ms frame > now_ms"
  using assms by (auto simp: validate_frame_def check_model_names_Inr split: if_splits)

lemma pending_or_new_wf:
  assumes "fmpred (\<lambda>_. pending_wf) (as_pending a)" "validate_frame frame now_ms = Inr ()"
  shows "pending_wf (pending_or_new key frame now_ms a)"
  using assms validate_frame_Inr [OF assms(2)]
  by (auto simp: pending_or_new_def pending_wf_def word_less_nat_alt dest: fmpredD split: option.splits)

text \<open>A frame adds at most one entry, and none when it is a duplicate.\<close>

lemma pending_insert_frames:
  assumes "pending_insert p frame = Inr q"
  shows "pi_frame_count q = pi_frame_count p" "pi_frame_count q = mf_frame_count frame"
    "pi_expires_at_ms q = pi_expires_at_ms p" "pi_digest q = pi_digest p"
    "pi_frames q = (case fmlookup (pi_frames p) (mf_frame_index frame) of
       Some _ \<Rightarrow> pi_frames p | None \<Rightarrow> fmupd (mf_frame_index frame) (mf_models frame) (pi_frames p))"
  using assms by (auto simp: pending_insert_def split: if_splits option.splits)

lemma fmcount_bounded:
  assumes "fmpred (\<lambda>i _. i < n) (m :: (u16, 'v) fmap)"
  shows "fmcount m \<le> unat n"
proof -
  have "fset (fmdom m) \<subseteq> {..<n}"
    using assms by (auto dest: fmpredD simp: fmlookup_dom_iff)
  then have "card (fset (fmdom m)) \<le> card {..<n}"
    by (intro card_mono) simp_all
  also have "card {..<n} = card (unat ` {..<n})"
    by (rule card_image [symmetric]) (auto simp: inj_on_def word_unat_eq_iff)
  also have "\<dots> \<le> card {..<unat n}"
    by (rule card_mono) (auto simp: word_less_nat_alt)
  finally show ?thesis
    by (simp add: fmcount_def fcard.rep_eq)
qed

lemma pending_insert_wf:
  assumes "pending_wf p" "pending_insert p frame = Inr q" "validate_frame frame now_ms = Inr ()"
    and "fmcount (pi_frames q) \<noteq> unat (pi_frame_count q)"
  shows "pending_wf q"
proof -
  have ok: "fmpred (\<lambda>i models. i < pi_frame_count q \<and> length models \<le> 1 \<and> names_wf models) (pi_frames q)"
    using assms(1) validate_frame_Inr [OF assms(3)] pending_insert_frames [OF assms(2)]
    by (auto simp: pending_wf_def fmpred_upd split: option.splits)
  then have "fmpred (\<lambda>i _. i < pi_frame_count q) (pi_frames q)"
    by (auto simp: fmpred_iff)
  from fmcount_bounded [OF this] ok show ?thesis
    using assms(1,4) pending_insert_frames(1) [OF assms(2)] by (simp add: pending_wf_def)
qed

lemma pending_insert_load:
  assumes "pending_insert (pending_or_new key frame now_ms a) frame = Inr q"
    and "is_duplicate key frame a \<or> pending_frames_for_origin a origin < MAX_IN_PROGRESS_FRAMES_PER_ORIGIN"
    and "is_origin_site (ik_scope key) = origin"
    and "pending_frames_for_origin a origin \<le> MAX_IN_PROGRESS_FRAMES_PER_ORIGIN"
  shows "pending_frames_for_origin (a\<lparr>as_pending := fmupd key q (as_pending a)\<rparr>) origin
    \<le> MAX_IN_PROGRESS_FRAMES_PER_ORIGIN"
proof -
  let ?g = "\<lambda>(k, p). if is_origin_site (ik_scope k) = origin then fmcount (pi_frames p) else 0"
  have new: "pending_frames_for_origin (a\<lparr>as_pending := fmupd key q (as_pending a)\<rparr>) origin =
    fmcount (pi_frames q) + fmsum ?g (fmdrop key (as_pending a))"
    by (simp add: pending_frames_fmsum fmsum_upd assms(3))
  have old: "pending_frames_for_origin a origin =
    (case fmlookup (as_pending a) key of None \<Rightarrow> 0 | Some p \<Rightarrow> fmcount (pi_frames p)) + fmsum ?g (fmdrop key (as_pending a))"
    unfolding pending_frames_fmsum using assms(3)
    by (auto simp: fmdrop_absent fmsum_split split: option.split)
  have le: "fmcount (pi_frames q) \<le> Suc (case fmlookup (as_pending a) key of None \<Rightarrow> 0 | Some p \<Rightarrow> fmcount (pi_frames p))"
    unfolding pending_insert_frames(5) [OF assms(1)]
    by (auto simp: pending_or_new_def fmcount_fmupd split: option.splits)
  have dup: "fmcount (pi_frames q) = (case fmlookup (as_pending a) key of None \<Rightarrow> 0 | Some p \<Rightarrow> fmcount (pi_frames p))"
    if "is_duplicate key frame a"
    using that unfolding pending_insert_frames(5) [OF assms(1)]
    by (auto simp: is_duplicate_def pending_or_new_def split: option.splits)
  show ?thesis
    using assms(2,4) le dup unfolding new old by auto
qed

lemma loads_wf_pending:
  assumes "loads_wf a" "\<And>origin. pending_frames_for_origin a' origin \<le> MAX_IN_PROGRESS_FRAMES_PER_ORIGIN"
    and "as_complete a' = as_complete a" "as_revision_floor a' = as_revision_floor a"
  shows "loads_wf a'"
  using assms by (simp add: loads_wf_def origin_models_def origin_name_bytes_def origin_floors_def)

lemma held_inv:
  assumes "assembler_inv a" "validate_frame (mb_frame b) now_ms = Inr ()"
    and "is_duplicate (key_of_broadcast b) (mb_frame b) a \<or>
      pending_frames_for_origin a (mb_origin_site b) < MAX_IN_PROGRESS_FRAMES_PER_ORIGIN"
    and "pending_insert (pending_or_new (key_of_broadcast b) (mb_frame b) now_ms a) (mb_frame b) = Inr p"
    and "fmcount (pi_frames p) \<noteq> unat (pi_frame_count p)"
  shows "assembler_inv (a\<lparr>as_pending := fmupd (key_of_broadcast b) p (as_pending a)\<rparr>)" (is "assembler_inv ?a")
proof -
  have inv: "fmpred (\<lambda>_. pending_wf) (as_pending a)" "complete_wf a" "loads_wf a"
    using assms(1) by (simp_all add: assembler_inv_def)
  have "pending_wf p"
    using pending_insert_wf [OF pending_or_new_wf [OF inv(1) assms(2)] assms(4,2,5)] .
  moreover have "pending_frames_for_origin ?a origin \<le> MAX_IN_PROGRESS_FRAMES_PER_ORIGIN" for origin
  proof (cases "origin = mb_origin_site b")
    case True
    then show ?thesis
      using pending_insert_load [OF assms(4), of origin] assms(3) inv(3) by (simp add: loads_wf_def)
  next
    case False
    then have "pending_frames_for_origin ?a origin \<le> pending_frames_for_origin a origin"
      by (simp add: pending_frames_fmsum fmsum_upd fmsum_drop_le)
    also have "\<dots> \<le> MAX_IN_PROGRESS_FRAMES_PER_ORIGIN"
      using inv(3) by (simp add: loads_wf_def)
    finally show ?thesis .
  qed
  ultimately show ?thesis
    using inv loads_wf_pending [OF inv(3), of ?a] by (simp add: assembler_inv_def complete_wf_def fmpred_upd)
qed

lemma assembled_inventory_simps [simp]:
  "scope_from_inventory (assembled_inventory scope key p) = scope"
  "mi_revision (assembled_inventory scope key p) = ik_revision key"
  "mi_expires_at_ms (assembled_inventory scope key p) = pi_expires_at_ms p"
  "mi_models (assembled_inventory scope key p) = concat (fmvalues (pi_frames p))"
  by (simp_all add: assembled_inventory_def scope_from_inventory_def)

lemma complete_assembly_cases:
  fixes a :: model_inventory_assembler and key :: inventory_key and p :: pending_inventory
    and scope :: inventory_scope and now_ms :: u64
  defines "a1 \<equiv> a\<lparr>as_pending := fmdrop key (as_pending a)\<rparr>"
    and "inventory \<equiv> assembled_inventory scope key p"
  obtains (invalid) e where "complete_assembly hash scope key p now_ms a = (Inl e, a1)"
    "validate_complete hash inventory (pi_digest p) = Inl e"
  | (blocked) "complete_assembly hash scope key p now_ms a =
      (Inl InventoryCapacity, block_origin (is_origin_site scope) now_ms a1)"
    "validate_complete hash inventory (pi_digest p) = Inr ()"
    "\<not> can_retain_inventory a1 scope inventory"
  | (stored) "complete_assembly hash scope key p now_ms a =
      (Inr (Complete inventory),
       a1\<lparr>as_pending := fmretain (\<lambda>held _. ik_scope held \<noteq> scope \<or> ik_revision held > ik_revision key) (as_pending a1),
          as_revision_floor := fmupd scope
            \<lparr>rf_revision = ik_revision key, rf_retain_until_ms = replay_deadline now_ms\<rparr> (as_revision_floor a1),
          as_complete := fmupd scope inventory (as_complete a1)\<rparr>)"
    "validate_complete hash inventory (pi_digest p) = Inr ()"
    "can_retain_inventory a1 scope inventory"
proof -
  have eq: "complete_assembly hash scope key p now_ms a =
    (case validate_complete hash inventory (pi_digest p) of
       Inl error \<Rightarrow> (Inl error, a1)
     | Inr _ \<Rightarrow> if \<not> can_retain_inventory a1 scope inventory
         then (Inl InventoryCapacity, block_origin (is_origin_site scope) now_ms a1)
         else (Inr (Complete inventory),
           a1\<lparr>as_pending := fmretain (\<lambda>held _. ik_scope held \<noteq> scope \<or> ik_revision held > ik_revision key) (as_pending a1),
              as_revision_floor := fmupd scope
                \<lparr>rf_revision = ik_revision key, rf_retain_until_ms = replay_deadline now_ms\<rparr> (as_revision_floor a1),
              as_complete := fmupd scope inventory (as_complete a1)\<rparr>))"
    unfolding complete_assembly_def Let_def a1_def inventory_def by (simp split: sum.split)
  show thesis
  proof (cases "validate_complete hash inventory (pi_digest p)")
    case (Inl e)
    with eq invalid show ?thesis by simp
  next
    case (Inr u)
    with eq blocked stored show ?thesis
      by (cases "can_retain_inventory a1 scope inventory") simp_all
  qed
qed

lemma stored_inv:
  assumes "assembler_inv a" "can_retain_inventory a scope i" "models_wf (mi_models i)"
    and "scope_from_inventory i = scope"
  shows "assembler_inv (a\<lparr>as_pending := fmretain P (as_pending a),
      as_revision_floor := fmupd scope \<lparr>rf_revision = mi_revision i, rf_retain_until_ms = t\<rparr> (as_revision_floor a),
      as_complete := fmupd scope i (as_complete a)\<rparr>)" (is "assembler_inv ?a")
proof -
  have inv: "fmpred (\<lambda>_. pending_wf) (as_pending a)" "complete_wf a" "loads_wf a"
    using assms(1) by (simp_all add: assembler_inv_def)
  have "loads_wf ?a"
    unfolding loads_wf_def
  proof (intro allI conjI)
    fix origin
    have old: "pending_frames_for_origin a origin \<le> MAX_IN_PROGRESS_FRAMES_PER_ORIGIN"
      "origin_models a origin \<le> MAX_ORIGIN_MODEL_PAIRS"
      "origin_name_bytes a origin \<le> MAX_ORIGIN_INVENTORY_NAME_BYTES"
      "origin_floors a origin \<le> MAX_ORIGIN_PROVIDER_INVENTORIES"
      using inv(3) by (simp_all add: loads_wf_def)
    show "pending_frames_for_origin ?a origin \<le> MAX_IN_PROGRESS_FRAMES_PER_ORIGIN"
      using old(1) by (auto simp: pending_frames_fmsum intro: order_trans [OF fmsum_retain_le])
    show "origin_models ?a origin \<le> MAX_ORIGIN_MODEL_PAIRS"
      using old(2) can_retain_bounds(1) [OF assms(2)]
      by (auto simp: origin_models_def fmsum_upd intro: order_trans [OF fmsum_drop_le])
    show "origin_name_bytes ?a origin \<le> MAX_ORIGIN_INVENTORY_NAME_BYTES"
      using old(3) can_retain_bounds(2) [OF assms(2)]
      by (auto simp: origin_name_bytes_def fmsum_upd intro: order_trans [OF fmsum_drop_le])
    show "origin_floors ?a origin \<le> MAX_ORIGIN_PROVIDER_INVENTORIES"
      using old(4) can_retain_bounds(3) [OF assms(2)]
      by (auto simp: origin_floors_def fmsum_upd intro: order_trans [OF fmsum_drop_le])
  qed
  moreover have "complete_wf ?a"
    using inv(2) assms(3,4) by (auto simp: complete_wf_def fmpred_iff)
  moreover have "fmpred (\<lambda>_. pending_wf) (as_pending ?a)"
    using inv(1) by (auto simp: fmpred_iff split: option.splits if_splits)
  ultimately show ?thesis
    by (simp add: assembler_inv_def)
qed

lemma store_frame_inv:
  assumes "assembler_inv a" "validate_frame (mb_frame b) now_ms = Inr ()"
  shows "assembler_inv (snd (store_frame hash b now_ms a))"
proof (cases rule: store_frame_cases [of hash b now_ms a])
  case capacity
  then show ?thesis
    using assms(1) shrinks_inv [OF shrinks_block] by simp
next
  case (conflict e)
  then show ?thesis
    using assms(1) shrinks_inv [OF shrinks_drop_pending] by simp
next
  case (held p r)
  then show ?thesis
    using held_inv [OF assms] by simp
next
  case (full p)
  let ?key = "key_of_broadcast b"
  let ?a = "a\<lparr>as_pending := fmupd ?key p (as_pending a)\<rparr>"
  have inv: "assembler_inv (a\<lparr>as_pending := fmdrop ?key (as_pending a)\<rparr>)"
    using assms(1) shrinks_inv [OF shrinks_drop_pending] by blast
  show ?thesis
  proof (cases rule: complete_assembly_cases [of hash "scope_of_broadcast b" ?key p now_ms ?a])
    case (invalid e)
    then show ?thesis using full inv by simp
  next
    case blocked
    then show ?thesis using full inv shrinks_inv [OF shrinks_block] by simp
  next
    case stored
    from stored(2,3) show ?thesis
      using full stored(1) stored_inv [OF inv stored(3) [simplified]]
      by (simp add: validate_complete_Inr)
  qed
qed

lemma push_inv: "assembler_inv a \<Longrightarrow> assembler_inv (snd (push hash b now_ms a))"
proof -
  assume "assembler_inv a"
  then have inv: "assembler_inv (prune now_ms a)"
    using shrinks_inv [OF shrinks_prune] by blast
  show ?thesis
  proof (cases "frame_admitted b now_ms (prune now_ms a)")
    case True
    then show ?thesis
      using push_admitted store_frame_inv shrinks_inv [OF shrinks_superseded inv]
      by (simp add: frame_admitted_def)
  next
    case False
    then show ?thesis
      using push_refused [of b now_ms a hash] inv by auto
  qed
qed

subsection \<open>Replay guards\<close>

text \<open>
  A revision is guarded until a time: a floor at or above it is retained until then, or the origin is
  blocked until then.
\<close>

definition guarded :: "u64 \<Rightarrow> inventory_scope \<Rightarrow> u64 \<Rightarrow> model_inventory_assembler \<Rightarrow> bool" where
  "guarded until_ms scope revision a \<longleftrightarrow>
     (\<exists>f. fmlookup (as_revision_floor a) scope = Some f \<and> revision \<le> rf_revision f \<and> until_ms \<le> rf_retain_until_ms f) \<or>
     (\<exists>t. fmlookup (as_blocked_origins a) (is_origin_site scope) = Some t \<and> until_ms \<le> t)"

lemma guarded_cong:
  "as_revision_floor a' = as_revision_floor a \<Longrightarrow> as_blocked_origins a' = as_blocked_origins a \<Longrightarrow>
    guarded t s r a' = guarded t s r a"
  by (simp add: guarded_def)

lemma guarded_prune: "guarded t s r a \<Longrightarrow> now_ms \<le> t \<Longrightarrow> guarded t s r (prune now_ms a)"
  unfolding guarded_def
proof (elim disjE exE conjE)
  fix f
  assume f: "fmlookup (as_revision_floor a) s = Some f" "r \<le> rf_revision f" "t \<le> rf_retain_until_ms f" "now_ms \<le> t"
  then have "now_ms \<le> rf_retain_until_ms f" by simp
  with f show "(\<exists>f. fmlookup (as_revision_floor (prune now_ms a)) s = Some f \<and> r \<le> rf_revision f \<and>
      t \<le> rf_retain_until_ms f) \<or>
    (\<exists>u. fmlookup (as_blocked_origins (prune now_ms a)) (is_origin_site s) = Some u \<and> t \<le> u)"
    by (simp add: prune_def)
next
  fix u
  assume u: "fmlookup (as_blocked_origins a) (is_origin_site s) = Some u" "t \<le> u" "now_ms \<le> t"
  then have "now_ms \<le> u" by simp
  with u show "(\<exists>f. fmlookup (as_revision_floor (prune now_ms a)) s = Some f \<and> r \<le> rf_revision f \<and>
      t \<le> rf_retain_until_ms f) \<or>
    (\<exists>u. fmlookup (as_blocked_origins (prune now_ms a)) (is_origin_site s) = Some u \<and> t \<le> u)"
    by (simp add: prune_def)
qed

lemma guarded_block:
  "guarded t s r a \<Longrightarrow> t \<le> replay_deadline now_ms \<Longrightarrow> guarded t s r (block_origin o' now_ms a)"
  by (auto simp: guarded_def block_origin_def assembler_remove_origin_def Let_def)

lemma guarded_floor:
  assumes "guarded t s r a" "t \<le> replay_deadline now_ms" "s' = s \<Longrightarrow> r \<le> r'"
  shows "guarded t s r (a\<lparr>as_pending := P,
    as_revision_floor := fmupd s' \<lparr>rf_revision = r', rf_retain_until_ms = replay_deadline now_ms\<rparr> (as_revision_floor a),
    as_complete := C\<rparr>)"
  using assms by (auto simp: guarded_def)

lemma guarded_refuses:
  assumes "guarded t (scope_of_broadcast b) r a" "now_ms \<le> t" "mf_inventory_revision (mb_frame b) \<le> r"
  shows "\<not> frame_admitted b now_ms (prune now_ms a)"
  using guarded_prune [OF assms(1,2)] assms(3)
  by (auto simp: guarded_def frame_admitted_def is_stale_def)

lemma guarded_store_frame:
  assumes "guarded t s r a" "t \<le> replay_deadline now_ms"
    and "scope_of_broadcast b = s \<Longrightarrow> r \<le> mf_inventory_revision (mb_frame b)"
  shows "guarded t s r (snd (store_frame hash b now_ms a))"
proof (cases rule: store_frame_cases [of hash b now_ms a])
  case capacity
  then show ?thesis using guarded_block [OF assms(1,2)] by simp
next
  case (conflict e)
  then show ?thesis using assms(1) by (simp add: guarded_def)
next
  case (held p q)
  then show ?thesis using assms(1) by (simp add: guarded_def)
next
  case (full p)
  let ?key = "key_of_broadcast b"
  have g: "guarded t s r (a\<lparr>as_pending := fmdrop ?key (as_pending a)\<rparr>)"
    using assms(1) by (simp add: guarded_def)
  show ?thesis
    by (cases rule: complete_assembly_cases [of hash "scope_of_broadcast b" ?key p now_ms
          "a\<lparr>as_pending := fmupd ?key p (as_pending a)\<rparr>"])
      (auto simp: full(4) g guarded_block [OF g assms(2)] guarded_floor [OF assms(1,2)] assms(3))
qed

lemma guarded_push:
  assumes "guarded t s r a" "now_ms \<le> t" "t \<le> replay_deadline now_ms"
  shows "guarded t s r (snd (push hash b now_ms a))"
proof (cases "frame_admitted b now_ms (prune now_ms a)")
  case True
  have "r \<le> mf_inventory_revision (mb_frame b)" if "scope_of_broadcast b = s"
    using guarded_refuses [of t b r a now_ms] that assms(1,2) True by fastforce
  then show ?thesis
    using push_admitted [OF True] guarded_store_frame [OF _ assms(3)] guarded_prune [OF assms(1,2)]
    by (simp add: superseded_def guarded_def)
next
  case False
  then show ?thesis
    using push_refused [of b now_ms a hash] guarded_prune [OF assms(1,2)] by auto
qed

lemma replay_deadline_mono: "a \<le> b \<Longrightarrow> replay_deadline a \<le> replay_deadline b"
  by (auto simp: replay_deadline_def word_le_nat_alt unat_saturating_add)

subsection \<open>Runs of the assembler\<close>

datatype inventory_event = Pushed model_inventory_broadcast u64 | Withdrawn inventory_scope

primrec inventory_step ::
  "(bytes \<Rightarrow> string + bytes) \<Rightarrow> inventory_event \<Rightarrow> model_inventory_assembler \<Rightarrow> model_inventory_assembler" where
  "inventory_step hash (Pushed b now_ms) a = snd (push hash b now_ms a)"
| "inventory_step hash (Withdrawn scope) a = withdraw_provider scope a"

primrec event_within :: "u64 \<Rightarrow> u64 \<Rightarrow> inventory_event \<Rightarrow> bool" where
  "event_within from_ms until_ms (Pushed b now_ms) \<longleftrightarrow> from_ms \<le> now_ms \<and> now_ms \<le> until_ms"
| "event_within from_ms until_ms (Withdrawn scope) \<longleftrightarrow> True"

lemma guarded_run:
  assumes "guarded t s r a" "t \<le> replay_deadline from_ms" "\<And>e. e \<in> set es \<Longrightarrow> event_within from_ms t e"
  shows "guarded t s r (fold (inventory_step hash) es a)"
proof (rule fold_invariant_mem)
  fix e a
  assume e: "e \<in> set es" and g: "guarded t s r a"
  show "guarded t s r (inventory_step hash e a)"
  proof (cases e)
    case (Pushed b now_ms)
    then have "from_ms \<le> now_ms" "now_ms \<le> t"
      using assms(3) [OF e] by simp_all
    then show ?thesis
      using Pushed guarded_push [OF g] order_trans [OF assms(2) replay_deadline_mono] by simp
  next
    case (Withdrawn scope)
    then show ?thesis
      using g by (simp add: withdraw_provider_def guarded_def)
  qed
qed (rule assms(1))

text \<open>What a push that completes an inventory found and left.\<close>

lemma push_Complete:
  assumes "push hash b now_ms a = (Inr (Complete i), a')"
  obtains p where "frame_admitted b now_ms (prune now_ms a)"
    "i = assembled_inventory (scope_of_broadcast b) (key_of_broadcast b) p"
    "validate_complete hash i (pi_digest p) = Inr ()"
    "pi_digest p = mf_inventory_digest (mb_frame b)" "pi_expires_at_ms p = mf_expires_at_ms (mb_frame b)"
    "as_complete a' = fmupd (scope_of_broadcast b) i (as_complete (prune now_ms a))"
    "as_revision_floor a' = fmupd (scope_of_broadcast b)
       \<lparr>rf_revision = mf_inventory_revision (mb_frame b), rf_retain_until_ms = replay_deadline now_ms\<rparr>
       (as_revision_floor (prune now_ms a))"
proof -
  have adm: "frame_admitted b now_ms (prune now_ms a)"
    using push_refused [of b now_ms a hash] assms by auto
  define a0 where "a0 = superseded (scope_of_broadcast b) (mf_inventory_revision (mb_frame b)) (prune now_ms a)"
  have a0: "as_complete a0 = as_complete (prune now_ms a)" "as_revision_floor a0 = as_revision_floor (prune now_ms a)"
    by (simp_all add: a0_def superseded_def)
  have store: "store_frame hash b now_ms a0 = (Inr (Complete i), a')"
    using assms push_admitted [OF adm] by (simp add: a0_def)
  from store obtain p where p: "pending_insert (pending_or_new (key_of_broadcast b) (mb_frame b) now_ms a0) (mb_frame b) = Inr p"
    and full: "complete_assembly hash (scope_of_broadcast b) (key_of_broadcast b) p now_ms
      (a0\<lparr>as_pending := fmupd (key_of_broadcast b) p (as_pending a0)\<rparr>) = (Inr (Complete i), a')"
    by (cases rule: store_frame_cases [of hash b now_ms a0]) (auto split: if_splits)
  have same: "pi_digest p = mf_inventory_digest (mb_frame b)" "pi_expires_at_ms p = mf_expires_at_ms (mb_frame b)"
    using p by (auto simp: pending_insert_def split: if_splits option.splits)
  show thesis
    by (cases rule: complete_assembly_cases [of hash "scope_of_broadcast b" "key_of_broadcast b" p now_ms
          "a0\<lparr>as_pending := fmupd (key_of_broadcast b) p (as_pending a0)\<rparr>"])
      (use full in \<open>auto intro!: that [OF adm] simp: same a0\<close>)
qed

subsection \<open>Properties\<close>

text \<open>
  The assembler is bounded and consistent: starting empty, every operation keeps, for every
  origin, at most 256 held frames, 256 models, 128 KiB of names and 256 revision floors; every
  partial inventory is really partial; and every complete inventory is stored under its own scope,
  strictly sorted, with a floor at its revision.
\<close>

theorem assembler_bounded:
  "assembler_inv assembler_empty \<and>
   (assembler_inv a \<longrightarrow> assembler_inv (snd (push hash b now_ms a)) \<and> assembler_inv (withdraw_provider scope a) \<and>
      assembler_inv (assembler_remove_origin origin a) \<and> assembler_inv (assembler_remove_grid grid selected a))"
  using assembler_empty_inv push_inv shrinks_inv [OF shrinks_withdraw] shrinks_inv [OF shrinks_remove_origin]
    shrinks_inv [OF shrinks_remove_grid]
  by blast

text \<open>
  C30. A completed inventory is what was announced: when a frame completes an inventory, its models
  are strictly sorted, none blank or over-long, their digest is the one every frame carried, its
  scope, revision and expiry are those of the frame, the revision is newer than any floor held for
  the scope, it has not expired, and it alone changes among the complete inventories.
\<close>

theorem push_complete_sound:
  assumes "push hash b now_ms a = (Inr (Complete i), a')"
  shows "models_wf (mi_models i) \<and> digest_models hash (mi_models i) = Inr (mf_inventory_digest (mb_frame b)) \<and>
    scope_from_inventory i = scope_of_broadcast b \<and> mi_revision i = mf_inventory_revision (mb_frame b) \<and>
    mi_expires_at_ms i = mf_expires_at_ms (mb_frame b) \<and> now_ms < mi_expires_at_ms i \<and>
    (\<forall>f. fmlookup (as_revision_floor (prune now_ms a)) (scope_of_broadcast b) = Some f \<longrightarrow> rf_revision f < mi_revision i) \<and>
    as_complete a' = fmupd (scope_of_broadcast b) i (as_complete (prune now_ms a))"
proof -
  from assms show ?thesis
  proof (cases rule: push_Complete)
    case (1 p)
    have "validate_frame (mb_frame b) now_ms = Inr ()"
      "\<not> is_stale (scope_of_broadcast b) (mf_inventory_revision (mb_frame b)) (prune now_ms a)"
      using 1(1) by (simp_all add: frame_admitted_def)
    then show ?thesis
      using 1(2-) validate_frame_Inr(5)
      by (auto simp: validate_complete_Inr is_stale_def)
  qed
qed


subsection \<open>Witnesses\<close>

definition ex_hash :: "bytes \<Rightarrow> string + bytes" where
  "ex_hash payload = Inr (replicate 32 (of_nat (length payload)))"

definition ex_inventory :: "string list \<Rightarrow> model_inventory" where
  "ex_inventory models = \<lparr>mi_origin_site = ''a'', mi_grid_id = ''g'', mi_network_id = ''n'', mi_provider_id = ''p'',
     mi_provider_uid = ''u'', mi_revision = 7, mi_expires_at_ms = 100, mi_models = models\<rparr>"

definition ex_frame_broadcast :: "string list \<Rightarrow> nat \<Rightarrow> model_inventory_broadcast" where
  "ex_frame_broadcast models j =
     inventory_broadcast_new ''a'' ''g'' (case frames ex_hash (ex_inventory models) of Inr fs \<Rightarrow> fs ! j)"

definition ex_assembled :: model_inventory_assembler where
  "ex_assembled = snd (push ex_hash (ex_frame_broadcast [''m''] 0) 5 assembler_empty)"

lemma ex_push: "push ex_hash (ex_frame_broadcast [''m''] 0) 5 assembler_empty =
  (Inr (Complete (ex_inventory [''m''])), ex_assembled)"
proof -
  have "fst (push ex_hash (ex_frame_broadcast [''m''] 0) 5 assembler_empty) = Inr (Complete (ex_inventory [''m'']))"
    by code_simp
  then show ?thesis
    by (simp add: ex_assembled_def prod_eq_iff)
qed

theorem push_complete_sound_witness:
  "models_wf [''m''] \<and> as_complete ex_assembled =
     fmupd (InventoryScope ''a'' ''g'' ''n'' ''p'' ''u'') (ex_inventory [''m'']) (as_complete (prune 5 assembler_empty))"
  using push_complete_sound [OF ex_push] by (simp add: ex_inventory_def scope_from_inventory_def)


end
