(* ===== verification/InventoryRoundTrip.thy ===== *)
theory InventoryRoundTrip
  imports InventoryAssembly
begin

section \<open>Model inventories: cutting and reassembling\<close>

text \<open>
  The frames that \<open>frames\<close> cuts an inventory into, delivered in any order, make the assembler
  publish the inventory with its models in order.
\<close>

subsection \<open>Maps indexed by position\<close>

definition indexed :: "(u16, 'v) fmap \<Rightarrow> nat set \<Rightarrow> 'v list \<Rightarrow> bool" where
  "indexed m D xs \<longleftrightarrow> (\<forall>i. fmlookup m i = (if unat i \<in> D then Some (xs ! unat i) else None))"

lemma unat_word_of_int_u16: "n < 65536 \<Longrightarrow> unat (word_of_int (int n) :: u16) = n"
  by (simp add: unat_of_nat take_bit_nat_eq_self)

lemma u16_of_nat_unat: "unat (i :: u16) = n \<longleftrightarrow> n < 65536 \<and> i = of_nat n"
  using unsigned_less [of i] by (auto simp: unat_of_nat take_bit_nat_eq_self)

lemma indexed_dom:
  assumes "indexed m D xs" "D \<subseteq> {..<65536}"
  shows "fset (fmdom m) = of_nat ` D"
proof -
  have "i \<in> fset (fmdom m) \<longleftrightarrow> unat i \<in> D" for i
    using assms(1) by (simp add: indexed_def fmlookup_dom_iff)
  moreover have "i \<in> of_nat ` D \<longleftrightarrow> unat i \<in> D" for i :: u16
  proof
    assume "i \<in> of_nat ` D"
    then obtain n where "n \<in> D" "i = of_nat n" by blast
    with assms(2) show "unat i \<in> D"
      using u16_of_nat_unat [of i n] by auto
  next
    assume "unat i \<in> D"
    then have "of_nat (unat i) \<in> (of_nat :: nat \<Rightarrow> u16) ` D" by (rule imageI)
    then show "i \<in> of_nat ` D" by simp
  qed
  ultimately show ?thesis by blast
qed

lemma inj_on_u16_of_nat: "D \<subseteq> {..<65536} \<Longrightarrow> inj_on (of_nat :: nat \<Rightarrow> u16) D"
  by (rule inj_onI) (metis lessThan_iff subsetD u16_of_nat_unat)

lemma fmcount_indexed:
  assumes "indexed m D xs" "D \<subseteq> {..<65536}"
  shows "fmcount m = card D"
  using indexed_dom [OF assms] card_image [OF inj_on_u16_of_nat [OF assms(2)]]
  by (simp add: fmcount_def fcard.rep_eq)

lemma fmvalues_keys: "fmvalues m = map (\<lambda>k. the (fmlookup m k)) (fmkeys m)"
  by (simp add: fmvalues_def fmentries_def fmkeys_def sorted_list_of_fmap_def comp_def)

lemma fmvalues_indexed:
  assumes "indexed m {..<length xs} xs" "length xs \<le> 65536"
  shows "fmvalues m = xs"
proof -
  have D: "{..<length xs} \<subseteq> {..<65536}"
    using assms(2) by auto
  have "sorted (map (of_nat :: nat \<Rightarrow> u16) [0..<length xs])"
    unfolding sorted_map
    using assms(2) by (auto simp: sorted_wrt_upt word_le_nat_alt unat_of_nat take_bit_nat_eq_self
      intro!: sorted_wrt_mono_rel [OF _ sorted_wrt_upt])
  moreover have "distinct (map (of_nat :: nat \<Rightarrow> u16) [0..<length xs])"
    using inj_on_u16_of_nat [OF D] by (simp add: distinct_map atLeast_upt lessThan_atLeast0)
  moreover have "set (map (of_nat :: nat \<Rightarrow> u16) [0..<length xs]) = set (fmkeys m)"
    using indexed_dom [OF assms(1) D] by (simp add: lessThan_atLeast0)
  moreover have "sorted (fmkeys m)"
    by (simp add: fmkeys_def sorted_list_of_fset.rep_eq)
  ultimately have "fmkeys m = map of_nat [0..<length xs]"
    by (intro sorted_distinct_set_unique) simp_all
  then have "fmvalues m = map (\<lambda>i. xs ! i) [0..<length xs]"
    using assms by (auto simp: fmvalues_keys indexed_def unat_of_nat take_bit_nat_eq_self)
  then show ?thesis
    by (simp add: map_nth)
qed

subsection \<open>The frames of an inventory\<close>

definition frame_at :: "model_inventory \<Rightarrow> bytes \<Rightarrow> nat \<Rightarrow> nat \<Rightarrow> string list \<Rightarrow> model_inventory_frame" where
  "frame_at i digest n j models =
     \<lparr>mf_version = MODEL_INVENTORY_FRAME_VERSION, mf_network_id = mi_network_id i,
      mf_provider_id = mi_provider_id i, mf_provider_uid = mi_provider_uid i,
      mf_inventory_revision = mi_revision i, mf_expires_at_ms = mi_expires_at_ms i,
      mf_frame_index = word_of_int (int j), mf_frame_count = word_of_int (int n),
      mf_inventory_digest = digest, mf_models = models, mf_signed_at_ms = None, mf_signature = None\<rparr>"

definition frame_names :: "model_inventory \<Rightarrow> string list list" where
  "frame_names i = (if mi_models i = [] then [[]] else map (\<lambda>name. [name]) (sort (mi_models i)))"

lemma frame_names_simps:
  "concat (frame_names i) = sort (mi_models i)"
  "length (frame_names i) = max (length (mi_models i)) 1"
  "0 < length (frame_names i)"
  by (cases "mi_models i"; simp add: frame_names_def concat_map_singleton Suc_le_eq max_def)+

lemma sort_eq_Nil_iff [simp]: "sort xs = [] \<longleftrightarrow> xs = []"
  by (metis length_0_conv length_sort)

lemma frames_Inr:
  assumes "frames hash i = Inr fs"
  obtains d where "digest_models hash (sort (mi_models i)) = Inr d"
    "validate_complete hash (i\<lparr>mi_models := sort (mi_models i)\<rparr>) d = Inr ()"
    "scope_validate (scope_from_inventory i) = Inr ()"
    "length (frame_names i) \<le> 256"
    "fs = map (\<lambda>(j, models). frame_at i d (length (frame_names i)) j models) (enumerate 0 (frame_names i))"
proof -
  from assms obtain d n where d: "digest_models hash (sort (mi_models i)) = Inr d"
    "validate_complete hash (i\<lparr>mi_models := sort (mi_models i)\<rparr>) d = Inr ()"
    "scope_validate (scope_from_inventory i) = Inr ()"
    and n: "u16_try_from (max (length (mi_models i)) 1) = Inr n"
    and fs: "collect_results (map (\<lambda>(index, models). try_bind (u16_try_from index) (\<lambda>frame_index.
        Inr ((frame_at i d 0 0 models)\<lparr>mf_frame_index := frame_index, mf_frame_count := n\<rparr>)))
      (enumerate 0 (frame_names i))) = Inr fs"
    unfolding frames_def Let_def frame_names_def frame_at_def by auto
  have "length (mi_models i) \<le> 256"
    using d(2) by (simp add: validate_complete_Inr models_wf_def MAX_INVENTORY_MODELS_def)
  then have len: "length (frame_names i) \<le> 256"
    by (simp add: frame_names_simps)
  have "collect_results (map (\<lambda>(index, models). try_bind (u16_try_from index) (\<lambda>frame_index.
        Inr ((frame_at i d 0 0 models)\<lparr>mf_frame_index := frame_index, mf_frame_count := n\<rparr>)))
      (enumerate 0 (frame_names i))) =
    Inr (map (\<lambda>(j, models). frame_at i d (length (frame_names i)) j models) (enumerate 0 (frame_names i)))"
  proof (rule collect_results_Inr)
    fix x
    assume "x \<in> set (enumerate 0 (frame_names i))"
    then have "fst x < length (frame_names i)"
      by (auto simp: in_set_enumerate_eq)
    then show "(case x of (index, models) \<Rightarrow> try_bind (u16_try_from index) (\<lambda>frame_index.
        Inr ((frame_at i d 0 0 models)\<lparr>mf_frame_index := frame_index, mf_frame_count := n\<rparr>))) =
      Inr (case x of (j, models) \<Rightarrow> frame_at i d (length (frame_names i)) j models)"
      using len n by (auto simp: u16_try_from_def frame_at_def frame_names_simps split: prod.splits if_splits)
  qed
  with fs have "fs = map (\<lambda>(j, models). frame_at i d (length (frame_names i)) j models) (enumerate 0 (frame_names i))"
    by simp
  from that [OF d len this] show thesis .
qed

subsection \<open>The state during an assembly\<close>

text \<open>Nothing of an origin is held, and it is not blocked.\<close>

definition origin_clear :: "string \<Rightarrow> model_inventory_assembler \<Rightarrow> bool" where
  "origin_clear origin a \<longleftrightarrow>
     fmpred (\<lambda>k _. is_origin_site (ik_scope k) \<noteq> origin) (as_pending a) \<and>
     fmpred (\<lambda>s _. is_origin_site s \<noteq> origin) (as_complete a) \<and>
     fmpred (\<lambda>s _. is_origin_site s \<noteq> origin) (as_revision_floor a) \<and>
     fmlookup (as_blocked_origins a) origin = None"

definition inventory_key_of :: "model_inventory \<Rightarrow> inventory_key" where
  "inventory_key_of i = InventoryKey (scope_from_inventory i) (mi_revision i)"

text \<open>The frames at the positions \<open>D\<close> are held, the first since \<open>started\<close>, and nothing else of the origin.\<close>

definition assembling ::
  "model_inventory \<Rightarrow> bytes \<Rightarrow> u64 \<Rightarrow> nat set \<Rightarrow> model_inventory_assembler \<Rightarrow> bool" where
  "assembling i d started D a \<longleftrightarrow>
     origin_clear (mi_origin_site i) (a\<lparr>as_pending := fmdrop (inventory_key_of i) (as_pending a)\<rparr>) \<and>
     (case fmlookup (as_pending a) (inventory_key_of i) of
        None \<Rightarrow> D = {}
      | Some p \<Rightarrow> pi_expires_at_ms p = mi_expires_at_ms i \<and>
          pi_frame_count p = word_of_int (int (length (frame_names i))) \<and> pi_digest p = d \<and>
          pi_started_at_ms p = started \<and> indexed (pi_frames p) D (frame_names i))"

lemma origin_clear_assembling: "origin_clear (mi_origin_site i) a \<Longrightarrow> assembling i d t {} a"
  by (auto simp: assembling_def origin_clear_def inventory_key_of_def scope_from_inventory_def
    fmpred_iff split: option.splits)

text \<open>A clear origin stays clear under operations that only remove.\<close>

lemma origin_clear_prune: "origin_clear o' a \<Longrightarrow> origin_clear o' (prune t a)"
  by (auto simp: origin_clear_def prune_def Let_def fmpred_iff split: option.splits)

lemma assembling_prune:
  assumes "assembling i d started D a" "t < mi_expires_at_ms i"
    and "saturating_sub t started \<le> MAX_BROADCAST_AGE_MS"
  shows "assembling i d started D (prune t a)"
proof -
  have "fmlookup (as_pending (prune t a)) (inventory_key_of i) = fmlookup (as_pending a) (inventory_key_of i)"
    using assms by (auto simp: assembling_def prune_def Let_def split: option.splits)
  moreover have "(prune t a)\<lparr>as_pending := fmdrop (inventory_key_of i) (as_pending (prune t a))\<rparr> =
    prune t (a\<lparr>as_pending := fmdrop (inventory_key_of i) (as_pending a)\<rparr>)"
    by (cases a) (simp add: prune_def Let_def fmdrop_retain)
  ultimately show ?thesis
    using assms(1) origin_clear_prune unfolding assembling_def by metis
qed

lemma assembling_superseded:
  assumes "assembling i d started D a"
  shows "superseded (scope_from_inventory i) (mi_revision i) a = a"
proof -
  have "fmretain (\<lambda>held _. ik_scope held \<noteq> scope_from_inventory i \<or> mi_revision i \<le> ik_revision held)
    (as_pending a) = as_pending a"
  proof (rule fmretain_all)
    fix k p
    assume k: "fmlookup (as_pending a) k = Some p"
    show "ik_scope k \<noteq> scope_from_inventory i \<or> mi_revision i \<le> ik_revision k"
    proof (cases "k = inventory_key_of i")
      case False
      with k assms have "is_origin_site (ik_scope k) \<noteq> mi_origin_site i"
        unfolding assembling_def origin_clear_def by (auto simp: fmpred_iff)
      then show ?thesis
        by (auto simp: scope_from_inventory_def)
    qed (simp add: inventory_key_of_def)
  qed
  then show ?thesis
    by (simp add: superseded_def)
qed

lemma assembling_frames:
  assumes "assembling i d started D a" "D \<subseteq> {..<65536}"
  shows "pending_frames_for_origin a (mi_origin_site i) = card D"
proof -
  let ?g = "\<lambda>(k, p). if is_origin_site (ik_scope k) = mi_origin_site i then fmcount (pi_frames p) else 0"
  have rest: "fmsum ?g (fmdrop (inventory_key_of i) (as_pending a)) = 0"
    by (rule fmsum_zero) (use assms(1) in \<open>auto simp: assembling_def origin_clear_def fmpred_iff\<close>)
  show ?thesis
  proof (cases "fmlookup (as_pending a) (inventory_key_of i)")
    case None
    then show ?thesis
      using assms(1) rest by (simp add: pending_frames_fmsum fmdrop_absent assembling_def)
  next
    case (Some p)
    then show ?thesis
      using assms rest fmcount_indexed [of "pi_frames p" D "frame_names i"]
      by (simp add: pending_frames_fmsum fmsum_split assembling_def inventory_key_of_def scope_from_inventory_def)
  qed
qed

subsection \<open>One frame\<close>

text \<open>The frame without what signing adds to it.\<close>

definition unsigned_frame :: "model_inventory_frame \<Rightarrow> model_inventory_frame" where
  "unsigned_frame f = f\<lparr>mf_signed_at_ms := None, mf_signature := None\<rparr>"

definition carries :: "model_inventory \<Rightarrow> bytes \<Rightarrow> nat \<Rightarrow> model_inventory_broadcast \<Rightarrow> bool" where
  "carries i d j b \<longleftrightarrow> mb_origin_site b = mi_origin_site i \<and> mb_grid_id b = mi_grid_id i \<and>
     unsigned_frame (mb_frame b) = frame_at i d (length (frame_names i)) j (frame_names i ! j)"

lemma carries_fields:
  assumes "carries i d j b"
  shows "mf_version (mb_frame b) = MODEL_INVENTORY_FRAME_VERSION"
    "mf_inventory_revision (mb_frame b) = mi_revision i" "mf_expires_at_ms (mb_frame b) = mi_expires_at_ms i"
    "mf_frame_index (mb_frame b) = word_of_int (int j)"
    "mf_frame_count (mb_frame b) = word_of_int (int (length (frame_names i)))"
    "mf_inventory_digest (mb_frame b) = d" "mf_models (mb_frame b) = frame_names i ! j"
    "scope_of_broadcast b = scope_from_inventory i" "key_of_broadcast b = inventory_key_of i"
    "mb_origin_site b = mi_origin_site i"
  using assms unfolding carries_def unsigned_frame_def frame_at_def
  by (cases "mb_frame b"; simp add: scope_of_broadcast_def scope_from_inventory_def key_of_broadcast_def
      inventory_key_of_def)+

lemma frame_names_nth:
  assumes "j < length (frame_names i)"
  shows "length (frame_names i ! j) \<le> 1" "frame_names i ! j = [] \<Longrightarrow> length (frame_names i) = 1"
    "set (frame_names i ! j) \<subseteq> set (mi_models i)"
  using assms by (auto simp: frame_names_def split: if_splits) (metis length_sort nth_mem set_sort)

lemma carries_valid:
  assumes "carries i d j b" "j < length (frame_names i)" "length (frame_names i) \<le> 256"
    and "names_wf (mi_models i)" "t < mi_expires_at_ms i"
  shows "validate_frame (mb_frame b) t = Inr ()"
proof -
  let ?n = "length (frame_names i)"
  have n: "unat (word_of_int (int ?n) :: u16) = ?n" "unat (word_of_int (int j) :: u16) = j"
    using assms(2,3) by (simp_all only: unat_word_of_int_u16)
  have "word_of_int (int ?n) \<noteq> (0 :: u16)"
    using n(1) frame_names_simps(3) [of i] by (metis less_not_refl unsigned_0)
  moreover have "nat (uint (word_of_int (int ?n) :: u16)) = ?n"
    using n(1) by (simp only: unat_eq_nat_uint)
  moreover have "\<not> word_of_int (int j) \<ge> (word_of_int (int ?n) :: u16)"
    using n assms(2) by (simp only: word_le_nat_alt not_le)
  moreover have "word_of_int (int ?n) = (1 :: u16)" if "frame_names i ! j = []"
    using frame_names_nth(2) [OF assms(2) that] by simp
  moreover have "names_wf (frame_names i ! j)"
    using assms(4) frame_names_nth(3) [OF assms(2)] by (auto simp: names_wf_def)
  ultimately show ?thesis
    unfolding validate_frame_def carries_fields [OF assms(1)]
    using frame_names_nth(1) [OF assms(2)] assms(3,5)
    by (auto simp: check_model_names_Inr MAX_INVENTORY_FRAMES_def)
qed

lemma assembling_admitted:
  assumes "assembling i d started D a" "carries i d j b" "scope_validate (scope_from_inventory i) = Inr ()"
    and "validate_frame (mb_frame b) t = Inr ()"
  shows "frame_admitted b t a"
  using assms unfolding frame_admitted_def carries_fields [OF assms(2)]
  by (auto simp: assembling_def origin_clear_def is_stale_def fmpred_iff scope_from_inventory_def
    split: option.splits)

lemma assembling_insert:
  assumes "assembling i d started D a" "carries i d j b" "j \<notin> D" "j < 65536" "D = {} \<Longrightarrow> started = t"
    and "D \<subseteq> {..<65536}"
  obtains p where "pending_insert (pending_or_new (inventory_key_of i) (mb_frame b) t a) (mb_frame b) = Inr p"
    "\<not> is_duplicate (inventory_key_of i) (mb_frame b) a"
    "pi_frame_count p = word_of_int (int (length (frame_names i)))" "pi_digest p = d"
    "pi_expires_at_ms p = mi_expires_at_ms i" "pi_started_at_ms p = started"
    "indexed (pi_frames p) (insert j D) (frame_names i)"
proof -
  let ?p = "pending_or_new (inventory_key_of i) (mb_frame b) t a"
  let ?j = "word_of_int (int j) :: u16"
  have j: "unat ?j = j" "x = ?j \<longleftrightarrow> unat x = j" for x
    using unat_word_of_int_u16 [OF assms(4)] by (auto simp: word_unat_eq_iff)
  have p: "pi_expires_at_ms ?p = mi_expires_at_ms i" "pi_digest ?p = d" "pi_started_at_ms ?p = started"
    "pi_frame_count ?p = word_of_int (int (length (frame_names i)))" "indexed (pi_frames ?p) D (frame_names i)"
    using assms(1,5) carries_fields [OF assms(2)]
    by (auto simp: assembling_def pending_or_new_def indexed_def split: option.splits)
  then have new: "fmlookup (pi_frames ?p) ?j = None"
    using assms(3) j(1) by (simp add: indexed_def)
  show thesis
  proof (rule that)
    show "pending_insert ?p (mb_frame b) =
      Inr (?p\<lparr>pi_frames := fmupd ?j (frame_names i ! j) (pi_frames ?p)\<rparr>)"
      using p new by (simp add: pending_insert_def carries_fields [OF assms(2)])
    show "\<not> is_duplicate (inventory_key_of i) (mb_frame b) a"
      using new by (auto simp: is_duplicate_def pending_or_new_def carries_fields [OF assms(2)] split: option.splits)
    show "indexed (pi_frames (?p\<lparr>pi_frames := fmupd ?j (frame_names i ! j) (pi_frames ?p)\<rparr>)) (insert j D) (frame_names i)"
      using p(5) j by (auto simp: indexed_def)
  qed (simp_all add: p)
qed

lemma clear_can_retain:
  assumes "origin_clear (is_origin_site scope) a" "length (mi_models i) \<le> 256"
    and "name_bytes_of (mi_models i) \<le> MAX_ORIGIN_INVENTORY_NAME_BYTES"
  shows "can_retain_inventory a scope i"
proof -
  have none: "filter (\<lambda>(s, _). is_origin_site s = is_origin_site scope \<and> s \<noteq> scope) (fmentries (as_complete a)) = []"
    "filter (\<lambda>s. is_origin_site s = is_origin_site scope \<and> s \<noteq> scope) (fmkeys (as_revision_floor a)) = []"
    "filter (\<lambda>(k, _). is_origin_site (ik_scope k) = is_origin_site scope) (fmentries (as_pending a)) = []"
    using assms(1) by (auto simp: origin_clear_def filter_empty_conv fmpred_iff fmlookup_dom_iff)
  then show ?thesis
    using assms(2,3) unfolding can_retain_inventory_def Let_def none
    by (simp add: MAX_ORIGIN_PROVIDER_INVENTORIES_def MAX_ORIGIN_MODEL_PAIRS_def)
qed

definition sorted_inventory :: "model_inventory \<Rightarrow> model_inventory" where
  "sorted_inventory i = i\<lparr>mi_models := sort (mi_models i)\<rparr>"

lemma scope_sorted_inventory [simp]: "scope_from_inventory (sorted_inventory i) = scope_from_inventory i"
  by (simp add: sorted_inventory_def scope_from_inventory_def)

lemma assembled_eq_sorted:
  assumes "indexed (pi_frames p) {..<length (frame_names i)} (frame_names i)" "length (frame_names i) \<le> 256"
    and "pi_expires_at_ms p = mi_expires_at_ms i"
  shows "assembled_inventory (scope_from_inventory i) (inventory_key_of i) p = sorted_inventory i"
  using fmvalues_indexed [OF assms(1)] assms(2,3)
  by (cases i) (simp add: assembled_inventory_def sorted_inventory_def scope_from_inventory_def inventory_key_of_def
    frame_names_simps)

text \<open>What an origin knows of an inventory it could cut into frames.\<close>

definition cuttable :: "(bytes \<Rightarrow> string + bytes) \<Rightarrow> model_inventory \<Rightarrow> bytes \<Rightarrow> bool" where
  "cuttable hash i d \<longleftrightarrow> validate_complete hash (sorted_inventory i) d = Inr () \<and>
     scope_validate (scope_from_inventory i) = Inr () \<and> length (frame_names i) \<le> 256"

lemma cuttable_names: "cuttable hash i d \<Longrightarrow> names_wf (mi_models i)"
  by (simp add: cuttable_def validate_complete_Inr models_wf_def names_wf_def sorted_inventory_def)

lemma assembling_push:
  fixes i :: model_inventory
  defines "n \<equiv> length (frame_names i)"
  assumes "cuttable hash i d" "assembling i d started D a" "carries i d j b" "j \<notin> D" "j < n" "D \<subseteq> {..<n}"
    and "t < mi_expires_at_ms i" "saturating_sub t started \<le> MAX_BROADCAST_AGE_MS" "D = {} \<Longrightarrow> started = t"
  shows "insert j D \<noteq> {..<n} \<Longrightarrow> fst (push hash b t a) = Inr Incomplete \<and>
      assembling i d started (insert j D) (snd (push hash b t a))"
    and "insert j D = {..<n} \<Longrightarrow> fst (push hash b t a) = Inr (Complete (sorted_inventory i)) \<and>
      fmlookup (as_complete (snd (push hash b t a))) (scope_from_inventory i) = Some (sorted_inventory i)"
proof -
  have n: "n \<le> 256" and D: "D \<subseteq> {..<65536}" "insert j D \<subseteq> {..<65536}" "j < 65536"
    using assms(2,6,7) by (auto simp: cuttable_def n_def)
  define a0 where "a0 = prune t a"
  have asm: "assembling i d started D a0"
    unfolding a0_def by (rule assembling_prune [OF assms(3,8,9)])
  have valid: "validate_frame (mb_frame b) t = Inr ()"
    using carries_valid [OF assms(4) _ _ cuttable_names [OF assms(2)] assms(8)] assms(6) n by (simp add: n_def)
  have push: "push hash b t a = store_frame hash b t a0"
    using push_admitted [of b t a hash] assembling_admitted [OF asm assms(4) _ valid] assms(2)
      assembling_superseded [OF asm] carries_fields [OF assms(4)]
    by (simp add: a0_def cuttable_def)
  from assembling_insert [OF asm assms(4,5) D(3) assms(10) D(1)] obtain p where
    p: "pending_insert (pending_or_new (inventory_key_of i) (mb_frame b) t a0) (mb_frame b) = Inr p"
      "\<not> is_duplicate (inventory_key_of i) (mb_frame b) a0"
      "pi_frame_count p = word_of_int (int n)" "pi_digest p = d"
      "pi_expires_at_ms p = mi_expires_at_ms i" "pi_started_at_ms p = started"
      "indexed (pi_frames p) (insert j D) (frame_names i)"
    unfolding n_def by blast
  have "card D < card {..<n}"
    using assms(5-7) by (intro psubset_card_mono) auto
  then have room: "pending_frames_for_origin a0 (mi_origin_site i) < MAX_IN_PROGRESS_FRAMES_PER_ORIGIN"
    using assembling_frames [OF asm D(1)] n by (simp add: MAX_IN_PROGRESS_FRAMES_PER_ORIGIN_def)
  have count: "unat (pi_frame_count p) = n"
    unfolding p(3) by (rule unat_word_of_int_u16) (use n in simp)
  have "fmcount (pi_frames p) = card (insert j D)"
    by (rule fmcount_indexed [OF p(7) D(2)])
  moreover have "card X = n \<longleftrightarrow> X = {..<n}" if "X \<subseteq> {..<n}" for X
    using card_subset_eq [of "{..<n}" X] that by auto
  moreover have "insert j D \<subseteq> {..<n}"
    using assms(6,7) by simp
  ultimately have "fmcount (pi_frames p) = n \<longleftrightarrow> insert j D = {..<n}"
    by metis
  then obtain last where full: "fmcount (pi_frames p) = n \<longleftrightarrow> last" and last: "last \<longleftrightarrow> insert j D = {..<n}"
    by blast
  let ?a = "a0\<lparr>as_pending := fmupd (inventory_key_of i) p (as_pending a0)\<rparr>"
  have store: "store_frame hash b t a0 = (if \<not> last then (Inr Incomplete, ?a)
    else complete_assembly hash (scope_from_inventory i) (inventory_key_of i) p t ?a)"
    using room by (simp add: store_frame_def Let_def carries_fields [OF assms(4)] count full p(1,2))
  show "fst (push hash b t a) = Inr Incomplete \<and> assembling i d started (insert j D) (snd (push hash b t a))"
    if "insert j D \<noteq> {..<n}"
  proof -
    have "assembling i d started (insert j D) ?a"
      using asm p(3-7) by (simp add: assembling_def n_def)
    moreover have "\<not> last"
      using that last by blast
    ultimately show ?thesis
      unfolding push store by simp
  qed
  show "fst (push hash b t a) = Inr (Complete (sorted_inventory i)) \<and>
      fmlookup (as_complete (snd (push hash b t a))) (scope_from_inventory i) = Some (sorted_inventory i)"
    if "insert j D = {..<n}"
  proof -
    have inv: "assembled_inventory (scope_from_inventory i) (inventory_key_of i) p = sorted_inventory i"
      using assembled_eq_sorted p(5,7) that n by (simp add: n_def)
    have clear: "origin_clear (is_origin_site (scope_from_inventory i))
        (a0\<lparr>as_pending := fmdrop (inventory_key_of i) (as_pending a0)\<rparr>)"
      using asm by (simp add: assembling_def scope_from_inventory_def)
    have ok: "validate_complete hash (sorted_inventory i) d = Inr ()"
      using assms(2) by (simp add: cuttable_def)
    then have "can_retain_inventory (a0\<lparr>as_pending := fmdrop (inventory_key_of i) (as_pending a0)\<rparr>)
        (scope_from_inventory i) (sorted_inventory i)"
      by (intro clear_can_retain [OF clear])
        (simp_all add: validate_complete_Inr models_wf_def MAX_INVENTORY_MODELS_def)
    moreover have last
      using that last by blast
    ultimately show ?thesis
      unfolding push store using ok by (simp add: complete_assembly_def Let_def inv p(4))
  qed
qed

primrec push_all ::
  "(bytes \<Rightarrow> string + bytes) \<Rightarrow> (model_inventory_broadcast \<times> u64) list \<Rightarrow> model_inventory_assembler \<Rightarrow>
   (inventory_frame_error + inventory_assembly_result) list \<times> model_inventory_assembler" where
  "push_all hash [] a = ([], a)"
| "push_all hash (bt # bts) a =
     (let (r, a) = push hash (fst bt) (snd bt) a; (rs, a) = push_all hash bts a in (r # rs, a))"

lemma assembling_push_all:
  assumes "cuttable hash i d" "assembling i d started D a" "js \<noteq> []"
    and "distinct js" "set js \<inter> D = {}" "set js \<union> D = {..<length (frame_names i)}"
    and "\<And>j. j \<in> set js \<Longrightarrow> carries i d j (bs j) \<and> ts j < mi_expires_at_ms i \<and>
      saturating_sub (ts j) started \<le> MAX_BROADCAST_AGE_MS"
    and "D = {} \<Longrightarrow> started = ts (hd js)"
  shows "fst (push_all hash (map (\<lambda>j. (bs j, ts j)) js) a) =
      replicate (length js - 1) (Inr Incomplete) @ [Inr (Complete (sorted_inventory i))] \<and>
    fmlookup (as_complete (snd (push_all hash (map (\<lambda>j. (bs j, ts j)) js) a))) (scope_from_inventory i) =
      Some (sorted_inventory i)"
  using assms(2-8)
proof (induction js arbitrary: D a)
  case (Cons j js)
  have j: "j \<notin> D" "j < length (frame_names i)" "D \<subseteq> {..<length (frame_names i)}"
    using Cons.prems by auto
  note step = assembling_push [OF assms(1) Cons.prems(1) _ j, of "bs j" "ts j"]
  show ?case
  proof (cases "js = []")
    case True
    then have "insert j D = {..<length (frame_names i)}"
      using Cons.prems(5) by auto
    with step(2) Cons.prems(6,7) True show ?thesis
      by (auto simp: case_prod_beta)
  next
    case False
    then have "hd js \<notin> insert j D" "hd js < length (frame_names i)"
      using Cons.prems(3-5) by (cases js; auto)+
    then have "insert j D \<noteq> {..<length (frame_names i)}"
      by blast
    with step(1) Cons.prems(6,7) have r: "fst (push hash (bs j) (ts j) a) = Inr Incomplete"
      "assembling i d started (insert j D) (snd (push hash (bs j) (ts j) a))"
      by auto
    have "fst (push_all hash (map (\<lambda>j. (bs j, ts j)) js) (snd (push hash (bs j) (ts j) a))) =
        replicate (length js - 1) (Inr Incomplete) @ [Inr (Complete (sorted_inventory i))] \<and>
      fmlookup (as_complete (snd (push_all hash (map (\<lambda>j. (bs j, ts j)) js) (snd (push hash (bs j) (ts j) a)))))
        (scope_from_inventory i) = Some (sorted_inventory i)"
      using False Cons.prems by (intro Cons.IH [OF r(2)]) auto
    with r(1) False show ?thesis
      by (cases js) (simp_all add: case_prod_beta)
  qed
qed simp

subsection \<open>Properties\<close>


subsection \<open>Witness\<close>


end
