(* ===== verification/StateBroadcast.thy ===== *)
theory StateBroadcast
  imports GridState ModelInventory
begin

section \<open>State broadcasts and the trust store\<close>

text \<open>
  The data of \<^verbatim>\<open>crates/swim/src/state_broadcast.rs\<close>: the envelope a site gossips its state in and
  what kind of payload it is, the keys by which a queued broadcast replaces an older one, the trust
  store of pinned signing keys and strict grids, and the guards on revisions.
\<close>

subsection \<open>The envelope\<close>

definition STATE_BROADCAST_VERSION_V1 :: u16 where
  "STATE_BROADCAST_VERSION_V1 = 1"

definition STATE_BROADCAST_VERSION :: u16 where
  "STATE_BROADCAST_VERSION = STATE_BROADCAST_VERSION_V1"

definition DEFAULT_MAX_RETAINED_ORIGINS :: nat where
  "DEFAULT_MAX_RETAINED_ORIGINS = 1024"

definition RETAINED_SCOPE_MULTIPLIER :: nat where
  "RETAINED_SCOPE_MULTIPLIER = 16"

datatype provider_identity = ProviderIdentity
  (id_network: string) (id_site: string) (id_provider: string)

definition provider_identity_fields :: "provider_identity \<Rightarrow> string \<times> string \<times> string" where
  "provider_identity_fields i = (id_network i, id_site i, id_provider i)"

lemma provider_identity_fields_inject: "provider_identity_fields a = provider_identity_fields b \<longleftrightarrow> a = b"
  by (cases a; cases b) (simp add: provider_identity_fields_def)

instantiation provider_identity :: linorder
begin

definition less_eq_provider_identity :: "provider_identity \<Rightarrow> provider_identity \<Rightarrow> bool" where
  "less_eq_provider_identity a b \<longleftrightarrow> provider_identity_fields a \<le> provider_identity_fields b"

definition less_provider_identity :: "provider_identity \<Rightarrow> provider_identity \<Rightarrow> bool" where
  "less_provider_identity a b \<longleftrightarrow> provider_identity_fields a < provider_identity_fields b"

instance
  by standard (auto simp: less_eq_provider_identity_def less_provider_identity_def
    provider_identity_fields_inject [symmetric] less_le)

end

record provider_uid =
  pu_identity :: provider_identity
  pu_uid :: string

record state_broadcast =
  sb_version :: u16
  sb_origin_site :: string
  sb_revision :: u64
  sb_snapshot :: grid_state_snapshot
  sb_authoritative_provider_state :: bool
  sb_gateway_address :: "string option"
  sb_site_cert_pem :: "string option"
  sb_signature :: "bytes option"
  sb_signed_at_ms :: "u64 option"
  sb_grid_id :: "string option"
  sb_signals_address :: "string option"
  sb_provider_uids :: "provider_uid list"
  sb_extension_version :: "u8 option"

definition state_broadcast_new ::
  "string \<Rightarrow> u64 \<Rightarrow> grid_state_snapshot \<Rightarrow> string option \<Rightarrow> state_broadcast" where
  "state_broadcast_new origin_site revision snapshot gateway_address =
     \<lparr>sb_version = STATE_BROADCAST_VERSION, sb_origin_site = origin_site, sb_revision = revision,
      sb_snapshot = snapshot, sb_authoritative_provider_state = False, sb_gateway_address = gateway_address,
      sb_site_cert_pem = None, sb_signature = None, sb_signed_at_ms = None, sb_grid_id = None,
      sb_signals_address = None, sb_provider_uids = [], sb_extension_version = None\<rparr>"

definition with_provider_uids :: "provider_uid list \<Rightarrow> state_broadcast \<Rightarrow> state_broadcast" where
  "with_provider_uids provider_uids self = self\<lparr>sb_provider_uids := provider_uids\<rparr>"

definition with_authoritative_provider_state :: "state_broadcast \<Rightarrow> state_broadcast" where
  "with_authoritative_provider_state self = self\<lparr>sb_authoritative_provider_state := True\<rparr>"

definition with_signals_address :: "string option \<Rightarrow> state_broadcast \<Rightarrow> state_broadcast" where
  "with_signals_address signals_address self = self\<lparr>sb_signals_address := signals_address\<rparr>"

definition with_cert :: "string option \<Rightarrow> state_broadcast \<Rightarrow> state_broadcast" where
  "with_cert site_cert_pem self = self\<lparr>sb_site_cert_pem := site_cert_pem\<rparr>"

definition with_signature :: "bytes option \<Rightarrow> state_broadcast \<Rightarrow> state_broadcast" where
  "with_signature signature self = self\<lparr>sb_signature := signature\<rparr>"

definition with_signed_at :: "u64 option \<Rightarrow> state_broadcast \<Rightarrow> state_broadcast" where
  "with_signed_at signed_at_ms self = self\<lparr>sb_signed_at_ms := signed_at_ms\<rparr>"

definition with_grid_id :: "string option \<Rightarrow> state_broadcast \<Rightarrow> state_broadcast" where
  "with_grid_id grid_id self = self\<lparr>sb_grid_id := grid_id\<rparr>"

subsection \<open>Kinds of payload\<close>

definition is_metadata_only :: "state_broadcast \<Rightarrow> bool" where
  "is_metadata_only self \<longleftrightarrow>
     \<not> sb_authoritative_provider_state self \<and> fmcount (gs_providers (sb_snapshot self)) = 0 \<and>
     orset_is_empty (gs_capabilities (sb_snapshot self)) \<and> fmcount (gs_tenant_spend (sb_snapshot self)) = 0"

definition carries_grid_state :: "state_broadcast \<Rightarrow> bool" where
  "carries_grid_state self \<longleftrightarrow> \<not> is_metadata_only self"

definition carries_provider_state :: "state_broadcast \<Rightarrow> bool" where
  "carries_provider_state self \<longleftrightarrow>
     sb_authoritative_provider_state self \<or> fmcount (gs_providers (sb_snapshot self)) \<noteq> 0 \<or>
     \<not> orset_is_empty (gs_capabilities (sb_snapshot self))"

definition is_address_only :: "state_broadcast \<Rightarrow> bool" where
  "is_address_only self \<longleftrightarrow>
     (sb_gateway_address self \<noteq> None \<or> sb_signals_address self \<noteq> None) \<and>
     sb_site_cert_pem self = None \<and> is_metadata_only self"

definition is_cert_only :: "state_broadcast \<Rightarrow> bool" where
  "is_cert_only self \<longleftrightarrow>
     sb_site_cert_pem self \<noteq> None \<and> sb_gateway_address self = None \<and> sb_signals_address self = None \<and>
     is_metadata_only self"

subsection \<open>Keys\<close>

datatype state_broadcast_key_kind =
    KeyState
  | KeyGatewayAddress
  | KeyCert
  | KeyMetadata
  | KeyModelInventory (kk_network_id: string) (kk_provider_id: string) (kk_provider_uid: string) (kk_frame_index: u16)

record state_broadcast_key =
  bk_origin_site :: string
  bk_revision :: u64
  bk_grid_id :: "string option"
  bk_kind :: state_broadcast_key_kind

definition key_kind :: "state_broadcast \<Rightarrow> state_broadcast_key_kind" where
  "key_kind self =
     (if is_cert_only self then KeyCert
      else if is_address_only self then KeyGatewayAddress
      else if is_metadata_only self then KeyMetadata
      else KeyState)"

definition broadcast_key :: "state_broadcast \<Rightarrow> state_broadcast_key" where
  "broadcast_key self =
     (let kind = key_kind self
      in \<lparr>bk_origin_site = sb_origin_site self, bk_revision = sb_revision self,
          bk_grid_id = (if kind = KeyState \<or> kind = KeyGatewayAddress then sb_grid_id self else None),
          bk_kind = kind\<rparr>)"

definition model_inventory_key :: "model_inventory_broadcast \<Rightarrow> state_broadcast_key" where
  "model_inventory_key broadcast =
     \<lparr>bk_origin_site = mb_origin_site broadcast, bk_revision = mf_inventory_revision (mb_frame broadcast),
      bk_grid_id = Some (mb_grid_id broadcast),
      bk_kind = KeyModelInventory (mf_network_id (mb_frame broadcast)) (mf_provider_id (mb_frame broadcast))
        (mf_provider_uid (mb_frame broadcast)) (mf_frame_index (mb_frame broadcast))\<rparr>"

definition invalidates :: "state_broadcast_key \<Rightarrow> state_broadcast_key \<Rightarrow> bool" where
  "invalidates self other \<longleftrightarrow>
     bk_origin_site self = bk_origin_site other \<and> bk_grid_id self = bk_grid_id other \<and>
     (case (bk_kind self, bk_kind other) of
        (KeyModelInventory left_network left_provider left_uid left_frame,
         KeyModelInventory right_network right_provider right_uid right_frame) \<Rightarrow>
          left_network = right_network \<and> left_provider = right_provider \<and> left_uid = right_uid \<and>
          left_frame = right_frame
      | (left, right) \<Rightarrow> left = right) \<and>
     bk_revision self \<ge> bk_revision other"

subsection \<open>The trust store\<close>

definition MAX_PINNED_KEYS_PER_ORIGIN :: nat where
  "MAX_PINNED_KEYS_PER_ORIGIN = 2"

datatype pin_key = PinSite string | PinGrid (pin_grid: string) (pin_site: string)

record trust_store =
  ts_provider_networks :: "(string, string) fmap"
  ts_pins :: "(pin_key, bytes list) fmap"
  ts_strict :: "string fset"
  ts_state_admission_held :: bool

definition trust_store_default :: trust_store where
  "trust_store_default = \<lparr>ts_provider_networks = fmempty, ts_pins = fmempty, ts_strict = {||},
     ts_state_admission_held = False\<rparr>"

definition trust_pin :: "trust_store \<Rightarrow> pin_key \<Rightarrow> bytes list option" where
  "trust_pin self key = fmlookup (ts_pins self) key"

definition set_pin :: "pin_key \<Rightarrow> bytes list \<Rightarrow> trust_store \<Rightarrow> trust_store" where
  "set_pin key keys self = self\<lparr>ts_pins := fmupd key keys (ts_pins self)\<rparr>"

definition remove_pin :: "pin_key \<Rightarrow> trust_store \<Rightarrow> trust_store" where
  "remove_pin key self = self\<lparr>ts_pins := fmdrop key (ts_pins self)\<rparr>"

definition is_strict :: "trust_store \<Rightarrow> string \<Rightarrow> bool" where
  "is_strict self grid \<longleftrightarrow> grid |\<in>| ts_strict self"

definition store_hold_admission :: "trust_store \<Rightarrow> trust_store" where
  "store_hold_admission self = self\<lparr>ts_state_admission_held := True\<rparr>"

definition store_open_admission :: "trust_store \<Rightarrow> trust_store" where
  "store_open_admission self = self\<lparr>ts_state_admission_held := False\<rparr>"

definition enforce :: "string \<Rightarrow> trust_store \<Rightarrow> trust_store" where
  "enforce grid self = self\<lparr>ts_strict := finsert grid (ts_strict self)\<rparr>"

definition provider_network :: "trust_store \<Rightarrow> string \<Rightarrow> string option" where
  "provider_network self grid = fmlookup (ts_provider_networks self) grid"

definition bind_provider_network :: "string \<Rightarrow> string \<Rightarrow> trust_store \<Rightarrow> trust_store" where
  "bind_provider_network grid network self =
     self\<lparr>ts_provider_networks := fmupd grid network (ts_provider_networks self)\<rparr>"

definition forget_grid :: "string \<Rightarrow> trust_store \<Rightarrow> trust_store" where
  "forget_grid grid self =
     self\<lparr>ts_provider_networks := fmdrop grid (ts_provider_networks self),
          ts_strict := ts_strict self |-| {|grid|},
          ts_pins := fmretain (\<lambda>key _. \<not> (case key of PinGrid pinned _ \<Rightarrow> pinned = grid | PinSite _ \<Rightarrow> False))
            (ts_pins self)\<rparr>"

definition pinned_in_any_grid :: "trust_store \<Rightarrow> string \<Rightarrow> bool" where
  "pinned_in_any_grid self site \<longleftrightarrow>
     fBex (fmdom (ts_pins self)) (\<lambda>key. case key of PinGrid _ pinned \<Rightarrow> pinned = site | PinSite _ \<Rightarrow> False)"

definition any_strict :: "trust_store \<Rightarrow> bool" where
  "any_strict self \<longleftrightarrow> ts_strict self \<noteq> {||}"

subsection \<open>Scopes and revisions\<close>

datatype provider_state_scope = ProviderStateScope (sc_origin_site: string) (sc_grid_id: "string option")

definition provider_state_scope_fields :: "provider_state_scope \<Rightarrow> string \<times> string option" where
  "provider_state_scope_fields s = (sc_origin_site s, sc_grid_id s)"

lemma provider_state_scope_fields_inject:
  "provider_state_scope_fields a = provider_state_scope_fields b \<longleftrightarrow> a = b"
  by (cases a; cases b) (simp add: provider_state_scope_fields_def)

instantiation provider_state_scope :: linorder
begin

definition less_eq_provider_state_scope :: "provider_state_scope \<Rightarrow> provider_state_scope \<Rightarrow> bool" where
  "less_eq_provider_state_scope a b \<longleftrightarrow> provider_state_scope_fields a \<le> provider_state_scope_fields b"

definition less_provider_state_scope :: "provider_state_scope \<Rightarrow> provider_state_scope \<Rightarrow> bool" where
  "less_provider_state_scope a b \<longleftrightarrow> provider_state_scope_fields a < provider_state_scope_fields b"

instance
  by standard (auto simp: less_eq_provider_state_scope_def less_provider_state_scope_def
    provider_state_scope_fields_inject [symmetric] less_le)

end

definition broadcast_scope :: "state_broadcast \<Rightarrow> provider_state_scope" where
  "broadcast_scope self = ProviderStateScope (sb_origin_site self) (sb_grid_id self)"

datatype lane = Gateway | Cert | Signals

definition REVISION_LEASE_SPAN :: u64 where
  "REVISION_LEASE_SPAN = 256"

definition max_leased_revision :: "u64 \<Rightarrow> u64" where
  "max_leased_revision now_ms =
     (let skew = u64_from_or_max (MAX_LEASE_SKEW_SECS * 1000)
      in saturating_add (saturating_add now_ms REVISION_LEASE_SPAN) skew)"

text \<open>The time since the epoch in nanoseconds, zero for a clock before it.\<close>

definition wall_clock :: "clock \<Rightarrow> nat" where
  "wall_clock now = (if now < 0 then 0 else nat now)"

definition max_metadata_revision :: "lane \<Rightarrow> nat \<Rightarrow> u64" where
  "max_metadata_revision lane now = (case lane of
     Cert \<Rightarrow> u64_from_or_max (now + MAX_LEASE_SKEW_SECS * 1000000000)
   | _ \<Rightarrow> max_leased_revision (u64_from_or_max (now div 1000000)))"

definition outranks :: "u64 \<Rightarrow> u64 \<Rightarrow> u64 \<Rightarrow> bool" where
  "outranks held incoming cap \<longleftrightarrow> held > incoming \<and> (held \<le> cap \<or> incoming > cap)"

end
