(* ===== verification/WireFormat.thy ===== *)
theory WireFormat
  imports StateBroadcast
begin

section \<open>The wire format of state broadcasts\<close>

text \<open>
  \<^verbatim>\<open>StateBroadcast::encode\<close>, \<^verbatim>\<open>decode\<close> and \<^verbatim>\<open>signable_bytes\<close> of
  \<^verbatim>\<open>crates/swim/src/state_broadcast.rs\<close>: the base payload, the positional extension, the signals
  address and the framed provider-state extension, with the fallbacks for every earlier layout. The
  serialisation of each structure is an argument, a field of the record \<open>codec\<close>; a decoder returns
  the value and the number of bytes it read.
\<close>

subsection \<open>Structures on the wire\<close>

definition PROVIDER_STATE_EXTENSION_MAGIC :: bytes where
  "PROVIDER_STATE_EXTENSION_MAGIC = string_bytes ''AGNPSEXT''"

definition PROVIDER_STATE_EXTENSION_VERSION_V1 :: u8 where
  "PROVIDER_STATE_EXTENSION_VERSION_V1 = 1"

definition PROVIDER_STATE_EXTENSION_VERSION_V2 :: u8 where
  "PROVIDER_STATE_EXTENSION_VERSION_V2 = 2"

definition SIGNATURE_DOMAIN :: bytes where
  "SIGNATURE_DOMAIN = string_bytes ''praxis-grid/swim/state-broadcast/v1''"

record state_broadcast_v1 =
  v1_version :: u16
  v1_origin_site :: string
  v1_revision :: u64
  v1_snapshot :: grid_state_snapshot

record broadcast_extension =
  bx_gateway_address :: "string option"
  bx_site_cert_pem :: "string option"
  bx_signature :: "bytes option"
  bx_signed_at_ms :: "u64 option"
  bx_grid_id :: "string option"
  bx_provider_capacity_weights :: "(string, u32) fmap"

record provider_state_extension_header =
  ph_magic :: bytes
  ph_payload_length :: u32
  ph_version :: u8

record provider_state_extension_v1 =
  p1_authoritative_provider_state :: bool
  p1_provider_tools :: "(string, string list) fmap"

record provider_metadata =
  md_tools :: "string list"
  md_uid :: "string option"

record provider_state_extension_v2 =
  p2_authoritative_provider_state :: bool
  p2_providers :: "(string, provider_metadata) fmap"

record pre_capacity_broadcast_extension =
  pc_gateway_address :: "string option"
  pc_site_cert_pem :: "string option"
  pc_signature :: "bytes option"
  pc_signed_at_ms :: "u64 option"
  pc_grid_id :: "string option"

record pre_timestamp_broadcast_extension =
  pt_gateway_address :: "string option"
  pt_site_cert_pem :: "string option"
  pt_signature :: "bytes option"

record pre_signature_broadcast_extension =
  pg_gateway_address :: "string option"
  pg_site_cert_pem :: "string option"

type_synonym 'a encoder = "'a \<Rightarrow> string + bytes"
type_synonym 'a decoder = "bytes \<Rightarrow> string + 'a \<times> nat"

record codec =
  enc_v1 :: "state_broadcast_v1 encoder"
  dec_v1 :: "state_broadcast_v1 decoder"
  enc_extension :: "broadcast_extension encoder"
  dec_extension :: "broadcast_extension decoder"
  dec_pre_capacity :: "pre_capacity_broadcast_extension decoder"
  dec_pre_timestamp :: "pre_timestamp_broadcast_extension decoder"
  dec_pre_signature :: "pre_signature_broadcast_extension decoder"
  dec_string :: "string decoder"
  enc_signals :: "string option encoder"
  dec_signals :: "string option decoder"
  enc_header :: "provider_state_extension_header encoder"
  dec_header :: "provider_state_extension_header decoder"
  enc_provider_v1 :: "provider_state_extension_v1 encoder"
  dec_provider_v1 :: "provider_state_extension_v1 decoder"
  enc_provider_v2 :: "provider_state_extension_v2 encoder"
  dec_provider_v2 :: "provider_state_extension_v2 decoder"

definition extension_default :: broadcast_extension where
  "extension_default = \<lparr>bx_gateway_address = None, bx_site_cert_pem = None, bx_signature = None,
     bx_signed_at_ms = None, bx_grid_id = None, bx_provider_capacity_weights = fmempty\<rparr>"

definition provider_v2_default :: provider_state_extension_v2 where
  "provider_v2_default = \<lparr>p2_authoritative_provider_state = False, p2_providers = fmempty\<rparr>"

subsection \<open>Provider keys\<close>

definition provider_capacity_key :: "provider_state \<Rightarrow> string" where
  "provider_capacity_key provider =
     ps_network_id provider @ ''/'' @ ps_site_id provider @ ''/'' @ ps_provider_id provider"

definition provider_identity_of :: "provider_state \<Rightarrow> provider_identity" where
  "provider_identity_of provider =
     ProviderIdentity (ps_network_id provider) (ps_site_id provider) (ps_provider_id provider)"

definition apply_capacity_weight :: "u32 \<Rightarrow> provider_state \<Rightarrow> bool \<times> provider_state" where
  "apply_capacity_weight weight provider =
     (if is_valid_capacity_weight weight then (True, provider\<lparr>ps_capacity_weight := weight\<rparr>)
      else (False, provider))"

text \<open>\<^verbatim>\<open>key.split('/')\<close>: the parts between slashes, one part when there is none.\<close>

fun split_slash :: "string \<Rightarrow> string list" where
  "split_slash [] = [[]]"
| "split_slash (c # s) = (if c = CHR ''/'' then [] # split_slash s
     else case split_slash s of [] \<Rightarrow> [[c]] | part # parts \<Rightarrow> (c # part) # parts)"

definition parse_provider_identity :: "string \<Rightarrow> provider_identity option" where
  "parse_provider_identity key = (case split_slash key of
     [network_id, site_id, provider_id] \<Rightarrow>
       if network_id = [] \<or> site_id = [] \<or> provider_id = [] then None
       else Some (ProviderIdentity network_id site_id provider_id)
   | _ \<Rightarrow> None)"

subsection \<open>Encoding\<close>

definition capacity_weights_of :: "state_broadcast \<Rightarrow> (string, u32) fmap" where
  "capacity_weights_of self = collect_map (map (\<lambda>provider. (provider_capacity_key provider, ps_capacity_weight provider))
     (filter (\<lambda>provider. ps_capacity_weight provider \<noteq> 1) (fmvalues (gs_providers (sb_snapshot self)))))"

definition uid_map_of :: "state_broadcast \<Rightarrow> (provider_identity, string) fmap" where
  "uid_map_of self = collect_map (map (\<lambda>u. (pu_identity u, pu_uid u)) (sb_provider_uids self))"

definition provider_extension_of :: "state_broadcast \<Rightarrow> provider_state_extension_v2" where
  "provider_extension_of self =
     (let provider_uids = uid_map_of self
      in \<lparr>p2_authoritative_provider_state = sb_authoritative_provider_state self,
          p2_providers = fold (\<lambda>provider providers.
            let uid = fmlookup provider_uids (provider_identity_of provider)
            in if ps_tools provider \<noteq> [] \<or> uid \<noteq> None
               then fmupd (provider_capacity_key provider) \<lparr>md_tools = ps_tools provider, md_uid = uid\<rparr> providers
               else providers) (fmvalues (gs_providers (sb_snapshot self))) fmempty\<rparr>)"

definition provider_v1_of :: "state_broadcast \<Rightarrow> provider_state_extension_v1" where
  "provider_v1_of self =
     \<lparr>p1_authoritative_provider_state = sb_authoritative_provider_state self,
      p1_provider_tools = collect_map (map (\<lambda>provider. (provider_capacity_key provider, ps_tools provider))
        (filter (\<lambda>provider. ps_tools provider \<noteq> []) (fmvalues (gs_providers (sb_snapshot self)))))\<rparr>"

definition extension_of :: "state_broadcast \<Rightarrow> broadcast_extension" where
  "extension_of self = \<lparr>bx_gateway_address = sb_gateway_address self, bx_site_cert_pem = sb_site_cert_pem self,
     bx_signature = sb_signature self, bx_signed_at_ms = sb_signed_at_ms self, bx_grid_id = sb_grid_id self,
     bx_provider_capacity_weights = capacity_weights_of self\<rparr>"

definition requires_v2 :: "state_broadcast \<Rightarrow> bool" where
  "requires_v2 self \<longleftrightarrow> sb_extension_version self = Some PROVIDER_STATE_EXTENSION_VERSION_V2 \<or>
     list_ex (\<lambda>provider. md_uid provider \<noteq> None) (fmvalues (p2_providers (provider_extension_of self)))"

definition provider_header :: "u8 \<Rightarrow> bytes \<Rightarrow> provider_state_extension_header" where
  "provider_header version payload = \<lparr>ph_magic = PROVIDER_STATE_EXTENSION_MAGIC,
     ph_payload_length = word_of_int (int (length payload)), ph_version = version\<rparr>"

text \<open>The framed provider-state extension, header and payload.\<close>

definition encode_provider_frame :: "codec \<Rightarrow> state_broadcast \<Rightarrow> string + bytes" where
  "encode_provider_frame c self =
     try_bind
       (if requires_v2 self
        then try_bind (enc_provider_v2 c (provider_extension_of self)) (\<lambda>payload.
               Inr (PROVIDER_STATE_EXTENSION_VERSION_V2, payload))
        else try_bind (enc_provider_v1 c (provider_v1_of self)) (\<lambda>payload.
               Inr (PROVIDER_STATE_EXTENSION_VERSION_V1, payload)))
       (\<lambda>(version, payload).
          if int (length payload) \<ge> 2 ^ 32
          then Inl ''provider-state extension exceeds the frame length limit''
          else try_bind (enc_header c (provider_header version payload)) (\<lambda>header. Inr (header @ payload)))"

definition carries_provider_extension :: "state_broadcast \<Rightarrow> bool" where
  "carries_provider_extension self \<longleftrightarrow> (let extension = provider_extension_of self
     in p2_authoritative_provider_state extension \<or> fmcount (p2_providers extension) \<noteq> 0)"

definition carries_extension :: "state_broadcast \<Rightarrow> bool" where
  "carries_extension self \<longleftrightarrow> sb_gateway_address self \<noteq> None \<or> sb_site_cert_pem self \<noteq> None \<or>
     sb_signature self \<noteq> None \<or> sb_signed_at_ms self \<noteq> None \<or> sb_grid_id self \<noteq> None \<or>
     fmcount (capacity_weights_of self) \<noteq> 0 \<or> sb_signals_address self \<noteq> None \<or> carries_provider_extension self"

definition base_payload :: "state_broadcast \<Rightarrow> state_broadcast_v1" where
  "base_payload self = \<lparr>v1_version = sb_version self, v1_origin_site = sb_origin_site self,
     v1_revision = sb_revision self, v1_snapshot = sb_snapshot self\<rparr>"

definition broadcast_encode :: "codec \<Rightarrow> state_broadcast \<Rightarrow> string + bytes" where
  "broadcast_encode c self =
     try_bind (enc_v1 c (base_payload self)) (\<lambda>base.
     if \<not> carries_extension self then Inr base
     else try_bind (enc_extension c (extension_of self)) (\<lambda>extension.
       try_bind
         (if sb_signals_address self \<noteq> None \<or> carries_provider_extension self
          then enc_signals c (sb_signals_address self) else Inr []) (\<lambda>signals.
       try_bind (if carries_provider_extension self then encode_provider_frame c self else Inr []) (\<lambda>frame.
       Inr (base @ extension @ signals @ frame)))))"

definition signable_bytes :: "codec \<Rightarrow> state_broadcast \<Rightarrow> string + bytes" where
  "signable_bytes c self =
     (let unsigned = self\<lparr>sb_signature := None\<rparr>
      in try_bind (broadcast_encode c unsigned) (\<lambda>encoded. Inr (SIGNATURE_DOMAIN @ encoded)))"

subsection \<open>Decoding\<close>

definition decode_provider_state_extension ::
  "codec \<Rightarrow> bytes \<Rightarrow> provider_state_extension_v2 \<times> u8 option" where
  "decode_provider_state_extension c remaining =
     (if remaining = [] then (provider_v2_default, None)
      else case dec_header c remaining of Inl _ \<Rightarrow> (provider_v2_default, None)
      | Inr (header, header_length) \<Rightarrow>
      if ph_magic header \<noteq> PROVIDER_STATE_EXTENSION_MAGIC \<or>
         \<not> (ph_version header = PROVIDER_STATE_EXTENSION_VERSION_V1 \<or>
            ph_version header = PROVIDER_STATE_EXTENSION_VERSION_V2)
      then (provider_v2_default, None)
      else
      let payload_length = nat (uint (ph_payload_length header));
          payload_end = header_length + payload_length
      in if payload_end > length remaining then (provider_v2_default, None)
      else
      let payload = take payload_length (drop header_length remaining)
      in if ph_version header = PROVIDER_STATE_EXTENSION_VERSION_V1
      then (case dec_provider_v1 c payload of Inl _ \<Rightarrow> (provider_v2_default, None)
            | Inr (extension, consumed) \<Rightarrow>
                if consumed = length payload
                then (\<lparr>p2_authoritative_provider_state = p1_authoritative_provider_state extension,
                       p2_providers = fmmap (\<lambda>tools. \<lparr>md_tools = tools, md_uid = None\<rparr>)
                         (p1_provider_tools extension)\<rparr>,
                      Some PROVIDER_STATE_EXTENSION_VERSION_V1)
                else (provider_v2_default, None))
      else (case dec_provider_v2 c payload of Inl _ \<Rightarrow> (provider_v2_default, None)
            | Inr (extension, consumed) \<Rightarrow>
                if consumed = length payload then (extension, Some PROVIDER_STATE_EXTENSION_VERSION_V2)
                else (provider_v2_default, None)))"

definition decode_extension ::
  "codec \<Rightarrow> bytes \<Rightarrow> broadcast_extension \<times> string option \<times> provider_state_extension_v2 \<times> u8 option" where
  "decode_extension c remaining =
     (if remaining = [] then (extension_default, None, provider_v2_default, None)
      else case dec_extension c remaining of
        Inr (ext, used) \<Rightarrow>
          (let after_extension = drop used remaining
           in case (if after_extension = [] then Some (None, 0)
                    else case dec_signals c after_extension of Inl _ \<Rightarrow> None | Inr r \<Rightarrow> Some r) of
                None \<Rightarrow> (ext, None, provider_v2_default, None)
              | Some (signals, signals_used) \<Rightarrow>
                  let framed = drop signals_used after_extension;
                      (provider_state, provider_state_version) = decode_provider_state_extension c framed
                  in (ext, signals, provider_state, provider_state_version))
      | Inl _ \<Rightarrow>
          (let ext = (case dec_pre_capacity c remaining of
             Inr (ext, _) \<Rightarrow> extension_default\<lparr>bx_gateway_address := pc_gateway_address ext,
               bx_site_cert_pem := pc_site_cert_pem ext, bx_signature := pc_signature ext,
               bx_signed_at_ms := pc_signed_at_ms ext, bx_grid_id := pc_grid_id ext\<rparr>
           | Inl _ \<Rightarrow> (case dec_pre_timestamp c remaining of
             Inr (ext, _) \<Rightarrow> extension_default\<lparr>bx_gateway_address := pt_gateway_address ext,
               bx_site_cert_pem := pt_site_cert_pem ext, bx_signature := pt_signature ext\<rparr>
           | Inl _ \<Rightarrow> (case dec_pre_signature c remaining of
             Inr (ext, _) \<Rightarrow> extension_default\<lparr>bx_gateway_address := pg_gateway_address ext,
               bx_site_cert_pem := pg_site_cert_pem ext\<rparr>
           | Inl _ \<Rightarrow> extension_default\<lparr>bx_gateway_address :=
               (case dec_string c remaining of Inr (gateway, _) \<Rightarrow> Some gateway | Inl _ \<Rightarrow> None)\<rparr>)))
           in (ext, None, provider_v2_default, None)))"

text \<open>What the extensions restore in one provider record of the base snapshot.\<close>

definition restore_provider ::
  "broadcast_extension \<Rightarrow> provider_state_extension_v2 \<Rightarrow> provider_state \<Rightarrow> provider_state" where
  "restore_provider ext extension provider =
     (let key = provider_capacity_key provider;
          provider = (case fmlookup (bx_provider_capacity_weights ext) key of
            None \<Rightarrow> provider | Some weight \<Rightarrow> snd (apply_capacity_weight weight provider))
      in case fmlookup (p2_providers extension) key of
           None \<Rightarrow> provider | Some metadata \<Rightarrow> provider\<lparr>ps_tools := md_tools metadata\<rparr>)"

definition extension_uids :: "provider_state_extension_v2 \<Rightarrow> provider_uid list" where
  "extension_uids extension = List.map_filter (\<lambda>(key, metadata).
     case md_uid metadata of None \<Rightarrow> None
     | Some uid \<Rightarrow> map_option (\<lambda>identity. \<lparr>pu_identity = identity, pu_uid = uid\<rparr>) (parse_provider_identity key))
     (fmentries (p2_providers extension))"

definition broadcast_decode :: "codec \<Rightarrow> bytes \<Rightarrow> string + state_broadcast" where
  "broadcast_decode c bytes =
     try_bind (dec_v1 c bytes) (\<lambda>(v1, consumed).
     let remaining = drop consumed bytes;
         (ext, signals_address, extension, extension_version) = decode_extension c remaining;
         snapshot = (v1_snapshot v1)\<lparr>gs_providers := fmmap (restore_provider ext extension) (gs_providers (v1_snapshot v1))\<rparr>
     in Inr \<lparr>sb_version = v1_version v1, sb_origin_site = v1_origin_site v1, sb_revision = v1_revision v1,
         sb_snapshot = snapshot, sb_authoritative_provider_state = p2_authoritative_provider_state extension,
         sb_gateway_address = bx_gateway_address ext, sb_site_cert_pem = bx_site_cert_pem ext,
         sb_signature = bx_signature ext, sb_signed_at_ms = bx_signed_at_ms ext, sb_grid_id = bx_grid_id ext,
         sb_signals_address = signals_address, sb_provider_uids = extension_uids extension,
         sb_extension_version = extension_version\<rparr>)"

end
