(* ===== verification/WireRoundTrip.thy ===== *)
theory WireRoundTrip
  imports WireFormat
begin

section \<open>The wire format: decoding what was encoded\<close>

text \<open>
  A broadcast read back from its own encoding is the broadcast that was sent, and the bytes its
  signature is checked against are the bytes that were signed.
\<close>

subsection \<open>Provider keys\<close>

lemma provider_capacity_key_pkey [simp]: "provider_capacity_key p = pkey p"
  by (simp add: provider_capacity_key_def provider_key_def)

lemma split_slash_Cons: "slash_free a \<Longrightarrow> split_slash (a @ CHR ''/'' # s) = a # split_slash s"
  by (induction a) (auto simp: slash_free_def)

lemma split_slash_single: "slash_free a \<Longrightarrow> split_slash a = [a]"
  by (induction a) (auto simp: slash_free_def)

text \<open>Identities whose three names are non-empty and have no slash.\<close>

definition identity_wf :: "provider_identity \<Rightarrow> bool" where
  "identity_wf i \<longleftrightarrow> id_network i \<noteq> [] \<and> id_site i \<noteq> [] \<and> id_provider i \<noteq> [] \<and>
     slash_free (id_network i) \<and> slash_free (id_site i) \<and> slash_free (id_provider i)"

lemma parse_provider_identity_key:
  assumes "identity_wf (provider_identity_of p)"
  shows "parse_provider_identity (pkey p) = Some (provider_identity_of p)"
  using assms
  by (simp add: identity_wf_def provider_identity_of_def parse_provider_identity_def provider_key_def
    split_slash_Cons split_slash_single)

lemma identity_pkey: "provider_identity_of p = provider_identity_of q \<Longrightarrow> pkey p = pkey q"
  by (simp add: provider_identity_of_def)

subsection \<open>What the extensions hold\<close>

lemma keyed_collect_lookup:
  assumes "providers_keyed m"
  shows "fmlookup (collect_map (map (\<lambda>p. (pkey p, f p)) (filter Q (fmvalues m)))) k =
    (case fmlookup m k of None \<Rightarrow> None | Some p \<Rightarrow> if Q p then Some (f p) else None)"
proof -
  have "distinct (map fst (map (\<lambda>p. (pkey p, f p)) (filter Q (fmvalues m))))"
    using keyed_distinct [OF assms] by (simp add: comp_def distinct_map_filter)
  from collect_map_lookup_distinct [OF this] show ?thesis
    by (simp only: map_of_filter_keyed [OF assms])
qed

lemma fold_insert_if:
  "fold (\<lambda>x m. if Q x then fmupd (k x) (v x) m else m) xs m =
    fold (\<lambda>(k, v) m. fmupd k v m) (map (\<lambda>x. (k x, v x)) (filter Q xs)) m"
  by (induction xs arbitrary: m) simp_all

definition uid_of :: "state_broadcast \<Rightarrow> provider_state \<Rightarrow> string option" where
  "uid_of b p = fmlookup (uid_map_of b) (provider_identity_of p)"

lemma capacity_weights_lookup:
  "providers_keyed (gs_providers (sb_snapshot b)) \<Longrightarrow> fmlookup (capacity_weights_of b) k =
    (case fmlookup (gs_providers (sb_snapshot b)) k of None \<Rightarrow> None
     | Some p \<Rightarrow> if ps_capacity_weight p \<noteq> 1 then Some (ps_capacity_weight p) else None)"
  by (simp add: capacity_weights_of_def keyed_collect_lookup)

lemma provider_extension_lookup:
  "providers_keyed (gs_providers (sb_snapshot b)) \<Longrightarrow> fmlookup (p2_providers (provider_extension_of b)) k =
    (case fmlookup (gs_providers (sb_snapshot b)) k of None \<Rightarrow> None
     | Some p \<Rightarrow> if ps_tools p \<noteq> [] \<or> uid_of b p \<noteq> None
                 then Some \<lparr>md_tools = ps_tools p, md_uid = uid_of b p\<rparr> else None)"
  unfolding provider_extension_of_def Let_def uid_of_def
  by (simp add: fold_insert_if keyed_collect_lookup [unfolded collect_map_def] split: option.split)

lemma provider_v1_lookup:
  "providers_keyed (gs_providers (sb_snapshot b)) \<Longrightarrow> fmlookup (p1_provider_tools (provider_v1_of b)) k =
    (case fmlookup (gs_providers (sb_snapshot b)) k of None \<Rightarrow> None
     | Some p \<Rightarrow> if ps_tools p \<noteq> [] then Some (ps_tools p) else None)"
  by (simp add: provider_v1_of_def keyed_collect_lookup)

lemma authoritative_extension [simp]:
  "p2_authoritative_provider_state (provider_extension_of b) = sb_authoritative_provider_state b"
  "p1_authoritative_provider_state (provider_v1_of b) = sb_authoritative_provider_state b"
  by (simp_all add: provider_extension_of_def provider_v1_of_def Let_def)

text \<open>
  The broadcasts a site sends: provider records stored under their keys with capacities in range,
  and UIDs of providers of the snapshot only, one each, under names that can be parsed back.
\<close>

definition broadcast_wf :: "state_broadcast \<Rightarrow> bool" where
  "broadcast_wf b \<longleftrightarrow> providers_keyed (gs_providers (sb_snapshot b)) \<and>
     fmpred (\<lambda>_ p. is_valid_capacity_weight (ps_capacity_weight p)) (gs_providers (sb_snapshot b)) \<and>
     distinct (map pu_identity (sb_provider_uids b)) \<and>
     (\<forall>u\<in>set (sb_provider_uids b). identity_wf (pu_identity u) \<and>
        (\<exists>p\<in>set (fmvalues (gs_providers (sb_snapshot b))). provider_identity_of p = pu_identity u))"

lemma uid_map_lookup:
  assumes "broadcast_wf b"
  shows "fmlookup (uid_map_of b) i = Some u \<longleftrightarrow> \<lparr>pu_identity = i, pu_uid = u\<rparr> \<in> set (sb_provider_uids b)"
proof -
  have d: "distinct (map fst (map (\<lambda>u. (pu_identity u, pu_uid u)) (sb_provider_uids b)))"
    using assms by (simp add: broadcast_wf_def comp_def)
  have "fmlookup (uid_map_of b) i = Some u \<longleftrightarrow> (i, u) \<in> set (map (\<lambda>u. (pu_identity u, pu_uid u)) (sb_provider_uids b))"
    unfolding uid_map_of_def collect_map_lookup_distinct [OF d] using map_of_eq_Some_iff [OF d] by simp
  also have "\<dots> \<longleftrightarrow> \<lparr>pu_identity = i, pu_uid = u\<rparr> \<in> set (sb_provider_uids b)"
  proof
    assume "(i, u) \<in> set (map (\<lambda>u. (pu_identity u, pu_uid u)) (sb_provider_uids b))"
    then obtain x where "x \<in> set (sb_provider_uids b)" "i = pu_identity x" "u = pu_uid x" by auto
    moreover from this have "\<lparr>pu_identity = i, pu_uid = u\<rparr> = x" by simp
    ultimately show "\<lparr>pu_identity = i, pu_uid = u\<rparr> \<in> set (sb_provider_uids b)" by (simp only:)
  qed force
  finally show ?thesis .
qed

lemma uid_of_wf:
  assumes "broadcast_wf b" "uid_of b p = Some u"
  shows "identity_wf (provider_identity_of p)" "\<lparr>pu_identity = provider_identity_of p, pu_uid = u\<rparr> \<in> set (sb_provider_uids b)"
proof -
  show "\<lparr>pu_identity = provider_identity_of p, pu_uid = u\<rparr> \<in> set (sb_provider_uids b)"
    using assms uid_map_lookup by (simp add: uid_of_def)
  then show "identity_wf (provider_identity_of p)"
    using assms(1) by (auto simp: broadcast_wf_def)
qed

subsection \<open>What a codec is assumed to do\<close>

text \<open>
  A structure's encoding is not empty, and its decoder reads it back from the front of any bytes,
  up to the fields the structure does not serialise.
\<close>

definition reads_back :: "'a encoder \<Rightarrow> 'a decoder \<Rightarrow> ('a \<Rightarrow> 'a) \<Rightarrow> 'a \<Rightarrow> bool" where
  "reads_back enc dec f x \<longleftrightarrow>
     (\<forall>bs rest. enc x = Inr bs \<longrightarrow> bs \<noteq> [] \<and> dec (bs @ rest) = Inr (f x, length bs))"

text \<open>The two fields of a provider record that are skipped take their defaults.\<close>

definition strip_provider :: "provider_state \<Rightarrow> provider_state" where
  "strip_provider p = p\<lparr>ps_tools := [], ps_capacity_weight := default_capacity_weight\<rparr>"

definition strip_payload :: "state_broadcast_v1 \<Rightarrow> state_broadcast_v1" where
  "strip_payload v = v\<lparr>v1_snapshot := (v1_snapshot v)\<lparr>gs_providers := fmmap strip_provider (gs_providers (v1_snapshot v))\<rparr>\<rparr>"

definition codec_reads :: "codec \<Rightarrow> state_broadcast \<Rightarrow> bool" where
  "codec_reads c b \<longleftrightarrow>
     reads_back (enc_v1 c) (dec_v1 c) strip_payload (base_payload b) \<and>
     reads_back (enc_extension c) (dec_extension c) id (extension_of b) \<and>
     reads_back (enc_signals c) (dec_signals c) id (sb_signals_address b) \<and>
     reads_back (enc_provider_v1 c) (dec_provider_v1 c) id (provider_v1_of b) \<and>
     reads_back (enc_provider_v2 c) (dec_provider_v2 c) id (provider_extension_of b) \<and>
     (\<forall>payload. enc_provider_v1 c (provider_v1_of b) = Inr payload \<longrightarrow>
        reads_back (enc_header c) (dec_header c) id (provider_header PROVIDER_STATE_EXTENSION_VERSION_V1 payload)) \<and>
     (\<forall>payload. enc_provider_v2 c (provider_extension_of b) = Inr payload \<longrightarrow>
        reads_back (enc_header c) (dec_header c) id (provider_header PROVIDER_STATE_EXTENSION_VERSION_V2 payload))"

lemma codec_readsD:
  assumes "codec_reads c b"
  shows "reads_back (enc_v1 c) (dec_v1 c) strip_payload (base_payload b)"
    "reads_back (enc_extension c) (dec_extension c) id (extension_of b)"
    "reads_back (enc_signals c) (dec_signals c) id (sb_signals_address b)"
    "reads_back (enc_provider_v1 c) (dec_provider_v1 c) id (provider_v1_of b)"
    "reads_back (enc_provider_v2 c) (dec_provider_v2 c) id (provider_extension_of b)"
  using assms by (simp_all add: codec_reads_def)

lemma reads_backD:
  "reads_back enc dec f x \<Longrightarrow> enc x = Inr bs \<Longrightarrow> bs \<noteq> []"
  "reads_back enc dec f x \<Longrightarrow> enc x = Inr bs \<Longrightarrow> dec (bs @ rest) = Inr (f x, length bs)"
  "reads_back enc dec f x \<Longrightarrow> enc x = Inr bs \<Longrightarrow> dec bs = Inr (f x, length bs)"
  unfolding reads_back_def by (blast, blast, metis append_Nil2)

subsection \<open>The provider-state frame\<close>

definition decoded_extension :: "state_broadcast \<Rightarrow> provider_state_extension_v2" where
  "decoded_extension b = (if requires_v2 b then provider_extension_of b
     else \<lparr>p2_authoritative_provider_state = sb_authoritative_provider_state b,
       p2_providers = fmmap (\<lambda>tools. \<lparr>md_tools = tools, md_uid = None\<rparr>) (p1_provider_tools (provider_v1_of b))\<rparr>)"

definition decoded_version :: "state_broadcast \<Rightarrow> u8" where
  "decoded_version b = (if requires_v2 b then PROVIDER_STATE_EXTENSION_VERSION_V2
     else PROVIDER_STATE_EXTENSION_VERSION_V1)"

lemma decode_frame:
  assumes "reads_back (enc_header c) (dec_header c) id (provider_header version payload)"
    and "enc_header c (provider_header version payload) = Inr header" "\<not> int (length payload) \<ge> 2 ^ 32"
    and "version = PROVIDER_STATE_EXTENSION_VERSION_V1 \<or> version = PROVIDER_STATE_EXTENSION_VERSION_V2"
  shows "decode_provider_state_extension c (header @ payload) =
    (if version = PROVIDER_STATE_EXTENSION_VERSION_V1
     then (case dec_provider_v1 c payload of Inl _ \<Rightarrow> (provider_v2_default, None)
           | Inr (extension, consumed) \<Rightarrow>
               if consumed = length payload
               then (\<lparr>p2_authoritative_provider_state = p1_authoritative_provider_state extension,
                      p2_providers = fmmap (\<lambda>tools. \<lparr>md_tools = tools, md_uid = None\<rparr>)
                        (p1_provider_tools extension)\<rparr>, Some PROVIDER_STATE_EXTENSION_VERSION_V1)
               else (provider_v2_default, None))
     else (case dec_provider_v2 c payload of Inl _ \<Rightarrow> (provider_v2_default, None)
           | Inr (extension, consumed) \<Rightarrow>
               if consumed = length payload then (extension, Some PROVIDER_STATE_EXTENSION_VERSION_V2)
               else (provider_v2_default, None)))"
proof -
  have len: "nat (uint (word_of_int (int (length payload)) :: u32)) = length payload"
    using assms(3) by (simp add: unat_of_nat take_bit_nat_eq_self)
  have "header \<noteq> []" "dec_header c (header @ payload) = Inr (provider_header version payload, length header)"
    using reads_backD [OF assms(1,2)] by simp_all
  then show ?thesis
    using assms(4) len unfolding decode_provider_state_extension_def
    by (auto simp: provider_header_def Let_def)
qed

lemma decode_encoded_frame:
  assumes "codec_reads c b" "encode_provider_frame c b = Inr frame"
  shows "decode_provider_state_extension c frame = (decoded_extension b, Some (decoded_version b))" "frame \<noteq> []"
proof -
  from assms(2) obtain version payload header where
    f: "\<not> int (length payload) \<ge> 2 ^ 32" "enc_header c (provider_header version payload) = Inr header"
      "frame = header @ payload"
      "if requires_v2 b
       then version = PROVIDER_STATE_EXTENSION_VERSION_V2 \<and> enc_provider_v2 c (provider_extension_of b) = Inr payload
       else version = PROVIDER_STATE_EXTENSION_VERSION_V1 \<and> enc_provider_v1 c (provider_v1_of b) = Inr payload"
    unfolding encode_provider_frame_def by (auto split: if_splits)
  have h: "reads_back (enc_header c) (dec_header c) id (provider_header version payload)"
    using assms(1) f(4) by (auto simp: codec_reads_def split: if_splits)
  then show "frame \<noteq> []"
    using reads_backD(1) [OF h f(2)] f(3) by simp
  have v: "PROVIDER_STATE_EXTENSION_VERSION_V2 \<noteq> PROVIDER_STATE_EXTENSION_VERSION_V1"
    by (simp add: PROVIDER_STATE_EXTENSION_VERSION_V1_def PROVIDER_STATE_EXTENSION_VERSION_V2_def)
  have "dec_provider_v2 c payload = Inr (provider_extension_of b, length payload)" if "requires_v2 b"
    using reads_backD(3) [of "enc_provider_v2 c" "dec_provider_v2 c" id] assms(1) f(4) that by (simp add: codec_reads_def)
  moreover have "dec_provider_v1 c payload = Inr (provider_v1_of b, length payload)" if "\<not> requires_v2 b"
    using reads_backD(3) [of "enc_provider_v1 c" "dec_provider_v1 c" id] assms(1) f(4) that by (simp add: codec_reads_def)
  ultimately show "decode_provider_state_extension c frame = (decoded_extension b, Some (decoded_version b))"
    unfolding f(3) using decode_frame [OF h f(2,1)] f(4) v
    by (auto simp: decoded_extension_def decoded_version_def split: if_splits)
qed

subsection \<open>The extensions of a broadcast\<close>

lemma no_extension_facts:
  assumes "broadcast_wf b" "\<not> carries_provider_extension b"
  shows "sb_authoritative_provider_state b = False" "sb_provider_uids b = []"
    "fmlookup (gs_providers (sb_snapshot b)) k = Some p \<Longrightarrow> ps_tools p = []"
proof -
  have keyed: "providers_keyed (gs_providers (sb_snapshot b))"
    using assms(1) by (simp add: broadcast_wf_def)
  show "sb_authoritative_provider_state b = False"
    using assms(2) by (simp add: carries_provider_extension_def)
  have "fmlookup (p2_providers (provider_extension_of b)) k = None" for k
    using assms(2) by (simp add: carries_provider_extension_def fmcount_def fmdom_notD)
  then have none: "ps_tools p = [] \<and> uid_of b p = None" if "fmlookup (gs_providers (sb_snapshot b)) k = Some p" for k p
    using that provider_extension_lookup [OF keyed, of k] by (auto split: if_splits)
  then show "fmlookup (gs_providers (sb_snapshot b)) k = Some p \<Longrightarrow> ps_tools p = []"
    by blast
  show "sb_provider_uids b = []"
  proof (rule ccontr)
    assume "sb_provider_uids b \<noteq> []"
    then obtain u where u: "u \<in> set (sb_provider_uids b)" by (cases "sb_provider_uids b") auto
    then obtain p where "p \<in> set (fmvalues (gs_providers (sb_snapshot b)))" "provider_identity_of p = pu_identity u"
      using assms(1) unfolding broadcast_wf_def by blast
    then obtain k where p: "fmlookup (gs_providers (sb_snapshot b)) k = Some p" "provider_identity_of p = pu_identity u"
      by auto
    have "\<lparr>pu_identity = pu_identity u, pu_uid = pu_uid u\<rparr> = u" by simp
    with u uid_map_lookup [OF assms(1), of "pu_identity u" "pu_uid u"] have "uid_of b p = Some (pu_uid u)"
      by (simp add: uid_of_def p(2))
    with none [OF p(1)] show False by simp
  qed
qed

text \<open>The extension as the receiver gets it, an absent one read as the default.\<close>

definition received_extension :: "state_broadcast \<Rightarrow> provider_state_extension_v2" where
  "received_extension b = (if carries_provider_extension b then decoded_extension b else provider_v2_default)"

lemma received_tools:
  assumes "broadcast_wf b" "fmlookup (gs_providers (sb_snapshot b)) k = Some p"
  shows "case fmlookup (p2_providers (received_extension b)) k of
    None \<Rightarrow> ps_tools p = [] | Some md \<Rightarrow> md_tools md = ps_tools p"
proof (cases "carries_provider_extension b")
  case True
  have keyed: "providers_keyed (gs_providers (sb_snapshot b))"
    using assms(1) by (simp add: broadcast_wf_def)
  show ?thesis
    using True assms(2) provider_extension_lookup [OF keyed, of k] provider_v1_lookup [OF keyed, of k]
    by (auto simp: received_extension_def decoded_extension_def)
next
  case False
  then show ?thesis
    using no_extension_facts(3) [OF assms(1) False assms(2)] by (simp add: received_extension_def provider_v2_default_def)
qed

lemma restore_strip:
  assumes "broadcast_wf b" "fmlookup (gs_providers (sb_snapshot b)) k = Some p"
    and "bx_provider_capacity_weights ext = capacity_weights_of b"
  shows "restore_provider ext (received_extension b) (strip_provider p) = p"
proof -
  have keyed: "providers_keyed (gs_providers (sb_snapshot b))" and valid: "is_valid_capacity_weight (ps_capacity_weight p)"
    using assms(1,2) by (auto simp: broadcast_wf_def dest: fmpredD)
  have k: "k = pkey p"
    using providers_keyedD [OF keyed assms(2)] .
  have key: "provider_capacity_key (strip_provider p) = k"
    by (simp add: k strip_provider_def)
  define q where "q = (case fmlookup (bx_provider_capacity_weights ext) k of
    None \<Rightarrow> strip_provider p | Some weight \<Rightarrow> snd (apply_capacity_weight weight (strip_provider p)))"
  have q: "q = p\<lparr>ps_tools := []\<rparr>"
    using capacity_weights_lookup [OF keyed, of k] assms(2) valid
    by (cases "ps_capacity_weight p = 1")
      (simp_all add: q_def assms(3) apply_capacity_weight_def strip_provider_def default_capacity_weight_def)
  have "restore_provider ext (received_extension b) (strip_provider p) =
      (case fmlookup (p2_providers (received_extension b)) k of
         None \<Rightarrow> q | Some metadata \<Rightarrow> q\<lparr>ps_tools := md_tools metadata\<rparr>)"
    unfolding restore_provider_def Let_def key q_def ..
  also have "\<dots> = p"
    using received_tools [OF assms(1,2)]
    by (cases "fmlookup (p2_providers (received_extension b)) k") (simp_all add: q)
  finally show ?thesis .
qed

lemma restore_snapshot:
  assumes "broadcast_wf b" "bx_provider_capacity_weights ext = capacity_weights_of b"
  shows "fmmap (restore_provider ext (received_extension b)) (fmmap strip_provider (gs_providers (sb_snapshot b))) =
    gs_providers (sb_snapshot b)"
proof (rule fmap_eqI)
  fix k
  show "fmlookup (fmmap (restore_provider ext (received_extension b))
      (fmmap strip_provider (gs_providers (sb_snapshot b)))) k = fmlookup (gs_providers (sb_snapshot b)) k"
    using restore_strip [OF assms(1) _ assms(2)] by (cases "fmlookup (gs_providers (sb_snapshot b)) k") simp_all
qed

lemma no_weights_extension:
  assumes "\<not> carries_extension b"
  shows "extension_of b = extension_default" "sb_signals_address b = None"
    "\<not> carries_provider_extension b"
proof -
  have "capacity_weights_of b = fmempty"
    using assms by (intro fmap_eqI) (simp add: carries_extension_def fmcount_def fmdom_notD)
  then show "extension_of b = extension_default"
    using assms by (simp add: carries_extension_def extension_of_def extension_default_def)
qed (use assms in \<open>simp_all add: carries_extension_def\<close>)

lemma decode_encoded_extension:
  assumes "codec_reads c b" "carries_extension b" "enc_extension c (extension_of b) = Inr extension"
    and "(if sb_signals_address b \<noteq> None \<or> carries_provider_extension b
          then enc_signals c (sb_signals_address b) else Inr []) = Inr signals"
    and "(if carries_provider_extension b then encode_provider_frame c b else Inr []) = Inr frame"
  shows "decode_extension c (extension @ signals @ frame) =
    (extension_of b, sb_signals_address b, received_extension b,
     if carries_provider_extension b then Some (decoded_version b) else None)"
proof -
  have ext: "extension \<noteq> []" "dec_extension c (extension @ signals @ frame) = Inr (extension_of b, length extension)"
    using reads_backD [OF codec_readsD(2) [OF assms(1)] assms(3)] by simp_all
  consider (none) "\<not> carries_provider_extension b" "sb_signals_address b = None" "signals = []" "frame = []"
    | (signals) "\<not> carries_provider_extension b" "enc_signals c (sb_signals_address b) = Inr signals" "frame = []"
    | (frame) "carries_provider_extension b" "enc_signals c (sb_signals_address b) = Inr signals"
        "encode_provider_frame c b = Inr frame"
    using assms(4,5) by (cases "carries_provider_extension b"; cases "sb_signals_address b"; simp)
  then show ?thesis
  proof cases
    case none
    with ext show ?thesis
      by (simp add: decode_extension_def received_extension_def decode_provider_state_extension_def)
  next
    case signals
    then have "signals \<noteq> []" "dec_signals c signals = Inr (sb_signals_address b, length signals)"
      using reads_backD [OF codec_readsD(3) [OF assms(1)] signals(2)] by simp_all
    with ext signals show ?thesis
      by (simp add: decode_extension_def received_extension_def decode_provider_state_extension_def)
  next
    case frame
    then have "signals \<noteq> []" "dec_signals c (signals @ frame) = Inr (sb_signals_address b, length signals)"
      using reads_backD [OF codec_readsD(3) [OF assms(1)] frame(2)] by simp_all
    with ext frame decode_encoded_frame [OF assms(1) frame(3)] show ?thesis
      by (simp add: decode_extension_def received_extension_def)
  qed
qed

subsection \<open>The provider UIDs\<close>

lemma provider_uid_eta [simp]: "\<lparr>pu_identity = pu_identity u, pu_uid = pu_uid u\<rparr> = u"
  by simp

lemma in_extension_uids:
  "u \<in> set (extension_uids ext) \<longleftrightarrow> (\<exists>k md. fmlookup (p2_providers ext) k = Some md \<and>
     md_uid md = Some (pu_uid u) \<and> parse_provider_identity k = Some (pu_identity u))"
proof
  assume "u \<in> set (extension_uids ext)"
  then show "\<exists>k md. fmlookup (p2_providers ext) k = Some md \<and>
     md_uid md = Some (pu_uid u) \<and> parse_provider_identity k = Some (pu_identity u)"
    unfolding extension_uids_def in_map_filter by (fastforce simp: set_fmentries split: option.splits)
next
  assume "\<exists>k md. fmlookup (p2_providers ext) k = Some md \<and>
     md_uid md = Some (pu_uid u) \<and> parse_provider_identity k = Some (pu_identity u)"
  then obtain k md where md: "fmlookup (p2_providers ext) k = Some md" "md_uid md = Some (pu_uid u)"
    "parse_provider_identity k = Some (pu_identity u)"
    by blast
  have "(k, md) \<in> set (fmentries (p2_providers ext))"
    using md(1) by (simp add: set_fmentries)
  then show "u \<in> set (extension_uids ext)"
    unfolding extension_uids_def in_map_filter by (rule bexI [rotated]) (simp add: md(2,3))
qed

lemma provider_of_uid:
  assumes "broadcast_wf b" "u \<in> set (sb_provider_uids b)"
  obtains p where "fmlookup (gs_providers (sb_snapshot b)) (pkey p) = Some p"
    "provider_identity_of p = pu_identity u" "uid_of b p = Some (pu_uid u)"
    "parse_provider_identity (pkey p) = Some (pu_identity u)"
proof -
  have wf: "identity_wf (pu_identity u)" and keyed: "providers_keyed (gs_providers (sb_snapshot b))"
    using assms by (auto simp: broadcast_wf_def)
  obtain p where p: "p \<in> set (fmvalues (gs_providers (sb_snapshot b)))" "provider_identity_of p = pu_identity u"
    using assms unfolding broadcast_wf_def by blast
  then obtain k where k: "fmlookup (gs_providers (sb_snapshot b)) k = Some p" by auto
  have "\<lparr>pu_identity = pu_identity u, pu_uid = pu_uid u\<rparr> = u" by simp
  with assms(2) uid_map_lookup [OF assms(1), of "pu_identity u" "pu_uid u"] have "uid_of b p = Some (pu_uid u)"
    by (simp add: uid_of_def p(2))
  with that [of p] k providers_keyedD [OF keyed k] p(2) parse_provider_identity_key [of p] wf show thesis
    by simp
qed

lemma received_uids:
  assumes "broadcast_wf b"
  shows "set (extension_uids (received_extension b)) = set (sb_provider_uids b)"
proof (cases "carries_provider_extension b \<and> requires_v2 b")
  case True
  then have ext: "received_extension b = provider_extension_of b"
    by (simp add: received_extension_def decoded_extension_def)
  have keyed: "providers_keyed (gs_providers (sb_snapshot b))"
    using assms by (simp add: broadcast_wf_def)
  note lookup = provider_extension_lookup [OF keyed]
  show ?thesis
  proof (intro set_eqI iffI)
    fix u assume "u \<in> set (extension_uids (received_extension b))"
    then obtain k md where md: "fmlookup (p2_providers (provider_extension_of b)) k = Some md"
      "md_uid md = Some (pu_uid u)" "parse_provider_identity k = Some (pu_identity u)"
      by (auto simp: ext in_extension_uids)
    then obtain p where p: "fmlookup (gs_providers (sb_snapshot b)) k = Some p" "uid_of b p = Some (pu_uid u)"
      using lookup [of k] by (auto split: option.splits if_splits)
    with uid_of_wf [OF assms p(2)] providers_keyedD [OF keyed p(1)] md(3) parse_provider_identity_key [of p]
    show "u \<in> set (sb_provider_uids b)"
      by simp
  next
    fix u assume "u \<in> set (sb_provider_uids b)"
    then obtain p where p: "fmlookup (gs_providers (sb_snapshot b)) (pkey p) = Some p" "uid_of b p = Some (pu_uid u)"
      "parse_provider_identity (pkey p) = Some (pu_identity u)"
      using provider_of_uid [OF assms] by blast
    with lookup [of "pkey p"] have "fmlookup (p2_providers (provider_extension_of b)) (pkey p) =
        Some \<lparr>md_tools = ps_tools p, md_uid = Some (pu_uid u)\<rparr>"
      by simp
    with p(3) show "u \<in> set (extension_uids (received_extension b))"
      unfolding ext in_extension_uids by fastforce
  qed
next
  case False
  have "u \<notin> set (sb_provider_uids b)" for u
  proof
    assume u: "u \<in> set (sb_provider_uids b)"
    then obtain p where p: "fmlookup (gs_providers (sb_snapshot b)) (pkey p) = Some p" "uid_of b p = Some (pu_uid u)"
      using provider_of_uid [OF assms] by blast
    have keyed: "providers_keyed (gs_providers (sb_snapshot b))"
      using assms by (simp add: broadcast_wf_def)
    from p provider_extension_lookup [OF keyed, of "pkey p"] have
      "fmlookup (p2_providers (provider_extension_of b)) (pkey p) = Some \<lparr>md_tools = ps_tools p, md_uid = Some (pu_uid u)\<rparr>"
      by simp
    then have "requires_v2 b"
      unfolding requires_v2_def list_ex_iff by (intro disjI2 bexI [of _ "\<lparr>md_tools = ps_tools p, md_uid = Some (pu_uid u)\<rparr>"]) auto
    with False have "\<not> carries_provider_extension b" by simp
    with no_extension_facts(2) [OF assms] u show False by simp
  qed
  moreover have "u \<notin> set (extension_uids (received_extension b))" for u
    using False by (auto simp: in_extension_uids received_extension_def decoded_extension_def provider_v2_default_def)
  ultimately show ?thesis by blast
qed

subsection \<open>Decoding an encoded broadcast\<close>

text \<open>What the receiver reads: the UIDs in key order, and the version of the frame that carried them.\<close>

definition received_broadcast :: "state_broadcast \<Rightarrow> state_broadcast" where
  "received_broadcast b = b\<lparr>sb_provider_uids := extension_uids (received_extension b),
     sb_extension_version := (if carries_provider_extension b then Some (decoded_version b) else None)\<rparr>"

lemma received_authoritative:
  "broadcast_wf b \<Longrightarrow> p2_authoritative_provider_state (received_extension b) = sb_authoritative_provider_state b"
  using no_extension_facts(1)
  by (simp add: received_extension_def decoded_extension_def provider_v2_default_def)

lemma decode_parts:
  assumes "broadcast_wf b" "dec_v1 c bytes = Inr (strip_payload (base_payload b), used)"
    and "decode_extension c (drop used bytes) = (extension_of b, sb_signals_address b, received_extension b,
      if carries_provider_extension b then Some (decoded_version b) else None)"
  shows "broadcast_decode c bytes = Inr (received_broadcast b)"
proof -
  have "bx_provider_capacity_weights (extension_of b) = capacity_weights_of b"
    by (simp add: extension_of_def)
  from restore_snapshot [OF assms(1) this] show ?thesis
    using received_authoritative [OF assms(1)]
    by (simp add: broadcast_decode_def assms(2,3) strip_payload_def base_payload_def received_broadcast_def
      extension_of_def Let_def)
qed

lemma encode_parts:
  assumes "broadcast_encode c b = Inr bytes"
  obtains base rest where "enc_v1 c (base_payload b) = Inr base" "bytes = base @ rest"
    "\<not> carries_extension b \<Longrightarrow> rest = []"
    "carries_extension b \<Longrightarrow> \<exists>extension signals frame. rest = extension @ signals @ frame \<and>
       enc_extension c (extension_of b) = Inr extension \<and>
       (if sb_signals_address b \<noteq> None \<or> carries_provider_extension b
        then enc_signals c (sb_signals_address b) else Inr []) = Inr signals \<and>
       (if carries_provider_extension b then encode_provider_frame c b else Inr []) = Inr frame"
proof -
  from assms obtain base where base: "enc_v1 c (base_payload b) = Inr base"
    by (auto simp: broadcast_encode_def)
  show thesis
  proof (cases "carries_extension b")
    case False
    then have "bytes = base" using assms base by (simp add: broadcast_encode_def)
    with False base show thesis by (intro that [of base "[]"]) simp_all
  next
    case True
    with assms base obtain extension signals frame where "enc_extension c (extension_of b) = Inr extension"
       "(if sb_signals_address b \<noteq> None \<or> carries_provider_extension b
        then enc_signals c (sb_signals_address b) else Inr []) = Inr signals"
       "(if carries_provider_extension b then encode_provider_frame c b else Inr []) = Inr frame"
       "bytes = base @ extension @ signals @ frame"
      unfolding broadcast_encode_def by (simp only: try_bind.simps try_bind_eq_Inr if_True if_False simp_thms sum.inject) blast
    with base True that [of base "extension @ signals @ frame"] show thesis by blast
  qed
qed

lemma decode_encoded:
  assumes "broadcast_wf b" "codec_reads c b" "broadcast_encode c b = Inr bytes"
  shows "broadcast_decode c bytes = Inr (received_broadcast b)"
proof -
  obtain base rest where parts: "enc_v1 c (base_payload b) = Inr base" "bytes = base @ rest"
    "\<not> carries_extension b \<Longrightarrow> rest = []"
    "carries_extension b \<Longrightarrow> \<exists>extension signals frame. rest = extension @ signals @ frame \<and>
       enc_extension c (extension_of b) = Inr extension \<and>
       (if sb_signals_address b \<noteq> None \<or> carries_provider_extension b
        then enc_signals c (sb_signals_address b) else Inr []) = Inr signals \<and>
       (if carries_provider_extension b then encode_provider_frame c b else Inr []) = Inr frame"
    using encode_parts [OF assms(3)] by metis
  have v1: "dec_v1 c bytes = Inr (strip_payload (base_payload b), length base)"
    using reads_backD(2) [OF codec_readsD(1) [OF assms(2)] parts(1)] by (simp add: parts(2))
  have "decode_extension c rest = (extension_of b, sb_signals_address b, received_extension b,
      if carries_provider_extension b then Some (decoded_version b) else None)"
  proof (cases "carries_extension b")
    case True
    then show ?thesis
      using parts(4) decode_encoded_extension [OF assms(2)] by metis
  next
    case False
    then show ?thesis
      using parts(3) no_weights_extension [OF False]
      by (simp add: decode_extension_def received_extension_def)
  qed
  then show ?thesis
    by (intro decode_parts [OF assms(1) v1]) (simp add: parts(2))
qed

subsection \<open>The signed bytes\<close>

lemma uid_map_received:
  assumes "broadcast_wf b" "set us = set (sb_provider_uids b)"
  shows "uid_map_of (b\<lparr>sb_provider_uids := us, sb_extension_version := v\<rparr>) = uid_map_of b"
proof (rule fmap_eqI)
  fix i
  let ?kvs = "map (\<lambda>u. (pu_identity u, pu_uid u)) us"
  have eq: "fmlookup (collect_map ?kvs) i = Some x \<longleftrightarrow> fmlookup (uid_map_of b) i = Some x" for x
  proof
    assume "fmlookup (collect_map ?kvs) i = Some x"
    then have "(i, x) \<in> set (rev ?kvs)"
      unfolding collect_map_lookup by (rule map_of_SomeD)
    then obtain u where "u \<in> set us" "i = pu_identity u" "x = pu_uid u" by auto
    with assms(2) show "fmlookup (uid_map_of b) i = Some x"
      unfolding uid_map_lookup [OF assms(1)] by simp
  next
    assume m: "fmlookup (uid_map_of b) i = Some x"
    then have "\<lparr>pu_identity = i, pu_uid = x\<rparr> \<in> set us"
      unfolding uid_map_lookup [OF assms(1)] assms(2) .
    then have "(i, x) \<in> set (rev ?kvs)" by force
    then obtain y where y: "map_of (rev ?kvs) i = Some y"
      by (metis weak_map_of_SomeI)
    then have "(i, y) \<in> set (rev ?kvs)" by (rule map_of_SomeD)
    then obtain u where "u \<in> set us" "i = pu_identity u" "y = pu_uid u" by auto
    with assms(2) have "fmlookup (uid_map_of b) i = Some y"
      unfolding uid_map_lookup [OF assms(1)] by simp
    with m y show "fmlookup (collect_map ?kvs) i = Some x"
      by (simp add: collect_map_lookup)
  qed
  show "fmlookup (uid_map_of (b\<lparr>sb_provider_uids := us, sb_extension_version := v\<rparr>)) i = fmlookup (uid_map_of b) i"
    using eq unfolding uid_map_of_def [of "b\<lparr>sb_provider_uids := us, sb_extension_version := v\<rparr>"]
    by (simp) (metis not_Some_eq)
qed

lemma encode_received:
  assumes "broadcast_wf b"
  shows "broadcast_encode c (received_broadcast b) = broadcast_encode c b"
proof -
  let ?r = "received_broadcast b"
  have uids: "uid_map_of ?r = uid_map_of b"
    unfolding received_broadcast_def by (rule uid_map_received [OF assms received_uids [OF assms]])
  have same: "sb_snapshot ?r = sb_snapshot b" "sb_authoritative_provider_state ?r = sb_authoritative_provider_state b"
    "base_payload ?r = base_payload b" "sb_signals_address ?r = sb_signals_address b"
    by (simp_all add: received_broadcast_def base_payload_def)
  then have prov: "provider_extension_of ?r = provider_extension_of b" "provider_v1_of ?r = provider_v1_of b"
    "capacity_weights_of ?r = capacity_weights_of b"
    by (simp_all add: provider_extension_of_def provider_v1_of_def capacity_weights_of_def uids)
  have carries: "carries_provider_extension ?r = carries_provider_extension b" "extension_of ?r = extension_of b"
    using prov by (simp_all add: carries_provider_extension_def extension_of_def) (simp add: received_broadcast_def)
  have ext: "carries_extension ?r = carries_extension b"
    unfolding carries_extension_def carries prov by (simp add: received_broadcast_def)
  have frame: "(if carries_provider_extension b then encode_provider_frame c ?r else Inr []) =
      (if carries_provider_extension b then encode_provider_frame c b else Inr [])"
  proof (rule if_cong [OF refl _ refl])
    assume that: "carries_provider_extension b"
    have "requires_v2 ?r = requires_v2 b"
      using that unfolding requires_v2_def prov
      by (auto simp: received_broadcast_def decoded_version_def requires_v2_def
        PROVIDER_STATE_EXTENSION_VERSION_V1_def PROVIDER_STATE_EXTENSION_VERSION_V2_def)
    then show "encode_provider_frame c ?r = encode_provider_frame c b"
      by (simp add: encode_provider_frame_def prov)
  qed
  show ?thesis
    unfolding broadcast_encode_def same carries ext frame ..
qed

lemma received_unsigned:
  "(received_broadcast b)\<lparr>sb_signature := None\<rparr> = received_broadcast (b\<lparr>sb_signature := None\<rparr>)"
proof -
  have "provider_extension_of (b\<lparr>sb_signature := None\<rparr>) = provider_extension_of b"
    "provider_v1_of (b\<lparr>sb_signature := None\<rparr>) = provider_v1_of b"
    by (simp_all add: provider_extension_of_def provider_v1_of_def uid_map_of_def)
  then have "requires_v2 (b\<lparr>sb_signature := None\<rparr>) = requires_v2 b"
    "carries_provider_extension (b\<lparr>sb_signature := None\<rparr>) = carries_provider_extension b"
    "received_extension (b\<lparr>sb_signature := None\<rparr>) = received_extension b"
    by (simp_all add: requires_v2_def carries_provider_extension_def received_extension_def decoded_extension_def)
  then show ?thesis
    by (simp add: received_broadcast_def decoded_version_def)
qed

lemma signable_received:
  assumes "broadcast_wf b"
  shows "signable_bytes c (received_broadcast b) = signable_bytes c b"
proof -
  have "broadcast_wf (b\<lparr>sb_signature := None\<rparr>)"
    using assms by (simp add: broadcast_wf_def)
  from encode_received [OF this] show ?thesis
    by (simp add: signable_bytes_def received_unsigned)
qed

subsection \<open>Properties\<close>

text \<open>
  C12. A broadcast that was encoded decodes to itself. Every field is restored from the base payload,
  the extension, the signals address and the provider-state frame, provider tools and capacity
  weights included; only the order of the provider UIDs and the frame version the receiver notes can
  differ. The codec of each structure is a parameter that reads back what it wrote, and the provider
  records carry valid capacities under their own keys.
\<close>

theorem broadcast_roundtrip:
  assumes "broadcast_wf b" "codec_reads c b" "broadcast_encode c b = Inr bytes"
  shows "\<exists>us version. broadcast_decode c bytes = Inr (b\<lparr>sb_provider_uids := us, sb_extension_version := version\<rparr>) \<and>
    set us = set (sb_provider_uids b)"
  using decode_encoded [OF assms] received_uids [OF assms(1)] unfolding received_broadcast_def by blast

text \<open>
  C32. The bytes a receiver checks a signature against are the bytes the sender signed: for a
  broadcast read off the wire, \<^verbatim>\<open>signable_bytes\<close> gives what it gave for the broadcast that was sent,
  in the same frame version, with the signature field of the message unchanged.
\<close>

theorem signable_bytes_preserved:
  assumes "broadcast_wf b" "codec_reads c b" "broadcast_encode c b = Inr bytes"
  shows "\<exists>received. broadcast_decode c bytes = Inr received \<and> signable_bytes c received = signable_bytes c b \<and>
    sb_signature received = sb_signature b"
  using decode_encoded [OF assms] signable_received [OF assms(1)]
  by (simp add: received_broadcast_def)

text \<open>
  A broadcast with every part of the wire format, and a codec that writes one byte per structure.
\<close>

definition ex_wire_broadcast :: state_broadcast where
  "ex_wire_broadcast = \<lparr>sb_version = 1, sb_origin_site = ''a'', sb_revision = 7,
     sb_snapshot = upsert_provider ((ex_provider ''a'' ''p'' 1)\<lparr>ps_tools := [''t''], ps_capacity_weight := 3\<rparr>)
       (snapshot_new ''a''),
     sb_authoritative_provider_state = True, sb_gateway_address = Some ''gw'', sb_site_cert_pem = None,
     sb_signature = Some [9], sb_signed_at_ms = Some 1, sb_grid_id = Some ''g'', sb_signals_address = None,
     sb_provider_uids = [\<lparr>pu_identity = ProviderIdentity ''n'' ''a'' ''p'', pu_uid = ''u''\<rparr>],
     sb_extension_version = None\<rparr>"

definition ex_codec :: "state_broadcast \<Rightarrow> codec" where
  "ex_codec b = \<lparr>enc_v1 = \<lambda>_. Inr [1], dec_v1 = \<lambda>_. Inr (strip_payload (base_payload b), 1),
     enc_extension = \<lambda>_. Inr [2], dec_extension = \<lambda>_. Inr (extension_of b, 1),
     dec_pre_capacity = \<lambda>_. Inl [], dec_pre_timestamp = \<lambda>_. Inl [], dec_pre_signature = \<lambda>_. Inl [],
     dec_string = \<lambda>_. Inl [], enc_signals = \<lambda>_. Inr [3], dec_signals = \<lambda>_. Inr (sb_signals_address b, 1),
     enc_header = \<lambda>h. Inr [ph_version h], dec_header = \<lambda>bs. Inr (provider_header (hd bs) [5], 1),
     enc_provider_v1 = \<lambda>_. Inr [5], dec_provider_v1 = \<lambda>_. Inr (provider_v1_of b, 1),
     enc_provider_v2 = \<lambda>_. Inr [5], dec_provider_v2 = \<lambda>_. Inr (provider_extension_of b, 1)\<rparr>"

lemma ex_codec_reads: "codec_reads (ex_codec b) b"
  by (simp add: codec_reads_def reads_back_def ex_codec_def provider_header_def)

lemma ex_wire_broadcast_facts:
  "broadcast_wf ex_wire_broadcast" "broadcast_encode (ex_codec ex_wire_broadcast) ex_wire_broadcast = Inr [1, 2, 3, 2, 5]"
  by code_simp+

theorem broadcast_roundtrip_witness:
  "\<exists>us version. broadcast_decode (ex_codec ex_wire_broadcast) [1, 2, 3, 2, 5] =
      Inr (ex_wire_broadcast\<lparr>sb_provider_uids := us, sb_extension_version := version\<rparr>) \<and>
    set us = set (sb_provider_uids ex_wire_broadcast)"
  by (rule broadcast_roundtrip [OF ex_wire_broadcast_facts(1) ex_codec_reads ex_wire_broadcast_facts(2)])

theorem signable_bytes_preserved_witness:
  "\<exists>received. broadcast_decode (ex_codec ex_wire_broadcast) [1, 2, 3, 2, 5] = Inr received \<and>
    signable_bytes (ex_codec ex_wire_broadcast) received = signable_bytes (ex_codec ex_wire_broadcast) ex_wire_broadcast \<and>
    sb_signature received = sb_signature ex_wire_broadcast"
  by (rule signable_bytes_preserved [OF ex_wire_broadcast_facts(1) ex_codec_reads ex_wire_broadcast_facts(2)])

end
