(* ===== verification/Handler.thy ===== *)
theory Handler
  imports WireRoundTrip InventoryAssembly
begin

section \<open>The broadcast handler\<close>

text \<open>
  \<^verbatim>\<open>StateBroadcastHandler\<close> and its control path \<^verbatim>\<open>OriginStateHandle\<close> of
  \<^verbatim>\<open>crates/swim/src/state_broadcast.rs\<close>. One record \<open>state_handler\<close> holds what the two share: the
  merged snapshot, the retained per-origin maps, the assembler, the trust store and the last value
  of every watch channel. Each operation takes the record and returns it updated; a lock is held for
  one operation, so an interleaving is a sequence of operations. The clock is read once for a
  message. Signature verification, hashing and serialisation are the fields of \<open>handler_env\<close>.
\<close>

subsection \<open>State\<close>

record handler_env =
  he_codec :: codec
  he_verify :: "bytes \<Rightarrow> bytes \<Rightarrow> bytes \<Rightarrow> bool"
  he_encode_scoped :: "string \<times> string \<times> model_inventory_frame \<Rightarrow> string + bytes"
  he_decode_inventory :: "bytes \<Rightarrow> string + model_inventory_broadcast \<times> nat"
  he_hash :: "bytes \<Rightarrow> string + bytes"

datatype state_broadcast_error =
    ProviderScopeMissing string
  | ProviderNetworkNotAllowed string string
  | DecodeError string
  | UnsupportedBroadcastVersion u16 u16
  | UntrustedInventoryOrigin string
  | InvalidInventorySignature string
  | InventoryError inventory_frame_error
  | MissingSignature string
  | UntrustedStateOrigin string
  | StateAdmissionPending string
  | SignatureInvalid string
  | SignableEncode string string
  | MissingTimestamp string
  | TimestampOutOfWindow string

record provider_owner =
  po_scope :: provider_state_scope
  po_verified_grid :: bool

record retained_origins =
  rt_provider_owners :: "(provider_identity, provider_owner) fmap"
  rt_latest_by_scope :: "(provider_state_scope, u64) fmap"
  rt_unverified_scopes :: "provider_state_scope fset"
  rt_provider_networks_by_scope :: "(provider_state_scope, string fset) fmap"
  rt_provider_uids_by_scope :: "(provider_state_scope, (provider_identity, string) fmap) fmap"
  rt_inventory_scopes :: "provider_state_scope fset"
  rt_gateway_addrs :: "(string, string) fmap"
  rt_latest_gateway_revision :: "(string, u64) fmap"
  rt_cert_pems :: "(string, string) fmap"
  rt_latest_cert_revision :: "(string, u64) fmap"
  rt_signals_addrs :: "(string, string) fmap"
  rt_latest_signals_revision :: "(string, u64) fmap"

record state_handler =
  hs_state :: grid_state_snapshot
  hs_retained :: retained_origins
  hs_gateway_addrs :: "(string, string) fmap"
  hs_cert_pems :: "(string, string) fmap"
  hs_signals_addrs :: "(string, string) fmap"
  hs_model_inventories :: "model_inventory list"
  hs_assembler :: model_inventory_assembler
  hs_trust_store :: trust_store
  hs_max_origins :: nat
  hs_max_scopes :: nat

datatype admission = Unsigned | Signed "bytes list"

definition retained_default :: retained_origins where
  "retained_default = \<lparr>rt_provider_owners = fmempty, rt_latest_by_scope = fmempty, rt_unverified_scopes = {||},
     rt_provider_networks_by_scope = fmempty, rt_provider_uids_by_scope = fmempty, rt_inventory_scopes = {||},
     rt_gateway_addrs = fmempty, rt_latest_gateway_revision = fmempty, rt_cert_pems = fmempty,
     rt_latest_cert_revision = fmempty, rt_signals_addrs = fmempty, rt_latest_signals_revision = fmempty\<rparr>"

definition with_capacity :: "string \<Rightarrow> nat \<Rightarrow> state_handler" where
  "with_capacity site_id max_origins =
     (let max_origins = max max_origins 1;
          max_scopes = max (min (2 ^ 64 - 1) (max_origins * RETAINED_SCOPE_MULTIPLIER)) 1
      in \<lparr>hs_state = snapshot_new site_id, hs_retained = retained_default, hs_gateway_addrs = fmempty,
          hs_cert_pems = fmempty, hs_signals_addrs = fmempty, hs_model_inventories = [],
          hs_assembler = assembler_empty, hs_trust_store = trust_store_default,
          hs_max_origins = max_origins, hs_max_scopes = max_scopes\<rparr>)"

definition handler_new :: "string \<Rightarrow> state_handler" where
  "handler_new site_id = with_capacity site_id DEFAULT_MAX_RETAINED_ORIGINS"

subsection \<open>The retained maps\<close>

definition incoming_identities :: "state_broadcast \<Rightarrow> string fset \<Rightarrow> provider_identity fset" where
  "incoming_identities broadcast networks = fset_of_list (map provider_identity_of
     (filter (\<lambda>provider. ps_site_id provider = sb_origin_site broadcast \<and> ps_network_id provider |\<in>| networks)
       (fmvalues (gs_providers (sb_snapshot broadcast)))))"

text \<open>The closure \<^verbatim>\<open>replace\<close>: the identities that lose the value they have.\<close>

definition replaces_identity ::
  "state_broadcast \<Rightarrow> string fset \<Rightarrow> (provider_identity, provider_owner) fmap \<Rightarrow> provider_identity \<Rightarrow> bool" where
  "replaces_identity broadcast networks owners identity \<longleftrightarrow>
     identity |\<in>| incoming_identities broadcast networks \<or>
     id_network identity |\<in>| networks \<and>
     (case fmlookup owners identity of None \<Rightarrow> False
      | Some owner \<Rightarrow> po_scope owner = broadcast_scope broadcast)"

definition replace_providers ::
  "grid_state_snapshot \<Rightarrow> state_broadcast \<Rightarrow> string fset \<Rightarrow> bool \<Rightarrow> retained_origins \<Rightarrow>
   string fset \<times> retained_origins \<times> grid_state_snapshot" where
  "replace_providers snapshot broadcast networks verified_grid self =
     (let replace = replaces_identity broadcast networks (rt_provider_owners self);
          snapshot = snapshot\<lparr>gs_providers :=
            fmretain (\<lambda>_ provider. \<not> replace (provider_identity_of provider)) (gs_providers snapshot)\<rparr>;
          owners = fmretain (\<lambda>identity _. \<not> replace identity) (rt_provider_owners self);
          (accepted, owners, snapshot) = fold (\<lambda>provider (accepted, owners, snapshot).
              let provider = stamp_provider (sb_origin_site broadcast) (sb_revision broadcast) provider
              in (finsert (ps_network_id provider) accepted,
                  fmupd (provider_identity_of provider)
                    \<lparr>po_scope = broadcast_scope broadcast, po_verified_grid = verified_grid\<rparr> owners,
                  upsert_provider provider snapshot))
            (filter (\<lambda>provider. provider_identity_of provider |\<in>| incoming_identities broadcast networks)
              (fmvalues (gs_providers (sb_snapshot broadcast)))) ({||}, owners, snapshot)
      in (accepted, self\<lparr>rt_provider_owners := owners\<rparr>, snapshot))"

text \<open>\<^verbatim>\<open>lane_mut\<close>: the two maps of a lane, read and written.\<close>

definition lane_maps :: "lane \<Rightarrow> retained_origins \<Rightarrow> (string, string) fmap \<times> (string, u64) fmap" where
  "lane_maps lane self = (case lane of
     Gateway \<Rightarrow> (rt_gateway_addrs self, rt_latest_gateway_revision self)
   | Cert \<Rightarrow> (rt_cert_pems self, rt_latest_cert_revision self)
   | Signals \<Rightarrow> (rt_signals_addrs self, rt_latest_signals_revision self))"

definition set_lane_maps ::
  "lane \<Rightarrow> (string, string) fmap \<Rightarrow> (string, u64) fmap \<Rightarrow> retained_origins \<Rightarrow> retained_origins" where
  "set_lane_maps lane values revisions self = (case lane of
     Gateway \<Rightarrow> self\<lparr>rt_gateway_addrs := values, rt_latest_gateway_revision := revisions\<rparr>
   | Cert \<Rightarrow> self\<lparr>rt_cert_pems := values, rt_latest_cert_revision := revisions\<rparr>
   | Signals \<Rightarrow> self\<lparr>rt_signals_addrs := values, rt_latest_signals_revision := revisions\<rparr>)"

definition known_origins :: "retained_origins \<Rightarrow> string fset" where
  "known_origins self =
     sc_origin_site |`| fmdom (rt_latest_by_scope self) |\<union>|
     sc_origin_site |`| fmdom (rt_provider_networks_by_scope self) |\<union>|
     sc_origin_site |`| rt_inventory_scopes self |\<union>|
     fmdom (rt_gateway_addrs self) |\<union>| fmdom (rt_latest_gateway_revision self) |\<union>|
     fmdom (rt_cert_pems self) |\<union>| fmdom (rt_latest_cert_revision self) |\<union>|
     fmdom (rt_signals_addrs self) |\<union>| fmdom (rt_latest_signals_revision self)"

definition retained_forget_departed :: "string \<Rightarrow> retained_origins \<Rightarrow> retained_origins" where
  "retained_forget_departed origin self =
     self\<lparr>rt_gateway_addrs := fmdrop origin (rt_gateway_addrs self),
          rt_cert_pems := fmdrop origin (rt_cert_pems self)\<rparr>"

definition retained_remove :: "string \<Rightarrow> retained_origins \<Rightarrow> retained_origins" where
  "retained_remove origin self =
     (let self = self\<lparr>
            rt_provider_owners := fmretain (\<lambda>identity _. id_site identity \<noteq> origin) (rt_provider_owners self),
            rt_latest_by_scope := fmretain (\<lambda>scope _. sc_origin_site scope \<noteq> origin) (rt_latest_by_scope self),
            rt_unverified_scopes := ffilter (\<lambda>scope. sc_origin_site scope \<noteq> origin) (rt_unverified_scopes self),
            rt_provider_networks_by_scope :=
              fmretain (\<lambda>scope _. sc_origin_site scope \<noteq> origin) (rt_provider_networks_by_scope self),
            rt_provider_uids_by_scope :=
              fmretain (\<lambda>scope _. sc_origin_site scope \<noteq> origin) (rt_provider_uids_by_scope self),
            rt_inventory_scopes := ffilter (\<lambda>scope. sc_origin_site scope \<noteq> origin) (rt_inventory_scopes self)\<rparr>;
          self = retained_forget_departed origin self
      in self\<lparr>rt_latest_gateway_revision := fmdrop origin (rt_latest_gateway_revision self),
              rt_latest_cert_revision := fmdrop origin (rt_latest_cert_revision self),
              rt_signals_addrs := fmdrop origin (rt_signals_addrs self),
              rt_latest_signals_revision := fmdrop origin (rt_latest_signals_revision self)\<rparr>)"

subsection \<open>Removing origins and grids\<close>

definition publish_departed :: "string \<Rightarrow> state_handler \<Rightarrow> state_handler" where
  "publish_departed origin self =
     self\<lparr>hs_gateway_addrs := fmdrop origin (hs_gateway_addrs self),
          hs_cert_pems := fmdrop origin (hs_cert_pems self)\<rparr>"

text \<open>\<^verbatim>\<open>OriginStateHandle::forget_departed\<close>.\<close>

definition control_forget_departed :: "string \<Rightarrow> state_handler \<Rightarrow> state_handler" where
  "control_forget_departed origin self =
     publish_departed origin (self\<lparr>hs_retained := retained_forget_departed origin (hs_retained self)\<rparr>)"

text \<open>\<^verbatim>\<open>OriginStateHandle::remove_origin\<close>.\<close>

definition control_remove_origin :: "string \<Rightarrow> state_handler \<Rightarrow> state_handler" where
  "control_remove_origin origin self =
     (let self = self\<lparr>hs_retained := retained_remove origin (hs_retained self),
                      hs_state := remove_origin_providers origin (hs_state self)\<rparr>;
          self = publish_departed origin self
      in self\<lparr>hs_signals_addrs := fmdrop origin (hs_signals_addrs self),
              hs_assembler := assembler_remove_origin origin (hs_assembler self),
              hs_model_inventories :=
                filter (\<lambda>inventory. mi_origin_site inventory \<noteq> origin) (hs_model_inventories self)\<rparr>)"

text \<open>\<^verbatim>\<open>StateBroadcastHandler::remove_origin\<close>.\<close>

definition handler_remove_origin :: "string \<Rightarrow> state_handler \<Rightarrow> state_handler" where
  "handler_remove_origin origin self =
     self\<lparr>hs_retained := retained_remove origin (hs_retained self),
          hs_state := remove_origin_providers origin (hs_state self),
          hs_gateway_addrs := fmdrop origin (hs_gateway_addrs self),
          hs_cert_pems := fmdrop origin (hs_cert_pems self),
          hs_signals_addrs := fmdrop origin (hs_signals_addrs self),
          hs_assembler := assembler_remove_origin origin (hs_assembler self),
          hs_model_inventories :=
            filter (\<lambda>inventory. mi_origin_site inventory \<noteq> origin) (hs_model_inventories self)\<rparr>"

definition selected_scope :: "string \<Rightarrow> string option \<Rightarrow> provider_state_scope \<Rightarrow> bool" where
  "selected_scope grid_id origin scope \<longleftrightarrow>
     sc_grid_id scope = Some grid_id \<and> (case origin of None \<Rightarrow> True | Some origin \<Rightarrow> sc_origin_site scope = origin)"

definition removed_owners :: "string \<Rightarrow> string option \<Rightarrow> retained_origins \<Rightarrow> provider_identity fset" where
  "removed_owners grid_id origin retained = fset_of_list (map fst (filter
     (\<lambda>(_, owner). (case origin of None \<Rightarrow> True | Some origin \<Rightarrow> sc_origin_site (po_scope owner) = origin) \<and>
        (selected_scope grid_id origin (po_scope owner) \<or> \<not> po_verified_grid owner))
     (fmentries (rt_provider_owners retained))))"

definition clear_scope :: "string \<Rightarrow> string option \<Rightarrow> retained_origins \<Rightarrow> provider_state_scope \<Rightarrow> bool" where
  "clear_scope grid_id origin retained scope \<longleftrightarrow>
     (let unverified_scopes = ffilter (\<lambda>scope. case origin of None \<Rightarrow> True | Some origin \<Rightarrow> sc_origin_site scope = origin)
            (rt_unverified_scopes retained)
      in selected_scope grid_id origin scope \<or> scope |\<in>| unverified_scopes)"

definition control_remove_grid :: "string \<Rightarrow> string option \<Rightarrow> state_handler \<Rightarrow> state_handler" where
  "control_remove_grid grid_id origin self =
     (let retained = hs_retained self;
          removed = removed_owners grid_id origin retained;
          clear = clear_scope grid_id origin retained;
          retained = retained\<lparr>
            rt_latest_by_scope := fmretain (\<lambda>scope _. \<not> clear scope) (rt_latest_by_scope retained),
            rt_unverified_scopes := ffilter (\<lambda>scope. \<not> clear scope) (rt_unverified_scopes retained),
            rt_provider_networks_by_scope := fmretain (\<lambda>scope _. \<not> clear scope) (rt_provider_networks_by_scope retained),
            rt_provider_uids_by_scope := fmretain (\<lambda>scope _. \<not> clear scope) (rt_provider_uids_by_scope retained),
            rt_inventory_scopes := ffilter (\<lambda>scope. \<not> selected_scope grid_id origin scope) (rt_inventory_scopes retained),
            rt_provider_owners := fmretain (\<lambda>identity _. identity |\<notin>| removed) (rt_provider_owners retained)\<rparr>;
          snapshot = (hs_state self)\<lparr>gs_providers :=
            fmretain (\<lambda>_ provider. provider_identity_of provider |\<notin>| removed) (gs_providers (hs_state self))\<rparr>
      in self\<lparr>hs_retained := retained, hs_state := snapshot,
              hs_assembler := assembler_remove_grid grid_id origin (hs_assembler self),
              hs_model_inventories := filter (\<lambda>inventory. mi_grid_id inventory \<noteq> grid_id \<or>
                (case origin of None \<Rightarrow> False | Some origin \<Rightarrow> mi_origin_site inventory \<noteq> origin))
                (hs_model_inventories self)\<rparr>)"

subsection \<open>Metadata lanes\<close>

text \<open>\<^verbatim>\<open>lane_tx\<close>: the value published on a lane.\<close>

definition lane_tx :: "lane \<Rightarrow> state_handler \<Rightarrow> (string, string) fmap" where
  "lane_tx lane self = (case lane of
     Gateway \<Rightarrow> hs_gateway_addrs self | Cert \<Rightarrow> hs_cert_pems self | Signals \<Rightarrow> hs_signals_addrs self)"

definition set_lane_tx :: "lane \<Rightarrow> (string, string) fmap \<Rightarrow> state_handler \<Rightarrow> state_handler" where
  "set_lane_tx lane values self = (case lane of
     Gateway \<Rightarrow> self\<lparr>hs_gateway_addrs := values\<rparr>
   | Cert \<Rightarrow> self\<lparr>hs_cert_pems := values\<rparr>
   | Signals \<Rightarrow> self\<lparr>hs_signals_addrs := values\<rparr>)"

definition store_latest ::
  "clock \<Rightarrow> lane \<Rightarrow> state_broadcast \<Rightarrow> string \<Rightarrow> state_handler \<Rightarrow> bool \<times> state_handler" where
  "store_latest now lane broadcast value self =
     (let origin = sb_origin_site broadcast;
          cap = max_metadata_revision lane (wall_clock now)
      in if sb_revision broadcast > cap then (True, self)
      else
      let (values, revisions) = lane_maps lane (hs_retained self)
      in if (case fmlookup revisions origin of None \<Rightarrow> False
             | Some held \<Rightarrow> outranks held (sb_revision broadcast) cap)
      then (False, self)
      else
      let self = self\<lparr>hs_retained := set_lane_maps lane (fmupd origin value values)
                       (fmupd origin (sb_revision broadcast) revisions) (hs_retained self)\<rparr>;
          published = lane_tx lane self
      in (False, if fmlookup published origin = Some value then self
                 else set_lane_tx lane (fmupd origin value published) self))"

definition carried_metadata :: "state_broadcast \<Rightarrow> (lane \<times> string) list" where
  "carried_metadata broadcast = List.map_filter (\<lambda>(lane, value). map_option (Pair lane) value)
     [(Gateway, sb_gateway_address broadcast), (Cert, sb_site_cert_pem broadcast), (Signals, sb_signals_address broadcast)]"

definition store_metadata :: "clock \<Rightarrow> state_broadcast \<Rightarrow> state_handler \<Rightarrow> bool \<times> state_handler" where
  "store_metadata now broadcast self =
     (let (carried, refused, self) = fold (\<lambda>(lane, value) (_, all, self).
            let (refused, self) = store_latest now lane broadcast value self in (True, all \<and> refused, self))
          (carried_metadata broadcast) (False, True, self)
      in (carried \<and> refused, self))"

subsection \<open>Admission\<close>

definition admission_of :: "trust_store \<Rightarrow> state_broadcast \<Rightarrow> state_broadcast_error + admission" where
  "admission_of store broadcast =
     (let origin = sb_origin_site broadcast;
          grid = sb_grid_id broadcast;
          untrusted = UntrustedStateOrigin origin
      in if ts_state_admission_held store then Inl (StateAdmissionPending origin)
      else
      let scoped = (case grid of None \<Rightarrow> None | Some grid \<Rightarrow> trust_pin store (PinGrid grid origin));
          strict = (case grid of None \<Rightarrow> False | Some grid \<Rightarrow> is_strict store grid);
          legacy_retired = (strict \<or> pinned_in_any_grid store origin \<or> carries_grid_state broadcast \<and> any_strict store)
      in case scoped of
           Some keys \<Rightarrow> if keys = [] then Inl untrusted else Inr (Signed keys)
         | None \<Rightarrow>
             if strict \<and> is_cert_only broadcast then Inr Unsigned
             else if legacy_retired then Inl untrusted
             else Inr (case trust_pin store (PinSite origin) of
                  None \<Rightarrow> Unsigned | Some keys \<Rightarrow> if keys = [] then Unsigned else Signed keys))"

definition required_signature_fields :: "state_broadcast \<Rightarrow> state_broadcast_error + bytes \<times> u64" where
  "required_signature_fields broadcast = (case sb_signature broadcast of
     None \<Rightarrow> Inl (MissingSignature (sb_origin_site broadcast))
   | Some signature \<Rightarrow> (case sb_signed_at_ms broadcast of
       None \<Rightarrow> Inl (MissingTimestamp (sb_origin_site broadcast))
     | Some signed_at_ms \<Rightarrow> Inr (signature, signed_at_ms)))"

definition signable_for_verification :: "codec \<Rightarrow> state_broadcast \<Rightarrow> state_broadcast_error + bytes" where
  "signable_for_verification c broadcast = (case signable_bytes c broadcast of
     Inr bytes \<Rightarrow> Inr bytes | Inl source \<Rightarrow> Inl (SignableEncode (sb_origin_site broadcast) source))"

definition within_freshness_window :: "clock \<Rightarrow> u64 \<Rightarrow> bool" where
  "within_freshness_window now signed_at_ms \<longleftrightarrow>
     (let now_ms = wall_ms now
      in saturating_sub now_ms signed_at_ms \<le> MAX_BROADCAST_AGE_MS \<and>
         saturating_sub signed_at_ms now_ms \<le> MAX_CLOCK_SKEW_AHEAD_MS)"

definition validate_provider_networks ::
  "trust_store \<Rightarrow> string \<Rightarrow> string list \<Rightarrow> state_broadcast_error + unit" where
  "validate_provider_networks policy grid_id networks = (case provider_network policy grid_id of
     None \<Rightarrow> Inl (ProviderScopeMissing grid_id)
   | Some allowed \<Rightarrow> (case List.find (\<lambda>network. network \<noteq> allowed) networks of
       Some network \<Rightarrow> Inl (ProviderNetworkNotAllowed grid_id network)
     | None \<Rightarrow> Inr ()))"

definition claimed_networks :: "state_broadcast \<Rightarrow> string list" where
  "claimed_networks broadcast =
     map ps_network_id (filter (\<lambda>provider. ps_site_id provider = sb_origin_site broadcast)
       (fmvalues (gs_providers (sb_snapshot broadcast)))) @
     map (\<lambda>uid. id_network (pu_identity uid)) (filter (\<lambda>uid. id_site (pu_identity uid) = sb_origin_site broadcast)
       (sb_provider_uids broadcast))"

definition verify_signature_if_pinned ::
  "handler_env \<Rightarrow> clock \<Rightarrow> state_handler \<Rightarrow> state_broadcast \<Rightarrow> state_broadcast_error + unit" where
  "verify_signature_if_pinned env now self broadcast =
     try_bind (admission_of (hs_trust_store self) broadcast) (\<lambda>admission. case admission of
       Unsigned \<Rightarrow> Inr ()
     | Signed pinned_keys \<Rightarrow>
         try_bind (required_signature_fields broadcast) (\<lambda>(signature, signed_at_ms).
         try_bind (signable_for_verification (he_codec env) broadcast) (\<lambda>signable.
         if \<not> list_ex (\<lambda>key. he_verify env key signable signature) pinned_keys
         then Inl (SignatureInvalid (sb_origin_site broadcast))
         else if \<not> within_freshness_window now signed_at_ms
         then Inl (TimestampOutOfWindow (sb_origin_site broadcast))
         else case sb_grid_id broadcast of
             None \<Rightarrow> Inr ()
           | Some grid_id \<Rightarrow>
               if carries_provider_state broadcast \<or> sb_provider_uids broadcast \<noteq> []
               then validate_provider_networks (hs_trust_store self) grid_id (claimed_networks broadcast)
               else Inr ())))"

subsection \<open>Capacity\<close>

definition evictable :: "trust_store \<Rightarrow> string \<Rightarrow> bool" where
  "evictable trust_store origin \<longleftrightarrow>
     (case trust_pin trust_store (PinSite origin) of None \<Rightarrow> True | Some keys \<Rightarrow> keys = []) \<and>
     \<not> pinned_in_any_grid trust_store origin"

definition make_room_for :: "string \<Rightarrow> state_handler \<Rightarrow> bool \<times> state_handler" where
  "make_room_for incoming_origin self =
     (let origins = known_origins (hs_retained self)
      in if incoming_origin |\<in>| origins \<or> fcard origins < hs_max_origins self then (True, self)
      else case List.find (evictable (hs_trust_store self)) (sorted_list_of_fset origins) of
             None \<Rightarrow> (False, self)
           | Some origin \<Rightarrow> (True, handler_remove_origin origin self))"

definition has_room_for_scope :: "provider_state_scope \<Rightarrow> state_handler \<Rightarrow> bool" where
  "has_room_for_scope scope self \<longleftrightarrow>
     scope |\<in>| fmdom (rt_latest_by_scope (hs_retained self)) \<or>
     fmcount (rt_latest_by_scope (hs_retained self)) < hs_max_scopes self"

subsection \<open>Model inventories\<close>

definition scope_of_inventory :: "model_inventory \<Rightarrow> provider_state_scope" where
  "scope_of_inventory inventory = ProviderStateScope (mi_origin_site inventory) (Some (mi_grid_id inventory))"

definition identity_of_inventory :: "model_inventory \<Rightarrow> provider_identity" where
  "identity_of_inventory inventory =
     ProviderIdentity (mi_network_id inventory) (mi_origin_site inventory) (mi_provider_id inventory)"

text \<open>The filter of \<^verbatim>\<open>publish_verified_inventories\<close>: the advertised UID and the owner agree.\<close>

definition inventory_backed :: "retained_origins \<Rightarrow> model_inventory \<Rightarrow> bool" where
  "inventory_backed retained inventory \<longleftrightarrow>
     (case fmlookup (rt_provider_uids_by_scope retained) (scope_of_inventory inventory) of
        None \<Rightarrow> False
      | Some uids \<Rightarrow> fmlookup uids (identity_of_inventory inventory) = Some (mi_provider_uid inventory)) \<and>
     (case fmlookup (rt_provider_owners retained) (identity_of_inventory inventory) of
        None \<Rightarrow> False
      | Some owner \<Rightarrow> po_scope owner = scope_of_inventory inventory)"

definition publish_verified_inventories :: "clock \<Rightarrow> state_handler \<Rightarrow> state_handler" where
  "publish_verified_inventories now self =
     (let inventories = filter (inventory_backed (hs_retained self)) (inventories (wall_ms now) (hs_assembler self))
      in if hs_model_inventories self = inventories then self else self\<lparr>hs_model_inventories := inventories\<rparr>)"

definition invalidate_replaced_provider_inventories ::
  "string \<Rightarrow> string \<Rightarrow> (provider_identity, string) fmap \<Rightarrow> (provider_identity, string) fmap \<Rightarrow>
   state_handler \<Rightarrow> state_handler" where
  "invalidate_replaced_provider_inventories origin_site grid_id previous_uids incoming_uids self =
     self\<lparr>hs_assembler := fold (\<lambda>(identity, old_uid) assembler.
         if fmlookup incoming_uids identity = Some old_uid then assembler
         else withdraw_provider
           (InventoryScope origin_site grid_id (id_network identity) (id_provider identity) old_uid) assembler)
       (fmentries previous_uids) (hs_assembler self)\<rparr>"

definition receive_model_inventory ::
  "handler_env \<Rightarrow> clock \<Rightarrow> bytes \<Rightarrow> state_handler \<Rightarrow>
   (state_broadcast_error + state_broadcast_key option) \<times> state_handler" where
  "receive_model_inventory env now data self =
     (case inventory_broadcast_decode (he_decode_inventory env) data of
        Inl error \<Rightarrow> (Inl (DecodeError error), self)
      | Inr broadcast \<Rightarrow>
      (case (case trust_pin (hs_trust_store self) (PinGrid (mb_grid_id broadcast) (mb_origin_site broadcast)) of
               None \<Rightarrow> None | Some keys \<Rightarrow> if keys = [] then None else Some keys) of
         None \<Rightarrow> (Inl (UntrustedInventoryOrigin (mb_origin_site broadcast)), self)
       | Some keys \<Rightarrow>
      if \<not> frame_verifies (he_encode_scoped env) (he_verify env) now (mb_origin_site broadcast)
           (mb_grid_id broadcast) keys (mb_frame broadcast)
      then (Inl (InvalidInventorySignature (mb_origin_site broadcast)), self)
      else case validate_provider_networks (hs_trust_store self) (mb_grid_id broadcast)
                  [mf_network_id (mb_frame broadcast)] of
        Inl error \<Rightarrow> (Inl error, self)
      | Inr _ \<Rightarrow>
      let (room, self) = make_room_for (mb_origin_site broadcast) self
      in if \<not> room then (Inr None, self)
      else
      let self = self\<lparr>hs_retained := (hs_retained self)\<lparr>rt_inventory_scopes :=
             finsert (ProviderStateScope (mb_origin_site broadcast) (Some (mb_grid_id broadcast)))
               (rt_inventory_scopes (hs_retained self))\<rparr>\<rparr>;
          key = model_inventory_key broadcast;
          (result, assembler) = push (he_hash env) broadcast (wall_ms now) (hs_assembler self);
          self = self\<lparr>hs_assembler := assembler\<rparr>
      in case result of
           Inr Incomplete \<Rightarrow> (Inr (Some key), self)
         | Inr Duplicate \<Rightarrow> (Inr None, self)
         | Inr (Complete _) \<Rightarrow> (Inr (Some key), publish_verified_inventories now self)
         | Inl error \<Rightarrow>
             if error = StaleRevision then (Inr None, self)
             else (Inl (InventoryError error), publish_verified_inventories now self)))"

subsection \<open>State broadcasts\<close>

definition networks_to_replace :: "trust_store \<Rightarrow> state_broadcast \<Rightarrow> string fset \<Rightarrow> string fset" where
  "networks_to_replace store broadcast previous_networks =
     (let incoming_networks = fset_of_list (map ps_network_id
            (filter (\<lambda>provider. ps_site_id provider = sb_origin_site broadcast)
              (fmvalues (gs_providers (sb_snapshot broadcast)))));
          networks = previous_networks |\<union>| incoming_networks
      in case (case sb_grid_id broadcast of None \<Rightarrow> None | Some grid \<Rightarrow> provider_network store grid) of
           None \<Rightarrow> networks
         | Some allowed \<Rightarrow> ffilter (\<lambda>network. network = allowed) networks)"

definition verified_grid_of :: "trust_store \<Rightarrow> state_broadcast \<Rightarrow> bool" where
  "verified_grid_of store broadcast = (case sb_grid_id broadcast of
     None \<Rightarrow> False
   | Some grid \<Rightarrow> (case trust_pin store (PinGrid grid (sb_origin_site broadcast)) of
       None \<Rightarrow> False | Some keys \<Rightarrow> keys \<noteq> []))"

definition incoming_uids_of :: "state_broadcast \<Rightarrow> (provider_identity, string) fmap" where
  "incoming_uids_of broadcast =
     (let incoming_provider_identities = fset_of_list (map provider_identity_of
            (filter (\<lambda>provider. ps_site_id provider = sb_origin_site broadcast)
              (fmvalues (gs_providers (sb_snapshot broadcast)))))
      in collect_map (map (\<lambda>u. (pu_identity u, pu_uid u))
           (filter (\<lambda>u. id_site (pu_identity u) = sb_origin_site broadcast \<and>
                pu_identity u |\<in>| incoming_provider_identities) (sb_provider_uids broadcast))))"

definition apply_provider_state ::
  "clock \<Rightarrow> state_broadcast \<Rightarrow> provider_state_scope \<Rightarrow> string fset \<Rightarrow> (provider_identity, string) fmap \<Rightarrow>
   state_handler \<Rightarrow> state_broadcast_key \<times> state_handler" where
  "apply_provider_state now broadcast provider_scope previous_networks previous_provider_uids self =
     (let carries = carries_provider_state broadcast;
          networks = networks_to_replace (hs_trust_store self) broadcast previous_networks;
          verified_grid = verified_grid_of (hs_trust_store self) broadcast;
          snap = hs_state self;
          snap = snap\<lparr>gs_capabilities := orset_merge (gs_capabilities snap) (gs_capabilities (sb_snapshot broadcast))\<rparr>;
          snap = merge_tenant_spend_from_origin (sb_origin_site broadcast) (gs_tenant_spend (sb_snapshot broadcast)) snap;
          (accepted_networks, retained, snap) =
            (if carries then replace_providers snap broadcast networks verified_grid (hs_retained self)
             else ({||}, hs_retained self, snap));
          retained = retained\<lparr>rt_latest_by_scope :=
            fmupd provider_scope (sb_revision broadcast) (rt_latest_by_scope retained)\<rparr>;
          retained = (if verified_grid
            then retained\<lparr>rt_unverified_scopes := rt_unverified_scopes retained |-| {|provider_scope|}\<rparr>
            else retained\<lparr>rt_unverified_scopes := finsert provider_scope (rt_unverified_scopes retained)\<rparr>);
          retained = (if accepted_networks \<noteq> {||}
            then retained\<lparr>rt_provider_networks_by_scope :=
                   fmupd provider_scope accepted_networks (rt_provider_networks_by_scope retained)\<rparr>
            else retained);
          incoming_uids = incoming_uids_of broadcast;
          retained = (if carries
            then retained\<lparr>rt_provider_uids_by_scope :=
                   fmupd (broadcast_scope broadcast) incoming_uids (rt_provider_uids_by_scope retained)\<rparr>
            else retained);
          self = self\<lparr>hs_state := snap, hs_retained := retained\<rparr>;
          self = (if carries
            then invalidate_replaced_provider_inventories (sb_origin_site broadcast)
                   (case sb_grid_id broadcast of None \<Rightarrow> [] | Some grid_id \<Rightarrow> grid_id)
                   previous_provider_uids incoming_uids self
            else self)
      in (broadcast_key broadcast, publish_verified_inventories now self))"

definition receive_state_broadcast ::
  "handler_env \<Rightarrow> clock \<Rightarrow> state_broadcast \<Rightarrow> state_handler \<Rightarrow>
   (state_broadcast_error + state_broadcast_key option) \<times> state_handler" where
  "receive_state_broadcast env now broadcast self =
     (if sb_version broadcast \<noteq> STATE_BROADCAST_VERSION
      then (Inl (UnsupportedBroadcastVersion STATE_BROADCAST_VERSION (sb_version broadcast)), self)
      else case verify_signature_if_pinned env now self broadcast of
        Inl error \<Rightarrow> (Inl error, self)
      | Inr _ \<Rightarrow>
      let (room, self) = make_room_for (sb_origin_site broadcast) self
      in if \<not> room then (Inr None, self)
      else if is_metadata_only broadcast
      then let (refused, self) = store_metadata now broadcast self
           in (Inr (if refused then None else Some (broadcast_key broadcast)), self)
      else
      let provider_scope = broadcast_scope broadcast
      in if \<not> has_room_for_scope provider_scope self then (Inr None, self)
      else
      let latest = fmlookup (rt_latest_by_scope (hs_retained self)) provider_scope;
          previous_networks = (case fmlookup (rt_provider_networks_by_scope (hs_retained self)) provider_scope of
            None \<Rightarrow> {||} | Some networks \<Rightarrow> networks);
          previous_provider_uids = (case fmlookup (rt_provider_uids_by_scope (hs_retained self)) provider_scope of
            None \<Rightarrow> fmempty | Some uids \<Rightarrow> uids)
      in if (case latest of None \<Rightarrow> False
             | Some held \<Rightarrow> outranks held (sb_revision broadcast) (max_leased_revision (wall_ms now)))
      then (Inr None, self)
      else
      let self = snd (store_metadata now broadcast self)
      in if latest = Some (sb_revision broadcast) then (Inr None, self)
      else
      let (key, self) = apply_provider_state now broadcast provider_scope previous_networks previous_provider_uids self
      in (Inr (Some key), self))"

definition receive_item ::
  "handler_env \<Rightarrow> clock \<Rightarrow> bytes \<Rightarrow> state_handler \<Rightarrow>
   (state_broadcast_error + state_broadcast_key option) \<times> state_handler" where
  "receive_item env now data self =
     (if recognizes data then receive_model_inventory env now data self
      else case broadcast_decode (he_codec env) data of
        Inl error \<Rightarrow> (Inl (DecodeError error), self)
      | Inr broadcast \<Rightarrow> receive_state_broadcast env now broadcast self)"

end
