(* ===== verification/HandlerLaws.thy ===== *)
theory HandlerLaws
  imports Handler
begin

section \<open>The broadcast handler: how each operation changes the state\<close>

text \<open>
  The frame of every handler operation, the step relation of the handler, and the interface
  \<open>handler_preserved\<close>: a predicate the primitive operations keep holds after every message and every
  control operation. Bounds, ownership and publication are instances of it.
\<close>

subsection \<open>Lanes\<close>

lemma lane_maps_set [simp]:
  "lane_maps l (set_lane_maps l' vs rs r) = (if l = l' then (vs, rs) else lane_maps l r)"
  by (cases l; cases l') (simp_all add: lane_maps_def set_lane_maps_def)

lemma set_lane_maps_frame [simp]:
  "rt_provider_owners (set_lane_maps l vs rs r) = rt_provider_owners r"
  "rt_latest_by_scope (set_lane_maps l vs rs r) = rt_latest_by_scope r"
  "rt_unverified_scopes (set_lane_maps l vs rs r) = rt_unverified_scopes r"
  "rt_provider_networks_by_scope (set_lane_maps l vs rs r) = rt_provider_networks_by_scope r"
  "rt_provider_uids_by_scope (set_lane_maps l vs rs r) = rt_provider_uids_by_scope r"
  "rt_inventory_scopes (set_lane_maps l vs rs r) = rt_inventory_scopes r"
  by (cases l; simp add: set_lane_maps_def)+

lemma lane_tx_set [simp]: "lane_tx l (set_lane_tx l' vs h) = (if l = l' then vs else lane_tx l h)"
  by (cases l; cases l') (simp_all add: lane_tx_def set_lane_tx_def)

lemma lane_tx_retained [simp]: "lane_tx l (h\<lparr>hs_retained := r\<rparr>) = lane_tx l h"
  by (cases l) (simp_all add: lane_tx_def)

lemma set_lane_tx_frame [simp]:
  "hs_state (set_lane_tx l vs h) = hs_state h" "hs_retained (set_lane_tx l vs h) = hs_retained h"
  "hs_model_inventories (set_lane_tx l vs h) = hs_model_inventories h"
  "hs_assembler (set_lane_tx l vs h) = hs_assembler h" "hs_trust_store (set_lane_tx l vs h) = hs_trust_store h"
  "hs_max_origins (set_lane_tx l vs h) = hs_max_origins h" "hs_max_scopes (set_lane_tx l vs h) = hs_max_scopes h"
  by (cases l; simp add: set_lane_tx_def)+

text \<open>Whether a metadata revision passes its lane's guard.\<close>

definition lane_accepts :: "clock \<Rightarrow> lane \<Rightarrow> state_broadcast \<Rightarrow> retained_origins \<Rightarrow> bool" where
  "lane_accepts now l b r \<longleftrightarrow> sb_revision b \<le> max_metadata_revision l (wall_clock now) \<and>
     (case fmlookup (snd (lane_maps l r)) (sb_origin_site b) of None \<Rightarrow> True
      | Some held \<Rightarrow> \<not> outranks held (sb_revision b) (max_metadata_revision l (wall_clock now)))"

definition lane_stored :: "lane \<Rightarrow> state_broadcast \<Rightarrow> string \<Rightarrow> retained_origins \<Rightarrow> retained_origins" where
  "lane_stored l b v r = set_lane_maps l (fmupd (sb_origin_site b) v (fst (lane_maps l r)))
     (fmupd (sb_origin_site b) (sb_revision b) (snd (lane_maps l r))) r"

lemma fmupd_same: "fmlookup m k = Some v \<Longrightarrow> fmupd k v m = m"
  by (rule fmap_eqI) auto

lemma set_lane_tx_same: "set_lane_tx l (lane_tx l h) h = h"
  by (cases l) (simp_all add: set_lane_tx_def lane_tx_def)

lemma store_latest_eq:
  "snd (store_latest now l b v h) =
    (if lane_accepts now l b (hs_retained h)
     then set_lane_tx l (fmupd (sb_origin_site b) v (lane_tx l h)) (h\<lparr>hs_retained := lane_stored l b v (hs_retained h)\<rparr>)
     else h)"
proof -
  have same: "h\<lparr>hs_retained := r\<rparr> = set_lane_tx l (fmupd (sb_origin_site b) v (lane_tx l h)) (h\<lparr>hs_retained := r\<rparr>)"
    if "fmlookup (lane_tx l h) (sb_origin_site b) = Some v" for r
    using set_lane_tx_same [of l "h\<lparr>hs_retained := r\<rparr>"] fmupd_same [OF that] by simp
  show ?thesis
  proof (cases "lane_accepts now l b (hs_retained h)")
    case False
    then consider "sb_revision b > max_metadata_revision l (wall_clock now)"
      | held where "fmlookup (snd (lane_maps l (hs_retained h))) (sb_origin_site b) = Some held"
        "outranks held (sb_revision b) (max_metadata_revision l (wall_clock now))"
      by (auto simp: lane_accepts_def not_le split: option.splits)
    then have "snd (store_latest now l b v h) = h"
      unfolding store_latest_def Let_def case_prod_unfold by cases simp_all
    with False show ?thesis by simp
  next
    case True
    then have "snd (store_latest now l b v h) =
        (let self = h\<lparr>hs_retained := lane_stored l b v (hs_retained h)\<rparr>
         in if fmlookup (lane_tx l self) (sb_origin_site b) = Some v then self
            else set_lane_tx l (fmupd (sb_origin_site b) v (lane_tx l self)) self)"
      unfolding store_latest_def lane_accepts_def lane_stored_def Let_def case_prod_unfold
      by (cases "fmlookup (snd (lane_maps l (hs_retained h))) (sb_origin_site b)") (simp_all add: not_less [symmetric])
    with True same show ?thesis by (simp only: Let_def lane_tx_retained if_True split: if_split) blast
  qed
qed

lemma store_latest_refused:
  "fst (store_latest now l b v h) \<longleftrightarrow> sb_revision b > max_metadata_revision l (wall_clock now)"
  by (auto simp: store_latest_def Let_def case_prod_unfold split: option.splits)

lemma store_latest_frame [simp]:
  "hs_state (snd (store_latest now l b v h)) = hs_state h"
  "hs_model_inventories (snd (store_latest now l b v h)) = hs_model_inventories h"
  "hs_assembler (snd (store_latest now l b v h)) = hs_assembler h"
  "hs_trust_store (snd (store_latest now l b v h)) = hs_trust_store h"
  "hs_max_origins (snd (store_latest now l b v h)) = hs_max_origins h"
  "hs_max_scopes (snd (store_latest now l b v h)) = hs_max_scopes h"
  "rt_provider_owners (hs_retained (snd (store_latest now l b v h))) = rt_provider_owners (hs_retained h)"
  "rt_latest_by_scope (hs_retained (snd (store_latest now l b v h))) = rt_latest_by_scope (hs_retained h)"
  "rt_unverified_scopes (hs_retained (snd (store_latest now l b v h))) = rt_unverified_scopes (hs_retained h)"
  "rt_provider_networks_by_scope (hs_retained (snd (store_latest now l b v h))) = rt_provider_networks_by_scope (hs_retained h)"
  "rt_provider_uids_by_scope (hs_retained (snd (store_latest now l b v h))) = rt_provider_uids_by_scope (hs_retained h)"
  "rt_inventory_scopes (hs_retained (snd (store_latest now l b v h))) = rt_inventory_scopes (hs_retained h)"
  by (simp_all add: store_latest_eq lane_stored_def)

text \<open>The handler after every carried value, which is what \<open>store_metadata\<close> leaves.\<close>

lemma store_metadata_fold:
  "snd (store_metadata now b h) = fold (\<lambda>(l, v) h. snd (store_latest now l b v h)) (carried_metadata b) h"
proof -
  have "snd (snd (fold (\<lambda>(lane, value) (_, all, self).
            let (refused, self) = store_latest now lane b value self in (True, all \<and> refused, self)) vs (c, a, h))) =
      fold (\<lambda>(l, v) h. snd (store_latest now l b v h)) vs h" for vs c a h
  proof (induction vs arbitrary: c a h)
    case (Cons lv vs)
    obtain l v where "lv = (l, v)" by (cases lv)
    then show ?case using Cons.IH by (simp add: case_prod_unfold Let_def)
  qed simp
  then show ?thesis by (simp add: store_metadata_def case_prod_unfold Let_def)
qed

lemma store_metadata_induct:
  assumes "Q h" "\<And>l v h. (l, v) \<in> set (carried_metadata b) \<Longrightarrow> Q h \<Longrightarrow> Q (snd (store_latest now l b v h))"
  shows "Q (snd (store_metadata now b h))"
  unfolding store_metadata_fold
proof (rule fold_invariant_mem)
  show "Q h" by (rule assms(1))
  show "Q ((\<lambda>(l, v) h. snd (store_latest now l b v h)) x h')" if "x \<in> set (carried_metadata b)" "Q h'" for x h'
    using that assms(2) [of "fst x" "snd x" h'] by (simp add: case_prod_unfold)
qed

lemma store_metadata_frame [simp]:
  "hs_state (snd (store_metadata now b h)) = hs_state h"
  "hs_model_inventories (snd (store_metadata now b h)) = hs_model_inventories h"
  "hs_assembler (snd (store_metadata now b h)) = hs_assembler h"
  "hs_trust_store (snd (store_metadata now b h)) = hs_trust_store h"
  "hs_max_origins (snd (store_metadata now b h)) = hs_max_origins h"
  "hs_max_scopes (snd (store_metadata now b h)) = hs_max_scopes h"
  "rt_provider_owners (hs_retained (snd (store_metadata now b h))) = rt_provider_owners (hs_retained h)"
  "rt_latest_by_scope (hs_retained (snd (store_metadata now b h))) = rt_latest_by_scope (hs_retained h)"
  "rt_unverified_scopes (hs_retained (snd (store_metadata now b h))) = rt_unverified_scopes (hs_retained h)"
  "rt_provider_networks_by_scope (hs_retained (snd (store_metadata now b h))) = rt_provider_networks_by_scope (hs_retained h)"
  "rt_provider_uids_by_scope (hs_retained (snd (store_metadata now b h))) = rt_provider_uids_by_scope (hs_retained h)"
  "rt_inventory_scopes (hs_retained (snd (store_metadata now b h))) = rt_inventory_scopes (hs_retained h)"
  by (rule store_metadata_induct; simp)+

subsection \<open>Removal\<close>

lemma control_remove_origin_eq: "control_remove_origin origin h = handler_remove_origin origin h"
  by (simp add: control_remove_origin_def handler_remove_origin_def publish_departed_def Let_def)

lemma retained_remove_simps [simp]:
  "rt_provider_owners (retained_remove origin r) = fmretain (\<lambda>i _. id_site i \<noteq> origin) (rt_provider_owners r)"
  "rt_latest_by_scope (retained_remove origin r) = fmretain (\<lambda>s _. sc_origin_site s \<noteq> origin) (rt_latest_by_scope r)"
  "rt_unverified_scopes (retained_remove origin r) = ffilter (\<lambda>s. sc_origin_site s \<noteq> origin) (rt_unverified_scopes r)"
  "rt_provider_networks_by_scope (retained_remove origin r) =
     fmretain (\<lambda>s _. sc_origin_site s \<noteq> origin) (rt_provider_networks_by_scope r)"
  "rt_provider_uids_by_scope (retained_remove origin r) =
     fmretain (\<lambda>s _. sc_origin_site s \<noteq> origin) (rt_provider_uids_by_scope r)"
  "rt_inventory_scopes (retained_remove origin r) = ffilter (\<lambda>s. sc_origin_site s \<noteq> origin) (rt_inventory_scopes r)"
  "lane_maps l (retained_remove origin r) = (fmdrop origin (fst (lane_maps l r)), fmdrop origin (snd (lane_maps l r)))"
  by (simp_all add: retained_remove_def retained_forget_departed_def lane_maps_def Let_def split: lane.split)

lemma all_lane: "(\<forall>l. P l) \<longleftrightarrow> P Gateway \<and> P Cert \<and> P Signals"
  by (metis lane.exhaust)

lemma ex_lane: "(\<exists>l. P l) \<longleftrightarrow> P Gateway \<or> P Cert \<or> P Signals"
  by (metis lane.exhaust)

lemma fmdom_retain_keys [simp]: "fmdom (fmretain (\<lambda>k _. P k) m) = ffilter P (fmdom m)"
  by (rule fset_eqI) (auto simp: fmlookup_dom_iff split: option.splits)

lemma in_known_origins:
  "origin |\<in>| known_origins r \<longleftrightarrow>
    (\<exists>s. s |\<in>| fmdom (rt_latest_by_scope r) |\<union>| fmdom (rt_provider_networks_by_scope r) |\<union>| rt_inventory_scopes r \<and>
       sc_origin_site s = origin) \<or>
    (\<exists>l. origin |\<in>| fmdom (fst (lane_maps l r)) |\<union>| fmdom (snd (lane_maps l r)))"
  (is "?known \<longleftrightarrow> ?scope \<or> ?lane")
  unfolding known_origins_def ex_lane by (simp add: lane_maps_def fimage_iff bex_Un) blast

lemma known_origins_remove: "known_origins (retained_remove origin r) = known_origins r |-| {|origin|}"
proof (rule fset_eqI)
  fix x
  show "x |\<in>| known_origins (retained_remove origin r) \<longleftrightarrow> x |\<in>| known_origins r |-| {|origin|}"
    unfolding in_known_origins fminus_iff by auto
qed

subsection \<open>Publishing inventories\<close>

lemma publish_verified_inventories_eq:
  "publish_verified_inventories now h = h\<lparr>hs_model_inventories :=
     filter (inventory_backed (hs_retained h)) (inventories (wall_ms now) (hs_assembler h))\<rparr>"
  by (simp add: publish_verified_inventories_def Let_def)

subsection \<open>Replacing the providers of a scope\<close>

text \<open>The records of a broadcast that enter the snapshot, as they are written there.\<close>

definition accepted_providers :: "state_broadcast \<Rightarrow> string fset \<Rightarrow> provider_state list" where
  "accepted_providers b nets = map (stamp_provider (sb_origin_site b) (sb_revision b))
     (filter (\<lambda>p. ps_site_id p = sb_origin_site b \<and> ps_network_id p |\<in>| nets) (fmvalues (gs_providers (sb_snapshot b))))"

lemma stamp_identity [simp]: "provider_identity_of (stamp_provider origin revision p) = provider_identity_of p"
  by (simp add: provider_identity_of_def)

lemma incoming_identities_iff:
  "i |\<in>| incoming_identities b nets \<longleftrightarrow> (\<exists>q\<in>set (fmvalues (gs_providers (sb_snapshot b))).
     (ps_site_id q = sb_origin_site b \<and> ps_network_id q |\<in>| nets) \<and> provider_identity_of q = i)"
  unfolding incoming_identities_def fset_of_list_elem set_map image_iff set_filter by blast

lemma in_incoming_identities:
  "p \<in> set (fmvalues (gs_providers (sb_snapshot b))) \<Longrightarrow>
   provider_identity_of p |\<in>| incoming_identities b nets \<longleftrightarrow> ps_site_id p = sb_origin_site b \<and> ps_network_id p |\<in>| nets"
  by (auto simp: incoming_identities_iff provider_identity_of_def simp del: in_fmvalues)

lemma filter_incoming:
  "filter (\<lambda>p. provider_identity_of p |\<in>| incoming_identities b nets) (fmvalues (gs_providers (sb_snapshot b))) =
   filter (\<lambda>p. ps_site_id p = sb_origin_site b \<and> ps_network_id p |\<in>| nets) (fmvalues (gs_providers (sb_snapshot b)))"
  by (rule filter_cong [OF refl]) (rule in_incoming_identities)

lemma incoming_identities_accepted:
  "i |\<in>| incoming_identities b nets \<longleftrightarrow> (\<exists>p\<in>set (accepted_providers b nets). provider_identity_of p = i)"
  by (auto simp: incoming_identities_iff accepted_providers_def simp del: in_fmvalues)

lemma replace_fold:
  "fold (\<lambda>p (accepted, owners, snapshot).
       let p = stamp_provider origin revision p
       in (finsert (ps_network_id p) accepted, fmupd (provider_identity_of p) owner owners, upsert_provider p snapshot))
     ps (accepted, owners, snapshot) =
   (fold (\<lambda>p. finsert (ps_network_id p)) (map (stamp_provider origin revision) ps) accepted,
    fold (\<lambda>p. fmupd (provider_identity_of p) owner) (map (stamp_provider origin revision) ps) owners,
    fold upsert_provider (map (stamp_provider origin revision) ps) snapshot)"
  by (induction ps arbitrary: accepted owners snapshot) (simp_all add: Let_def)

lemma replace_providers_eq:
  "replace_providers snapshot b nets verified r =
    (fold (\<lambda>p. finsert (ps_network_id p)) (accepted_providers b nets) {||},
     r\<lparr>rt_provider_owners := fold (\<lambda>p. fmupd (provider_identity_of p)
         \<lparr>po_scope = broadcast_scope b, po_verified_grid = verified\<rparr>) (accepted_providers b nets)
       (fmretain (\<lambda>i _. \<not> replaces_identity b nets (rt_provider_owners r) i) (rt_provider_owners r))\<rparr>,
     fold upsert_provider (accepted_providers b nets) (snapshot\<lparr>gs_providers :=
       fmretain (\<lambda>_ p. \<not> replaces_identity b nets (rt_provider_owners r) (provider_identity_of p)) (gs_providers snapshot)\<rparr>))"
  by (simp only: replace_providers_def Let_def filter_incoming replace_fold [unfolded Let_def] prod.case accepted_providers_def)

lemma owners_fold_lookup:
  "fmlookup (fold (\<lambda>p. fmupd (provider_identity_of p) owner) ps m) i =
    (if \<exists>p\<in>set ps. provider_identity_of p = i then Some owner else fmlookup m i)"
  by (induction ps arbitrary: m) auto

lemma replaced_owners_lookup:
  "fmlookup (rt_provider_owners (fst (snd (replace_providers snapshot b nets verified r)))) i =
    (if i |\<in>| incoming_identities b nets then Some \<lparr>po_scope = broadcast_scope b, po_verified_grid = verified\<rparr>
     else if replaces_identity b nets (rt_provider_owners r) i then None
     else fmlookup (rt_provider_owners r) i)"
  by (simp add: replace_providers_eq owners_fold_lookup incoming_identities_accepted split: option.split)

subsection \<open>Applying a state broadcast\<close>

definition merged_snapshot :: "state_broadcast \<Rightarrow> grid_state_snapshot \<Rightarrow> grid_state_snapshot" where
  "merged_snapshot b snap = merge_tenant_spend_from_origin (sb_origin_site b) (gs_tenant_spend (sb_snapshot b))
     (snap\<lparr>gs_capabilities := orset_merge (gs_capabilities snap) (gs_capabilities (sb_snapshot b))\<rparr>)"

definition applied_replacement ::
  "state_broadcast \<Rightarrow> string fset \<Rightarrow> state_handler \<Rightarrow> string fset \<times> retained_origins \<times> grid_state_snapshot" where
  "applied_replacement b previous h = replace_providers (merged_snapshot b (hs_state h)) b
     (networks_to_replace (hs_trust_store h) b previous) (verified_grid_of (hs_trust_store h) b) (hs_retained h)"

lemma apply_frame [simp]:
  fixes h :: state_handler
  defines "h' \<equiv> \<lambda>now b s nets uids. snd (apply_provider_state now b s nets uids h)"
  shows "hs_gateway_addrs (h' now b s nets uids) = hs_gateway_addrs h"
    "hs_cert_pems (h' now b s nets uids) = hs_cert_pems h"
    "hs_signals_addrs (h' now b s nets uids) = hs_signals_addrs h"
    "hs_trust_store (h' now b s nets uids) = hs_trust_store h"
    "hs_max_origins (h' now b s nets uids) = hs_max_origins h"
    "hs_max_scopes (h' now b s nets uids) = hs_max_scopes h"
    "lane_maps l (hs_retained (h' now b s nets uids)) = lane_maps l (hs_retained h)"
    "rt_inventory_scopes (hs_retained (h' now b s nets uids)) = rt_inventory_scopes (hs_retained h)"
  unfolding h'_def apply_provider_state_def Let_def publish_verified_inventories_eq
    invalidate_replaced_provider_inventories_def case_prod_unfold
  by (simp_all add: replace_providers_eq lane_maps_def split: lane.split)

lemma apply_retained [simp]:
  fixes h :: state_handler
  defines "r' \<equiv> \<lambda>now b s nets uids. hs_retained (snd (apply_provider_state now b s nets uids h))"
  shows "rt_latest_by_scope (r' now b s nets uids) = fmupd s (sb_revision b) (rt_latest_by_scope (hs_retained h))"
    "rt_unverified_scopes (r' now b s nets uids) = (if verified_grid_of (hs_trust_store h) b
       then rt_unverified_scopes (hs_retained h) |-| {|s|} else finsert s (rt_unverified_scopes (hs_retained h)))"
    "rt_provider_networks_by_scope (r' now b s nets uids) =
       (if carries_provider_state b \<and> fst (applied_replacement b nets h) \<noteq> {||}
        then fmupd s (fst (applied_replacement b nets h)) (rt_provider_networks_by_scope (hs_retained h))
        else rt_provider_networks_by_scope (hs_retained h))"
    "rt_provider_uids_by_scope (r' now b s nets uids) = (if carries_provider_state b
       then fmupd (broadcast_scope b) (incoming_uids_of b) (rt_provider_uids_by_scope (hs_retained h))
       else rt_provider_uids_by_scope (hs_retained h))"
    "rt_provider_owners (r' now b s nets uids) = (if carries_provider_state b
       then rt_provider_owners (fst (snd (applied_replacement b nets h))) else rt_provider_owners (hs_retained h))"
  unfolding r'_def apply_provider_state_def Let_def publish_verified_inventories_eq
    invalidate_replaced_provider_inventories_def case_prod_unfold applied_replacement_def merged_snapshot_def
  by (simp_all add: replace_providers_eq)

lemma apply_snapshot:
  "hs_state (snd (apply_provider_state now b s nets uids h)) = (if carries_provider_state b
     then snd (snd (applied_replacement b nets h)) else merged_snapshot b (hs_state h))"
  unfolding apply_provider_state_def Let_def publish_verified_inventories_eq
    invalidate_replaced_provider_inventories_def case_prod_unfold applied_replacement_def merged_snapshot_def
  by simp

lemma apply_assembler:
  "hs_assembler (snd (apply_provider_state now b s nets uids h)) = (if carries_provider_state b
     then hs_assembler (invalidate_replaced_provider_inventories (sb_origin_site b)
       (case sb_grid_id b of None \<Rightarrow> [] | Some grid_id \<Rightarrow> grid_id) uids (incoming_uids_of b) h)
     else hs_assembler h)"
  unfolding apply_provider_state_def Let_def publish_verified_inventories_eq
    invalidate_replaced_provider_inventories_def case_prod_unfold
  by simp

lemma apply_published:
  "\<exists>h1. snd (apply_provider_state now b s nets uids h) = publish_verified_inventories now h1"
  unfolding apply_provider_state_def Let_def case_prod_unfold by auto

subsection \<open>Receiving\<close>

lemma find_SomeD: "List.find P xs = Some x \<Longrightarrow> P x \<and> x \<in> set xs"
  by (induction xs) (auto split: if_splits)

lemma make_room_cases:
  obtains (kept) "make_room_for origin h = (True, h)"
      "origin |\<in>| known_origins (hs_retained h) \<or> fcard (known_origins (hs_retained h)) < hs_max_origins h"
  | (evicted) victim where "make_room_for origin h = (True, handler_remove_origin victim h)"
      "evictable (hs_trust_store h) victim" "victim |\<in>| known_origins (hs_retained h)"
      "origin |\<notin>| known_origins (hs_retained h)" "\<not> fcard (known_origins (hs_retained h)) < hs_max_origins h"
  | (full) "make_room_for origin h = (False, h)"
proof (cases "origin |\<in>| known_origins (hs_retained h) \<or> fcard (known_origins (hs_retained h)) < hs_max_origins h")
  case True
  then show thesis by (intro kept) (auto simp: make_room_for_def)
next
  case False
  show thesis
  proof (cases "List.find (evictable (hs_trust_store h)) (sorted_list_of_fset (known_origins (hs_retained h)))")
    case None
    with False show thesis by (intro full) (simp add: make_room_for_def)
  next
    case (Some victim)
    then have "evictable (hs_trust_store h) victim" "victim \<in> set (sorted_list_of_fset (known_origins (hs_retained h)))"
      by (auto dest: find_SomeD simp del: set_sorted_list_of_fset)
    with False Some show thesis by (intro evicted [of victim]) (simp_all add: make_room_for_def)
  qed
qed

text \<open>The handler before a broadcast is applied: room was made and its metadata stored.\<close>

lemma receive_state_cases:
  obtains (rejected) e where "receive_state_broadcast env now b h = (Inl e, h)"
  | (no_room) "verify_signature_if_pinned env now h b = Inr ()"
      "receive_state_broadcast env now b h = (Inr None, h)"
  | (metadata) h1 where "verify_signature_if_pinned env now h b = Inr ()"
      "make_room_for (sb_origin_site b) h = (True, h1)" "is_metadata_only b"
      "receive_state_broadcast env now b h =
        (Inr (if fst (store_metadata now b h1) then None else Some (broadcast_key b)), snd (store_metadata now b h1))"
  | (ignored) h1 where "verify_signature_if_pinned env now h b = Inr ()"
      "make_room_for (sb_origin_site b) h = (True, h1)" "\<not> is_metadata_only b"
      "receive_state_broadcast env now b h = (Inr None, h1)"
  | (repeated) h1 where "verify_signature_if_pinned env now h b = Inr ()"
      "make_room_for (sb_origin_site b) h = (True, h1)" "\<not> is_metadata_only b"
      "fmlookup (rt_latest_by_scope (hs_retained h1)) (broadcast_scope b) = Some (sb_revision b)"
      "receive_state_broadcast env now b h = (Inr None, snd (store_metadata now b h1))"
  | (applied) h1 nets uids where "verify_signature_if_pinned env now h b = Inr ()"
      "make_room_for (sb_origin_site b) h = (True, h1)" "\<not> is_metadata_only b"
      "has_room_for_scope (broadcast_scope b) h1"
      "case fmlookup (rt_latest_by_scope (hs_retained h1)) (broadcast_scope b) of None \<Rightarrow> True
       | Some held \<Rightarrow> held \<noteq> sb_revision b \<and> \<not> outranks held (sb_revision b) (max_leased_revision (wall_ms now))"
      "nets = (case fmlookup (rt_provider_networks_by_scope (hs_retained h1)) (broadcast_scope b) of
        None \<Rightarrow> {||} | Some networks \<Rightarrow> networks)"
      "uids = (case fmlookup (rt_provider_uids_by_scope (hs_retained h1)) (broadcast_scope b) of
        None \<Rightarrow> fmempty | Some uids \<Rightarrow> uids)"
      "receive_state_broadcast env now b h = (Inr (Some (broadcast_key b)),
        snd (apply_provider_state now b (broadcast_scope b) nets uids (snd (store_metadata now b h1))))"
proof -
  show thesis
  proof (cases "sb_version b \<noteq> STATE_BROADCAST_VERSION \<or> (\<exists>e. verify_signature_if_pinned env now h b = Inl e)")
    case True
    then have "\<exists>e. receive_state_broadcast env now b h = (Inl e, h)" by (auto simp: receive_state_broadcast_def)
    with rejected show thesis by blast
  next
    case False
    then have ok: "sb_version b = STATE_BROADCAST_VERSION" "verify_signature_if_pinned env now h b = Inr ()"
      by (auto, cases "verify_signature_if_pinned env now h b") auto
    obtain room h1 where h1: "make_room_for (sb_origin_site b) h = (room, h1)" by fastforce
    show thesis
    proof (cases room)
      case False
      with h1 have "h1 = h" by (cases rule: make_room_cases [of "sb_origin_site b" h]) auto
      with False h1 ok show thesis by (intro no_room) (simp_all add: receive_state_broadcast_def)
    next
      case True
      then have h1': "make_room_for (sb_origin_site b) h = (True, h1)" using h1 by simp
      note recv = receive_state_broadcast_def ok h1' Let_def case_prod_unfold
      let ?latest = "fmlookup (rt_latest_by_scope (hs_retained h1)) (broadcast_scope b)"
      consider "is_metadata_only b"
        | "\<not> is_metadata_only b" "\<not> has_room_for_scope (broadcast_scope b) h1"
        | held where "\<not> is_metadata_only b" "has_room_for_scope (broadcast_scope b) h1" "?latest = Some held"
            "outranks held (sb_revision b) (max_leased_revision (wall_ms now))"
        | "\<not> is_metadata_only b" "has_room_for_scope (broadcast_scope b) h1" "?latest = Some (sb_revision b)"
        | "\<not> is_metadata_only b" "has_room_for_scope (broadcast_scope b) h1" "case ?latest of None \<Rightarrow> True
            | Some held \<Rightarrow> held \<noteq> sb_revision b \<and> \<not> outranks held (sb_revision b) (max_leased_revision (wall_ms now))"
        by (cases ?latest) auto
      then show thesis
      proof cases
        case 1
        then show thesis by (intro metadata [OF ok(2) h1' 1]) (simp add: recv)
      next
        case 2
        then show thesis by (intro ignored [OF ok(2) h1' 2(1)]) (simp add: recv)
      next
        case 3
        then show thesis by (intro ignored [OF ok(2) h1' 3(1)]) (simp add: recv)
      next
        case 4
        moreover have "\<not> outranks (sb_revision b) (sb_revision b) cap" for cap
          by (simp add: outranks_def)
        ultimately show thesis
          by (intro repeated [OF ok(2) h1' 4(1,3)]) (simp add: recv)
      next
        case 5
        have key: "fst (apply_provider_state now b s n u x) = broadcast_key b" for s n u x
          by (simp add: apply_provider_state_def Let_def case_prod_unfold)
        show thesis
          using 5 by (intro applied [OF ok(2) h1' 5 refl refl]; cases ?latest) (simp_all add: recv key)
      qed
    qed
  qed
qed

text \<open>The handler after an authenticated frame was pushed, before anything is published.\<close>

definition frame_pushed :: "handler_env \<Rightarrow> clock \<Rightarrow> model_inventory_broadcast \<Rightarrow> state_handler \<Rightarrow> state_handler" where
  "frame_pushed env now mb h = h\<lparr>hs_retained := (hs_retained h)\<lparr>rt_inventory_scopes :=
       finsert (ProviderStateScope (mb_origin_site mb) (Some (mb_grid_id mb))) (rt_inventory_scopes (hs_retained h))\<rparr>,
     hs_assembler := snd (push (he_hash env) mb (wall_ms now) (hs_assembler h))\<rparr>"

definition frame_authentic :: "handler_env \<Rightarrow> clock \<Rightarrow> trust_store \<Rightarrow> model_inventory_broadcast \<Rightarrow> bool" where
  "frame_authentic env now store mb \<longleftrightarrow>
     (\<exists>keys. trust_pin store (PinGrid (mb_grid_id mb) (mb_origin_site mb)) = Some keys \<and> keys \<noteq> [] \<and>
        frame_verifies (he_encode_scoped env) (he_verify env) now (mb_origin_site mb) (mb_grid_id mb) keys (mb_frame mb)) \<and>
     provider_network store (mb_grid_id mb) = Some (mf_network_id (mb_frame mb))"

lemma validate_provider_networks_ok:
  "validate_provider_networks store grid networks = Inr () \<longleftrightarrow>
    (\<exists>allowed. provider_network store grid = Some allowed \<and> (\<forall>network\<in>set networks. network = allowed))"
  by (auto simp: validate_provider_networks_def find_None_iff dest: find_SomeD split: option.splits)

lemma validate_provider_networks_error:
  "validate_provider_networks store grid networks = Inl e \<Longrightarrow> e \<noteq> InventoryError ie"
  by (auto simp: validate_provider_networks_def split: option.splits)

lemma receive_inventory_cases:
  obtains (rejected) e where "receive_model_inventory env now data h = (Inl e, h)" "\<And>ie. e \<noteq> InventoryError ie"
  | (no_room) "receive_model_inventory env now data h = (Inr None, h)"
  | (pushed) mb h1 res where "inventory_broadcast_decode (he_decode_inventory env) data = Inr mb"
      "frame_authentic env now (hs_trust_store h) mb" "make_room_for (mb_origin_site mb) h = (True, h1)"
      "receive_model_inventory env now data h = (res, frame_pushed env now mb h1) \<and>
         (res = Inr None \<or> res = Inr (Some (model_inventory_key mb))) \<or>
       receive_model_inventory env now data h = (res, publish_verified_inventories now (frame_pushed env now mb h1)) \<and>
         (res = Inr (Some (model_inventory_key mb)) \<or> (\<exists>error. res = Inl (InventoryError error)))"
proof (cases "inventory_broadcast_decode (he_decode_inventory env) data")
  case (Inl e)
  then show thesis by (intro rejected [of "DecodeError e"]) (simp_all add: receive_model_inventory_def)
next
  case (Inr mb)
  let ?pin = "trust_pin (hs_trust_store h) (PinGrid (mb_grid_id mb) (mb_origin_site mb))"
  let ?nets = "validate_provider_networks (hs_trust_store h) (mb_grid_id mb) [mf_network_id (mb_frame mb)]"
  note recv = receive_model_inventory_def Inr
  show thesis
  proof (cases "?pin = None \<or> ?pin = Some []")
    case True
    then show thesis
      by (intro rejected [of "UntrustedInventoryOrigin (mb_origin_site mb)"]) (auto simp: recv)
  next
    case False
    then obtain keys where keys: "?pin = Some keys" "keys \<noteq> []" by auto
    show thesis
    proof (cases "frame_verifies (he_encode_scoped env) (he_verify env) now (mb_origin_site mb) (mb_grid_id mb) keys (mb_frame mb)")
      case False
      with keys show thesis
        by (intro rejected [of "InvalidInventorySignature (mb_origin_site mb)"]) (simp_all add: recv)
    next
      case verified: True
      show thesis
      proof (cases ?nets)
        case (Inl e)
        with keys verified show thesis
          by (intro rejected [of e] validate_provider_networks_error [OF Inl]) (simp add: recv)
      next
        case ok: (Inr u)
        then have auth: "frame_authentic env now (hs_trust_store h) mb"
          using keys verified validate_provider_networks_ok [of "hs_trust_store h" "mb_grid_id mb" "[mf_network_id (mb_frame mb)]"]
          by (auto simp: frame_authentic_def)
        obtain room h1 where h1: "make_room_for (mb_origin_site mb) h = (room, h1)" by fastforce
        show thesis
        proof (cases room)
          case False
          with h1 have "h1 = h" by (cases rule: make_room_cases [of "mb_origin_site mb" h]) auto
          with False h1 keys verified ok show thesis by (intro no_room) (simp add: recv)
        next
          case True
          obtain result a where p: "push (he_hash env) mb (wall_ms now) (hs_assembler h1) = (result, a)" by fastforce
          have "receive_model_inventory env now data h =
              (case result of
                 Inr Incomplete \<Rightarrow> (Inr (Some (model_inventory_key mb)), frame_pushed env now mb h1)
               | Inr Duplicate \<Rightarrow> (Inr None, frame_pushed env now mb h1)
               | Inr (Complete _) \<Rightarrow> (Inr (Some (model_inventory_key mb)),
                   publish_verified_inventories now (frame_pushed env now mb h1))
               | Inl error \<Rightarrow> if error = StaleRevision then (Inr None, frame_pushed env now mb h1)
                   else (Inl (InventoryError error), publish_verified_inventories now (frame_pushed env now mb h1)))"
            unfolding frame_pushed_def p snd_conv using keys verified ok h1 True p by (simp add: recv Let_def)
          then show thesis
            using h1 True by (intro pushed [OF Inr auth, of h1 "fst (receive_model_inventory env now data h)"])
              (auto split: sum.splits inventory_assembly_result.splits if_splits)
        qed
      qed
    qed
  qed
qed

subsection \<open>Steps of the handler\<close>

text \<open>
  A message from the network at some time, one of the control operations, or any update of the trust
  store; operations of different tasks interleave freely.
\<close>

inductive handler_step :: "handler_env \<Rightarrow> state_handler \<Rightarrow> state_handler \<Rightarrow> bool" for env where
  step_receive: "handler_step env h (snd (receive_item env now data h))"
| step_remove_grid: "handler_step env h (control_remove_grid grid origin h)"
| step_remove_origin: "handler_step env h (control_remove_origin site h)"
| step_forget_departed: "handler_step env h (control_forget_departed site h)"
| step_trust_store: "handler_step env h (h\<lparr>hs_trust_store := store\<rparr>)"

inductive_cases handler_stepE [elim]: "handler_step env h h'"

abbreviation handler_steps :: "handler_env \<Rightarrow> state_handler \<Rightarrow> state_handler \<Rightarrow> bool" where
  "handler_steps env \<equiv> (handler_step env)\<^sup>*\<^sup>*"

text \<open>
  What the primitive operations must keep of a predicate \<open>P\<close> for it to hold in every reachable
  state. \<open>R origin\<close> is what holds once room was made for a message of \<open>origin\<close>.
\<close>

locale handler_preserved =
  fixes P :: "state_handler \<Rightarrow> bool"
    and R :: "string \<Rightarrow> state_handler \<Rightarrow> bool"
  assumes room: "P h \<Longrightarrow> make_room_for site h = (True, h') \<Longrightarrow> P h' \<and> R site h'"
    and store: "P h \<Longrightarrow> R (sb_origin_site b) h \<Longrightarrow>
      P (snd (store_latest now lane b v h)) \<and> R (sb_origin_site b) (snd (store_latest now lane b v h))"
    and apply_state: "P h \<Longrightarrow> R (sb_origin_site b) h \<Longrightarrow> has_room_for_scope (broadcast_scope b) h \<Longrightarrow>
      P (snd (apply_provider_state now b (broadcast_scope b) nets uids h))"
    and push_frame: "P h \<Longrightarrow> R (mb_origin_site mb) h \<Longrightarrow> P (frame_pushed env now mb h)"
    and published: "P h \<Longrightarrow> P (publish_verified_inventories now h)"
    and remove_grid: "P h \<Longrightarrow> P (control_remove_grid grid origin h)"
    and remove_origin: "P h \<Longrightarrow> P (handler_remove_origin site h)"
    and forget: "P h \<Longrightarrow> P (control_forget_departed site h)"
    and trust: "P h \<Longrightarrow> P (h\<lparr>hs_trust_store := store_value\<rparr>)"
begin

lemma stored_metadata:
  assumes "P h" "R (sb_origin_site b) h"
  shows "P (snd (store_metadata now b h)) \<and> R (sb_origin_site b) (snd (store_metadata now b h))"
  by (rule store_metadata_induct [where Q = "\<lambda>h. P h \<and> R (sb_origin_site b) h"]) (use assms store in blast)+

lemma has_room_metadata: "has_room_for_scope s (snd (store_metadata now b h)) \<longleftrightarrow> has_room_for_scope s h"
  by (simp add: has_room_for_scope_def)

lemma state_broadcast:
  assumes "P h"
  shows "P (snd (receive_state_broadcast env now b h))"
proof (cases rule: receive_state_cases [of env now b h])
  case (metadata h1)
  then show ?thesis using room [OF assms metadata(2)] metadata by (simp add: stored_metadata)
next
  case (ignored h1)
  then show ?thesis using room [OF assms ignored(2)] by simp
next
  case (repeated h1)
  then show ?thesis using room [OF assms repeated(2)] by (simp add: stored_metadata)
next
  case (applied h1 nets uids)
  then show ?thesis
    using room [OF assms applied(2)] stored_metadata [of h1 b now] has_room_metadata
    by (simp add: apply_state)
qed (simp_all add: assms)

lemma inventory:
  assumes "P h"
  shows "P (snd (receive_model_inventory env now data h))"
proof (cases rule: receive_inventory_cases [of env now data h])
  case (pushed mb h1 res)
  then have "P (frame_pushed env now mb h1)"
    using room [OF assms pushed(3)] push_frame by blast
  with pushed(4) published show ?thesis by auto
qed (simp_all add: assms)

lemma receive: "P h \<Longrightarrow> P (snd (receive_item env now data h))"
  by (simp add: receive_item_def inventory state_broadcast split: sum.split)

lemma step: "handler_step env h h' \<Longrightarrow> P h \<Longrightarrow> P h'"
  by (elim handler_stepE) (simp_all add: receive remove_grid remove_origin control_remove_origin_eq forget trust)

lemma steps: "handler_steps env h h' \<Longrightarrow> P h \<Longrightarrow> P h'"
  by (induction rule: rtranclp_induct) (simp_all add: step)

end

end
