(* ===== verification/HandlerInvariants.thy ===== *)
theory HandlerInvariants
  imports HandlerLaws
begin

section \<open>The broadcast handler: invariants of every reachable state\<close>

text \<open>
  Instances of \<open>handler_preserved\<close>: the retained maps stay within their bounds, what is published on
  the metadata lanes is what is retained, every provider has an owner of its own site, the assembler
  keeps its invariant inside the handler, and recorded spend never decreases.
\<close>

subsection \<open>Capacity\<close>

definition handler_bounded :: "state_handler \<Rightarrow> bool" where
  "handler_bounded h \<longleftrightarrow> fcard (known_origins (hs_retained h)) \<le> hs_max_origins h \<and>
     fmcount (rt_latest_by_scope (hs_retained h)) \<le> hs_max_scopes h \<and>
     fmdom (rt_provider_networks_by_scope (hs_retained h)) |\<subseteq>| fmdom (rt_latest_by_scope (hs_retained h)) \<and>
     fmdom (rt_provider_uids_by_scope (hs_retained h)) |\<subseteq>| fmdom (rt_latest_by_scope (hs_retained h)) \<and>
     rt_unverified_scopes (hs_retained h) |\<subseteq>| fmdom (rt_latest_by_scope (hs_retained h))"

definition room_for :: "string \<Rightarrow> state_handler \<Rightarrow> bool" where
  "room_for site h \<longleftrightarrow> site |\<in>| known_origins (hs_retained h) \<or>
     fcard (known_origins (hs_retained h)) < hs_max_origins h"

lemma known_origins_room:
  assumes "known_origins (hs_retained h') |\<subseteq>| finsert site (known_origins (hs_retained h))"
    and "room_for site h" "fcard (known_origins (hs_retained h)) \<le> hs_max_origins h"
  shows "fcard (known_origins (hs_retained h')) \<le> hs_max_origins h"
  using fcard_mono [OF assms(1)] assms(2,3) by (auto simp: room_for_def fcard_finsert_if split: if_splits)

lemma known_origins_lane_stored: "known_origins (lane_stored l b v r) = finsert (sb_origin_site b) (known_origins r)"
  by (rule fset_eqI) (simp add: in_known_origins lane_stored_def ex_lane, cases l, auto)

lemma known_origins_mono:
  assumes "\<And>s. s |\<in>| fmdom (rt_latest_by_scope r') |\<union>| fmdom (rt_provider_networks_by_scope r') |\<union>| rt_inventory_scopes r' \<Longrightarrow>
      s |\<in>| fmdom (rt_latest_by_scope r) |\<union>| fmdom (rt_provider_networks_by_scope r) |\<union>| rt_inventory_scopes r \<or>
      sc_origin_site s |\<in>| sites"
    and "\<And>l. fmdom (fst (lane_maps l r')) |\<subseteq>| fmdom (fst (lane_maps l r))"
    and "\<And>l. fmdom (snd (lane_maps l r')) |\<subseteq>| fmdom (snd (lane_maps l r))"
  shows "known_origins r' |\<subseteq>| sites |\<union>| known_origins r"
proof (rule fsubsetI)
  fix x assume "x |\<in>| known_origins r'"
  then consider s where "s |\<in>| fmdom (rt_latest_by_scope r') |\<union>| fmdom (rt_provider_networks_by_scope r') |\<union>| rt_inventory_scopes r'"
      "sc_origin_site s = x"
    | l where "x |\<in>| fmdom (fst (lane_maps l r')) |\<union>| fmdom (snd (lane_maps l r'))"
    unfolding in_known_origins by blast
  then show "x |\<in>| sites |\<union>| known_origins r"
  proof cases
    case 1
    then show ?thesis using assms(1) [of s] by (auto simp: in_known_origins)
  next
    case 2
    then have "x |\<in>| fmdom (fst (lane_maps l r)) |\<union>| fmdom (snd (lane_maps l r))"
      using assms(2,3) [of l] by blast
    then show ?thesis unfolding funion_iff in_known_origins by blast
  qed
qed

lemma sc_origin_broadcast_scope [simp]: "sc_origin_site (broadcast_scope b) = sb_origin_site b"
  by (simp add: broadcast_scope_def)

lemma known_origins_apply:
  "known_origins (hs_retained (snd (apply_provider_state now b (broadcast_scope b) nets uids h))) |\<subseteq>|
    finsert (sb_origin_site b) (known_origins (hs_retained h))"
proof -
  have "known_origins (hs_retained (snd (apply_provider_state now b (broadcast_scope b) nets uids h))) |\<subseteq>|
      {|sb_origin_site b|} |\<union>| known_origins (hs_retained h)"
    by (rule known_origins_mono) (auto split: if_splits)
  then show ?thesis by simp
qed

lemma known_origins_pushed:
  "known_origins (hs_retained (frame_pushed env now mb h)) |\<subseteq>| finsert (mb_origin_site mb) (known_origins (hs_retained h))"
proof -
  have "known_origins (hs_retained (frame_pushed env now mb h)) |\<subseteq>| {|mb_origin_site mb|} |\<union>| known_origins (hs_retained h)"
    by (rule known_origins_mono) (auto simp: frame_pushed_def lane_maps_def split: lane.split)
  then show ?thesis by simp
qed

lemma known_origins_remove_grid:
  "known_origins (hs_retained (control_remove_grid grid origin h)) |\<subseteq>| known_origins (hs_retained h)"
proof -
  have "known_origins (hs_retained (control_remove_grid grid origin h)) |\<subseteq>| {||} |\<union>| known_origins (hs_retained h)"
    by (rule known_origins_mono) (auto simp: control_remove_grid_def lane_maps_def Let_def split: lane.split)
  then show ?thesis by simp
qed

lemma known_origins_forget:
  "known_origins (hs_retained (control_forget_departed site h)) |\<subseteq>| known_origins (hs_retained h)"
proof -
  have "known_origins (hs_retained (control_forget_departed site h)) |\<subseteq>| {||} |\<union>| known_origins (hs_retained h)"
    by (rule known_origins_mono) (auto simp: control_forget_departed_def publish_departed_def
      retained_forget_departed_def lane_maps_def split: lane.split)
  then show ?thesis by simp
qed

lemma handler_remove_origin_simps [simp]:
  "hs_retained (handler_remove_origin site h) = retained_remove site (hs_retained h)"
  "hs_state (handler_remove_origin site h) = remove_origin_providers site (hs_state h)"
  "hs_trust_store (handler_remove_origin site h) = hs_trust_store h"
  "hs_max_origins (handler_remove_origin site h) = hs_max_origins h"
  "hs_max_scopes (handler_remove_origin site h) = hs_max_scopes h"
  "hs_assembler (handler_remove_origin site h) = assembler_remove_origin site (hs_assembler h)"
  "lane_tx l (handler_remove_origin site h) = fmdrop site (lane_tx l h)"
  by (simp_all add: handler_remove_origin_def lane_tx_def split: lane.split)

lemma bounded_remove_origin: "handler_bounded h \<Longrightarrow> handler_bounded (handler_remove_origin site h)"
proof -
  assume h: "handler_bounded h"
  have "fcard (known_origins (hs_retained h) |-| {|site|}) \<le> fcard (known_origins (hs_retained h))"
    by (rule fcard_mono) auto
  with h fmcount_retain [of "\<lambda>s _. sc_origin_site s \<noteq> site" "rt_latest_by_scope (hs_retained h)"] show ?thesis
    by (auto simp: handler_bounded_def known_origins_remove)
qed

lemma bounded_make_room:
  assumes "handler_bounded h" "make_room_for site h = (True, h')"
  shows "handler_bounded h' \<and> room_for site h'"
proof (cases rule: make_room_cases [of site h])
  case kept
  with assms show ?thesis by (auto simp: room_for_def)
next
  case (evicted victim)
  then have "fcard (known_origins (hs_retained h) |-| {|victim|}) < fcard (known_origins (hs_retained h))"
    by (intro pfsubset_fcard_mono) auto
  with evicted assms bounded_remove_origin [OF assms(1), of victim] show ?thesis
    by (auto simp: room_for_def known_origins_remove handler_bounded_def)
next
  case full
  with assms show ?thesis by simp
qed

lemma bounded_store:
  assumes "handler_bounded h" "room_for (sb_origin_site b) h"
  shows "handler_bounded (snd (store_latest now lane b v h)) \<and> room_for (sb_origin_site b) (snd (store_latest now lane b v h))"
proof (cases "lane_accepts now lane b (hs_retained h)")
  case True
  then have known: "known_origins (hs_retained (snd (store_latest now lane b v h))) =
      finsert (sb_origin_site b) (known_origins (hs_retained h))"
    by (simp add: store_latest_eq known_origins_lane_stored)
  have "fcard (known_origins (hs_retained (snd (store_latest now lane b v h)))) \<le> hs_max_origins h"
    by (rule known_origins_room [of _ "sb_origin_site b"]) (use assms in \<open>auto simp: known handler_bounded_def\<close>)
  with assms show ?thesis by (auto simp: handler_bounded_def room_for_def known)
next
  case False
  with assms show ?thesis by (simp add: store_latest_eq)
qed

lemma fmcount_room:
  "fmcount m \<le> n \<Longrightarrow> k |\<in>| fmdom m \<or> fmcount m < n \<Longrightarrow> fmcount (fmupd k v m) \<le> n"
  by (auto simp: fmcount_def finsert_absorb fcard_finsert_if)

lemma bounded_apply:
  assumes "handler_bounded h" "room_for (sb_origin_site b) h" "has_room_for_scope (broadcast_scope b) h"
  shows "handler_bounded (snd (apply_provider_state now b (broadcast_scope b) nets uids h))"
proof -
  have "fcard (known_origins (hs_retained (snd (apply_provider_state now b (broadcast_scope b) nets uids h)))) \<le> hs_max_origins h"
    by (rule known_origins_room [OF known_origins_apply]) (use assms in \<open>auto simp: handler_bounded_def\<close>)
  moreover have "fmcount (fmupd (broadcast_scope b) (sb_revision b) (rt_latest_by_scope (hs_retained h))) \<le> hs_max_scopes h"
    using assms by (intro fmcount_room) (auto simp: handler_bounded_def has_room_for_scope_def)
  ultimately show ?thesis
    using assms(1) unfolding handler_bounded_def by auto
qed

interpretation capacity: handler_preserved handler_bounded room_for
proof
  fix h site h' b now lane v nets uids mb env grid origin store_value
  assume h: "handler_bounded h"
  show "make_room_for site h = (True, h') \<Longrightarrow> handler_bounded h' \<and> room_for site h'"
    using h by (rule bounded_make_room)
  show "room_for (sb_origin_site b) h \<Longrightarrow>
      handler_bounded (snd (store_latest now lane b v h)) \<and> room_for (sb_origin_site b) (snd (store_latest now lane b v h))"
    using h by (rule bounded_store)
  show "room_for (sb_origin_site b) h \<Longrightarrow> has_room_for_scope (broadcast_scope b) h \<Longrightarrow>
      handler_bounded (snd (apply_provider_state now b (broadcast_scope b) nets uids h))"
    using h by (rule bounded_apply)
  show "room_for (mb_origin_site mb) h \<Longrightarrow> handler_bounded (frame_pushed env now mb h)"
  proof -
    assume "room_for (mb_origin_site mb) h"
    then have "fcard (known_origins (hs_retained (frame_pushed env now mb h))) \<le> hs_max_origins h"
      by (rule known_origins_room [OF known_origins_pushed]) (use h in \<open>simp add: handler_bounded_def\<close>)
    with h show ?thesis by (simp add: handler_bounded_def frame_pushed_def)
  qed
  show "handler_bounded (publish_verified_inventories now h)"
    using h by (simp add: handler_bounded_def publish_verified_inventories_eq)
  show "handler_bounded (control_remove_grid grid origin h)"
    using h fcard_mono [OF known_origins_remove_grid, of grid origin h]
      fmcount_retain [of "\<lambda>s _. \<not> clear_scope grid origin (hs_retained h) s" "rt_latest_by_scope (hs_retained h)"]
    by (auto simp: handler_bounded_def control_remove_grid_def Let_def)
  show "handler_bounded (handler_remove_origin site h)"
    using h by (rule bounded_remove_origin)
  show "handler_bounded (control_forget_departed site h)"
    using h fcard_mono [OF known_origins_forget, of site h]
    by (auto simp: handler_bounded_def control_forget_departed_def publish_departed_def retained_forget_departed_def)
  show "handler_bounded (h\<lparr>hs_trust_store := store_value\<rparr>)"
    using h by (simp add: handler_bounded_def)
qed

subsection \<open>Published metadata\<close>

text \<open>Each lane publishes what is retained for it, and every value has a revision guard.\<close>

definition lanes_published :: "state_handler \<Rightarrow> bool" where
  "lanes_published h \<longleftrightarrow> (\<forall>l. lane_tx l h = fst (lane_maps l (hs_retained h)) \<and>
     fmdom (fst (lane_maps l (hs_retained h))) |\<subseteq>| fmdom (snd (lane_maps l (hs_retained h))))"

lemma lane_tx_frames [simp]:
  "lane_tx l (snd (apply_provider_state now b s nets uids h)) = lane_tx l h"
  "lane_tx l (frame_pushed env now mb h) = lane_tx l h"
  "lane_tx l (publish_verified_inventories now h) = lane_tx l h"
  "lane_tx l (control_remove_grid grid origin h) = lane_tx l h"
  "lane_tx l (h\<lparr>hs_trust_store := store\<rparr>) = lane_tx l h"
  by (simp_all add: lane_tx_def frame_pushed_def publish_verified_inventories_eq control_remove_grid_def Let_def split: lane.split)

lemma lane_maps_frames [simp]:
  "lane_maps l (hs_retained (frame_pushed env now mb h)) = lane_maps l (hs_retained h)"
  "lane_maps l (hs_retained (publish_verified_inventories now h)) = lane_maps l (hs_retained h)"
  "lane_maps l (hs_retained (control_remove_grid grid origin h)) = lane_maps l (hs_retained h)"
  by (simp_all add: lane_maps_def frame_pushed_def publish_verified_inventories_eq control_remove_grid_def Let_def split: lane.split)

lemma published_store: "lanes_published h \<Longrightarrow> lanes_published (snd (store_latest now lane b v h))"
  by (auto simp: lanes_published_def store_latest_eq lane_stored_def)

lemma published_remove: "lanes_published h \<Longrightarrow> lanes_published (handler_remove_origin site h)"
  by (auto simp: lanes_published_def)

lemma published_forget: "lanes_published h \<Longrightarrow> lanes_published (control_forget_departed site h)"
  by (auto simp: lanes_published_def control_forget_departed_def publish_departed_def retained_forget_departed_def
    lane_tx_def lane_maps_def all_lane)

text \<open>Room is made by keeping the handler or removing one origin.\<close>

lemma make_room_preserves:
  assumes "P h" "\<And>site. P (handler_remove_origin site h)" "make_room_for site h = (room, h')"
  shows "P h'"
  by (cases rule: make_room_cases [of site h]) (use assms in auto)

interpretation lanes: handler_preserved lanes_published "\<lambda>_ _. True"
proof
  fix h site h' b now lane v nets uids mb env grid origin store_value
  assume h: "lanes_published h"
  show "make_room_for site h = (True, h') \<Longrightarrow> lanes_published h' \<and> True"
    using make_room_preserves [of lanes_published] h published_remove by blast
  show "lanes_published (snd (store_latest now lane b v h)) \<and> True"
    using h published_store by blast
qed (simp_all add: published_remove published_forget, simp_all add: lanes_published_def)

subsection \<open>Owners\<close>

text \<open>
  Every provider of the merged snapshot has an owner, and an owner's scope belongs to the site the
  provider names.
\<close>

definition providers_owned :: "state_handler \<Rightarrow> bool" where
  "providers_owned h \<longleftrightarrow>
     (\<forall>k p. fmlookup (gs_providers (hs_state h)) k = Some p \<longrightarrow>
        fmlookup (rt_provider_owners (hs_retained h)) (provider_identity_of p) \<noteq> None) \<and>
     (\<forall>i owner. fmlookup (rt_provider_owners (hs_retained h)) i = Some owner \<longrightarrow>
        sc_origin_site (po_scope owner) = id_site i)"

lemma fold_upsert_mem:
  "fmlookup (gs_providers (fold upsert_provider ps s)) k = Some p \<Longrightarrow> p \<in> set ps \<or> fmlookup (gs_providers s) k = Some p"
proof (induction ps arbitrary: s)
  case (Cons q ps)
  then have "p \<in> set ps \<or> fmlookup (gs_providers (upsert_provider q s)) k = Some p" by simp
  then show ?case by (auto simp: upsert_provider_def Let_def split: option.splits if_splits)
qed simp

lemma merged_snapshot_simps [simp]:
  "gs_providers (merged_snapshot b s) = gs_providers s"
  "gs_site_id (merged_snapshot b s) = gs_site_id s"
  "gs_capabilities (merged_snapshot b s) = orset_merge (gs_capabilities s) (gs_capabilities (sb_snapshot b))"
  "gs_tenant_spend (merged_snapshot b s) =
     fold (merge_one_from_origin (gs_site_id s) (sb_origin_site b)) (fmentries (gs_tenant_spend (sb_snapshot b))) (gs_tenant_spend s)"
  by (simp_all add: merged_snapshot_def merge_tenant_spend_from_origin_def)

lemma id_site_accepted: "p \<in> set (accepted_providers b nets) \<Longrightarrow> id_site (provider_identity_of p) = sb_origin_site b"
  by (auto simp: accepted_providers_def provider_identity_of_def)

lemma owned_apply:
  assumes "providers_owned h"
  shows "providers_owned (snd (apply_provider_state now b (broadcast_scope b) nets uids h))"
proof (cases "carries_provider_state b")
  case True
  let ?nets = "networks_to_replace (hs_trust_store h) b nets"
  let ?h = "snd (apply_provider_state now b (broadcast_scope b) nets uids h)"
  have owner: "fmlookup (rt_provider_owners (hs_retained ?h)) i =
      (if i |\<in>| incoming_identities b ?nets
       then Some \<lparr>po_scope = broadcast_scope b, po_verified_grid = verified_grid_of (hs_trust_store h) b\<rparr>
       else if replaces_identity b ?nets (rt_provider_owners (hs_retained h)) i then None
       else fmlookup (rt_provider_owners (hs_retained h)) i)" for i
    using True by (simp add: applied_replacement_def replaced_owners_lookup)
  have "fmlookup (rt_provider_owners (hs_retained ?h)) (provider_identity_of p) \<noteq> None"
    if p: "fmlookup (gs_providers (hs_state ?h)) k = Some p" for k p
  proof -
    have "p \<in> set (accepted_providers b ?nets) \<or> fmlookup (gs_providers (hs_state h)) k = Some p \<and>
        \<not> replaces_identity b ?nets (rt_provider_owners (hs_retained h)) (provider_identity_of p)"
      using fold_upsert_mem [of "accepted_providers b ?nets"] p True
      by (force simp: apply_snapshot applied_replacement_def replace_providers_eq split: option.splits if_splits)
    then show ?thesis
      using assms unfolding owner by (auto simp: incoming_identities_accepted providers_owned_def)
  qed
  moreover have "sc_origin_site (po_scope owner) = id_site i"
    if "fmlookup (rt_provider_owners (hs_retained ?h)) i = Some owner" for i owner
    using that assms id_site_accepted [of _ b ?nets] unfolding owner
    by (auto simp: providers_owned_def incoming_identities_accepted split: if_splits)
  ultimately show ?thesis unfolding providers_owned_def by blast
next
  case False
  with assms show ?thesis by (simp add: providers_owned_def apply_snapshot)
qed

lemma id_site_provider_identity [simp]: "id_site (provider_identity_of p) = ps_site_id p"
  by (simp add: provider_identity_of_def)

lemma owned_remove: "providers_owned h \<Longrightarrow> providers_owned (handler_remove_origin site h)"
  by (fastforce simp: providers_owned_def remove_origin_providers_def split: option.splits if_splits)

lemma owned_remove_grid: "providers_owned h \<Longrightarrow> providers_owned (control_remove_grid grid origin h)"
  by (fastforce simp: providers_owned_def control_remove_grid_def Let_def split: option.splits if_splits)

lemma owned_frames [simp]:
  "providers_owned (snd (store_latest now lane b v h)) \<longleftrightarrow> providers_owned h"
  "providers_owned (frame_pushed env now mb h) \<longleftrightarrow> providers_owned h"
  "providers_owned (publish_verified_inventories now h) \<longleftrightarrow> providers_owned h"
  "providers_owned (control_forget_departed site h) \<longleftrightarrow> providers_owned h"
  "providers_owned (h\<lparr>hs_trust_store := store\<rparr>) \<longleftrightarrow> providers_owned h"
  by (simp_all add: providers_owned_def frame_pushed_def publish_verified_inventories_eq control_forget_departed_def
    publish_departed_def retained_forget_departed_def)

interpretation owners: handler_preserved providers_owned "\<lambda>_ _. True"
proof
  fix h site h'
  assume "providers_owned h"
  then show "make_room_for site h = (True, h') \<Longrightarrow> providers_owned h' \<and> True"
    using make_room_preserves [of providers_owned] owned_remove by blast
qed (simp_all add: owned_apply owned_remove owned_remove_grid)

subsection \<open>The assembler inside the handler\<close>

abbreviation assembly_ok :: "state_handler \<Rightarrow> bool" where
  "assembly_ok h \<equiv> assembler_inv (hs_assembler h)"

lemma assembly_apply:
  assumes "assembly_ok h"
  shows "assembly_ok (snd (apply_provider_state now b s nets uids h))"
proof -
  have "assembler_inv (fold (\<lambda>(i, uid) a. if fmlookup new i = Some uid then a
      else withdraw_provider (InventoryScope origin grid (id_network i) (id_provider i) uid) a) xs a)"
    if "assembler_inv a" for new :: "(provider_identity, string) fmap" and origin grid xs a
    using that shrinks_inv [OF shrinks_withdraw] by (intro fold_invariant_mem [of assembler_inv]) auto
  with assms show ?thesis
    by (simp add: apply_assembler invalidate_replaced_provider_inventories_def)
qed

interpretation assembly: handler_preserved assembly_ok "\<lambda>_ _. True"
proof
  fix h site h'
  assume "assembly_ok h"
  then show "make_room_for site h = (True, h') \<Longrightarrow> assembly_ok h' \<and> True"
    using make_room_preserves [of assembly_ok h] shrinks_inv [OF shrinks_remove_origin] by simp
qed (simp_all add: assembly_apply frame_pushed_def push_inv publish_verified_inventories_eq control_remove_grid_def
  control_forget_departed_def publish_departed_def Let_def shrinks_inv [OF shrinks_remove_origin] shrinks_inv [OF shrinks_remove_grid])

subsection \<open>Tenant spend\<close>

text \<open>Every slot is at least what it was in \<open>m\<close>.\<close>

definition spend_at_least :: "(string, gcounter) fmap \<Rightarrow> state_handler \<Rightarrow> bool" where
  "spend_at_least m h \<longleftrightarrow> (\<forall>t site. spend_slot m t site \<le> spend_slot (gs_tenant_spend (hs_state h)) t site)"

lemma fold_merge_one_mono: "spend_slot m t site \<le> spend_slot (fold (merge_one_from_origin r o') tcs m) t site"
proof (induction tcs arbitrary: m)
  case (Cons tc tcs)
  have "spend_slot m t site \<le> spend_slot (merge_one_from_origin r o' tc m) t site"
    using merge_one_spend_slot [of r o' "fst tc" "snd tc" m t site] by (auto split: if_splits)
  with Cons.IH [of "merge_one_from_origin r o' tc m"] show ?case by simp
qed simp

lemma apply_spend:
  "gs_tenant_spend (hs_state (snd (apply_provider_state now b s nets uids h))) =
    fold (merge_one_from_origin (gs_site_id (hs_state h)) (sb_origin_site b))
      (fmentries (gs_tenant_spend (sb_snapshot b))) (gs_tenant_spend (hs_state h))"
  by (simp add: apply_snapshot applied_replacement_def replace_providers_eq fold_upsert_frame)

lemma spend_apply: "spend_at_least m h \<Longrightarrow> spend_at_least m (snd (apply_provider_state now b s nets uids h))"
  unfolding spend_at_least_def apply_spend using fold_merge_one_mono order_trans by blast

interpretation spend: handler_preserved "spend_at_least m" "\<lambda>_ _. True" for m
proof
  fix h site h'
  assume "spend_at_least m h"
  then show "make_room_for site h = (True, h') \<Longrightarrow> spend_at_least m h' \<and> True"
    using make_room_preserves [of "spend_at_least m" h] by (simp add: spend_at_least_def remove_origin_providers_def)
qed (simp_all add: spend_apply, simp_all add: spend_at_least_def frame_pushed_def publish_verified_inventories_eq
  control_remove_grid_def control_forget_departed_def publish_departed_def Let_def remove_origin_providers_def)

subsection \<open>Limits\<close>

definition limits_are :: "nat \<Rightarrow> nat \<Rightarrow> state_handler \<Rightarrow> bool" where
  "limits_are origins scopes h \<longleftrightarrow> hs_max_origins h = origins \<and> hs_max_scopes h = scopes"

interpretation limits: handler_preserved "limits_are m n" "\<lambda>_ _. True" for m n
proof
  fix h site h'
  assume "limits_are m n h"
  then show "make_room_for site h = (True, h') \<Longrightarrow> limits_are m n h' \<and> True"
    using make_room_preserves [of "limits_are m n" h] by (simp add: limits_are_def)
qed (simp_all add: limits_are_def frame_pushed_def publish_verified_inventories_eq
  control_remove_grid_def control_forget_departed_def publish_departed_def Let_def)

lemma with_capacity_invariants:
  "handler_bounded (with_capacity site n)" "lanes_published (with_capacity site n)"
  "providers_owned (with_capacity site n)" "assembly_ok (with_capacity site n)"
  "limits_are (max n 1) (max (min (2 ^ 64 - 1) (max n 1 * RETAINED_SCOPE_MULTIPLIER)) 1) (with_capacity site n)"
proof -
  have "known_origins retained_default = {||}"
    by (rule fset_eqI) (simp add: in_known_origins ex_lane retained_default_def lane_maps_def)
  then show "handler_bounded (with_capacity site n)"
    by (simp add: handler_bounded_def with_capacity_def Let_def fcard_fempty) (simp add: retained_default_def)
  show "lanes_published (with_capacity site n)"
    by (simp add: lanes_published_def all_lane with_capacity_def retained_default_def lane_maps_def lane_tx_def Let_def)
  show "providers_owned (with_capacity site n)"
    by (simp add: providers_owned_def with_capacity_def retained_default_def snapshot_new_def Let_def)
qed (simp_all add: with_capacity_def limits_are_def Let_def assembler_empty_inv)

subsection \<open>Properties\<close>

text \<open>
  C9. The handler's memory is bounded, whatever it receives. In every state reachable from a handler
  of capacity \<open>n\<close>, by any messages at any times, evictions, grid removals and trust changes, it
  retains at most \<open>max n 1\<close> origins and sixteen scopes per origin of the capacity, provider networks and
  UIDs belong to retained scopes only, and the inventory assembler is within its per-origin bounds.
\<close>

theorem handler_capacity:
  assumes "handler_steps env (with_capacity site n) h"
  shows "fcard (known_origins (hs_retained h)) \<le> max n 1 \<and>
    fmcount (rt_latest_by_scope (hs_retained h)) \<le> max (min (2 ^ 64 - 1) (max n 1 * RETAINED_SCOPE_MULTIPLIER)) 1 \<and>
    fmdom (rt_provider_networks_by_scope (hs_retained h)) |\<subseteq>| fmdom (rt_latest_by_scope (hs_retained h)) \<and>
    fmdom (rt_provider_uids_by_scope (hs_retained h)) |\<subseteq>| fmdom (rt_latest_by_scope (hs_retained h)) \<and>
    assembler_inv (hs_assembler h)"
  using capacity.steps [OF assms with_capacity_invariants(1)] limits.steps [OF assms with_capacity_invariants(5)]
    assembly.steps [OF assms with_capacity_invariants(4)]
  by (simp add: handler_bounded_def limits_are_def)

text \<open>
  What subscribers see is what the handler retains. In every reachable state the published
  gateway addresses, certificates and signals addresses are the retained ones, although the two are
  updated separately, and every published value is guarded by the revision it came with.
\<close>

theorem handler_publishes_retained:
  assumes "handler_steps env (with_capacity site n) h"
  shows "hs_gateway_addrs h = rt_gateway_addrs (hs_retained h) \<and> hs_cert_pems h = rt_cert_pems (hs_retained h) \<and>
    hs_signals_addrs h = rt_signals_addrs (hs_retained h) \<and>
    fmdom (hs_gateway_addrs h) |\<subseteq>| fmdom (rt_latest_gateway_revision (hs_retained h)) \<and>
    fmdom (hs_cert_pems h) |\<subseteq>| fmdom (rt_latest_cert_revision (hs_retained h)) \<and>
    fmdom (hs_signals_addrs h) |\<subseteq>| fmdom (rt_latest_signals_revision (hs_retained h))"
  using lanes.steps [OF assms with_capacity_invariants(2)]
  by (simp add: lanes_published_def all_lane lane_tx_def lane_maps_def)

text \<open>
  Every provider in the merged snapshot was supplied by its own site. In every reachable state
  each provider record has an owner, and the scope of that owner names the site of the record: no
  origin places or keeps a record under another site's name.
\<close>

theorem provider_owner_is_site:
  assumes "handler_steps env (with_capacity site n) h"
    and "fmlookup (gs_providers (hs_state h)) k = Some p"
  shows "\<exists>owner. fmlookup (rt_provider_owners (hs_retained h)) (provider_identity_of p) = Some owner \<and>
    sc_origin_site (po_scope owner) = ps_site_id p"
  using owners.steps [OF assms(1) with_capacity_invariants(3)] assms(2)
  by (fastforce simp: providers_owned_def)

text \<open>
  Recorded spend never decreases. No sequence of messages, evictions for capacity, removals of
  origins or grids, departures and trust changes lowers the spend recorded for any tenant and site.
\<close>

theorem spend_never_decreases:
  assumes "handler_steps env h h'"
  shows "spend_slot (gs_tenant_spend (hs_state h)) tenant site \<le> spend_slot (gs_tenant_spend (hs_state h')) tenant site"
  using spend.steps [OF assms, of "gs_tenant_spend (hs_state h)"] by (simp add: spend_at_least_def)

subsection \<open>A handler that received a message\<close>

definition ex_env :: "(bytes \<Rightarrow> bool) \<Rightarrow> state_broadcast \<Rightarrow> handler_env" where
  "ex_env good b = \<lparr>he_codec = ex_codec b, he_verify = \<lambda>key message signature. good signature,
     he_encode_scoped = \<lambda>_. Inr [7], he_decode_inventory = \<lambda>_. Inl [], he_hash = ex_hash\<rparr>"

definition ex_env1 :: handler_env where
  "ex_env1 = ex_env (\<lambda>_. True) ex_wire_broadcast"

definition ex_received :: state_handler where
  "ex_received = snd (receive_item ex_env1 5000000 [1, 2, 3, 2, 5] (with_capacity ''s'' 0))"

lemma ex_received_steps: "handler_steps ex_env1 (with_capacity ''s'' 0) ex_received"
  unfolding ex_received_def by (rule r_into_rtranclp, rule step_receive)

theorem handler_capacity_witness: "fcard (known_origins (hs_retained ex_received)) \<le> 1"
  using handler_capacity [OF ex_received_steps] by simp

lemma ex_received_eq:
  "ex_received = \<lparr>
    hs_state = \<lparr>gs_site_id = ''s'',
      gs_capabilities = \<lparr>os_counter = 0, os_entries = fmempty, os_site_id = ''s'', os_tombstones = {||}\<rparr>,
      gs_providers = fmap_of_list [(''n/a/p'', (ex_provider ''a'' ''p'' 7)\<lparr>ps_tools := [''t''], ps_capacity_weight := 3\<rparr>)],
      gs_tenant_spend = fmempty\<rparr>,
    hs_retained = \<lparr>
      rt_provider_owners = fmap_of_list [(ProviderIdentity ''n'' ''a'' ''p'',
        \<lparr>po_scope = ProviderStateScope ''a'' (Some ''g''), po_verified_grid = False\<rparr>)],
      rt_latest_by_scope = fmap_of_list [(ProviderStateScope ''a'' (Some ''g''), 7)],
      rt_unverified_scopes = {|ProviderStateScope ''a'' (Some ''g'')|},
      rt_provider_networks_by_scope = fmap_of_list [(ProviderStateScope ''a'' (Some ''g''), {|''n''|})],
      rt_provider_uids_by_scope = fmap_of_list [(ProviderStateScope ''a'' (Some ''g''),
        fmap_of_list [(ProviderIdentity ''n'' ''a'' ''p'', ''u'')])],
      rt_inventory_scopes = {||},
      rt_gateway_addrs = fmap_of_list [(''a'', ''gw'')], rt_latest_gateway_revision = fmap_of_list [(''a'', 7)],
      rt_cert_pems = fmempty, rt_latest_cert_revision = fmempty,
      rt_signals_addrs = fmempty, rt_latest_signals_revision = fmempty\<rparr>,
    hs_gateway_addrs = fmap_of_list [(''a'', ''gw'')], hs_cert_pems = fmempty, hs_signals_addrs = fmempty,
    hs_model_inventories = [], hs_assembler = assembler_empty, hs_trust_store = trust_store_default,
    hs_max_origins = 1, hs_max_scopes = 16\<rparr>"
  by code_simp

lemma ex_received_provider:
  "fmlookup (gs_providers (hs_state ex_received)) ''n/a/p'' =
     Some ((ex_provider ''a'' ''p'' 7)\<lparr>ps_tools := [''t''], ps_capacity_weight := 3\<rparr>)"
  by (simp add: ex_received_eq fmlookup_of_list)

end
