(* ===== verification/HandlerAdmission.thy ===== *)
theory HandlerAdmission
  imports HandlerInvariants
begin

section \<open>The broadcast handler: who is admitted\<close>

text \<open>
  What a message must carry to change anything: the branches of \<^verbatim>\<open>admission\<close> and
  \<^verbatim>\<open>verify_signature_if_pinned\<close>, and what a rejected message leaves behind.
\<close>

subsection \<open>Verified broadcasts\<close>

definition signed_by :: "handler_env \<Rightarrow> clock \<Rightarrow> bytes list \<Rightarrow> state_broadcast \<Rightarrow> bool" where
  "signed_by env now keys b \<longleftrightarrow> (\<exists>signature signed_at signable key. sb_signature b = Some signature \<and>
     sb_signed_at_ms b = Some signed_at \<and> signable_bytes (he_codec env) b = Inr signable \<and>
     key \<in> set keys \<and> he_verify env key signable signature \<and> within_freshness_window now signed_at)"

definition networks_allowed :: "trust_store \<Rightarrow> state_broadcast \<Rightarrow> bool" where
  "networks_allowed store b \<longleftrightarrow> (case sb_grid_id b of None \<Rightarrow> True
     | Some grid \<Rightarrow> carries_provider_state b \<or> sb_provider_uids b \<noteq> [] \<longrightarrow>
         (\<exists>allowed. provider_network store grid = Some allowed \<and> (\<forall>network\<in>set (claimed_networks b). network = allowed)))"

lemma verify_signature_ok:
  assumes "verify_signature_if_pinned env now h b = Inr ()"
  obtains (unsigned) "admission_of (hs_trust_store h) b = Inr Unsigned"
  | (signed) keys where "admission_of (hs_trust_store h) b = Inr (Signed keys)"
      "signed_by env now keys b" "networks_allowed (hs_trust_store h) b"
proof -
  from assms obtain a where a: "admission_of (hs_trust_store h) b = Inr a"
    by (auto simp: verify_signature_if_pinned_def)
  show thesis
  proof (cases a)
    case Unsigned
    with a show thesis by (intro unsigned) simp
  next
    case (Signed keys)
    with a assms have "try_bind (required_signature_fields b) (\<lambda>(signature, signed_at_ms).
         try_bind (signable_for_verification (he_codec env) b) (\<lambda>signable.
         if \<not> list_ex (\<lambda>key. he_verify env key signable signature) keys
         then Inl (SignatureInvalid (sb_origin_site b))
         else if \<not> within_freshness_window now signed_at_ms
         then Inl (TimestampOutOfWindow (sb_origin_site b))
         else case sb_grid_id b of
             None \<Rightarrow> Inr ()
           | Some grid_id \<Rightarrow>
               if carries_provider_state b \<or> sb_provider_uids b \<noteq> []
               then validate_provider_networks (hs_trust_store h) grid_id (claimed_networks b)
               else Inr ())) = Inr ()"
      by (simp add: verify_signature_if_pinned_def)
    then obtain signature signed_at signable where
      fields: "required_signature_fields b = Inr (signature, signed_at)"
        "signable_for_verification (he_codec env) b = Inr signable"
        "list_ex (\<lambda>key. he_verify env key signable signature) keys" "within_freshness_window now signed_at"
      and nets: "(case sb_grid_id b of None \<Rightarrow> Inr ()
           | Some grid_id \<Rightarrow> if carries_provider_state b \<or> sb_provider_uids b \<noteq> []
               then validate_provider_networks (hs_trust_store h) grid_id (claimed_networks b) else Inr ()) = Inr ()"
      by (auto split: if_splits)
    have "signed_by env now keys b"
      using fields by (auto simp: signed_by_def required_signature_fields_def signable_for_verification_def list_ex_iff
        split: option.splits sum.splits)
    moreover have "networks_allowed (hs_trust_store h) b"
      using nets by (auto simp: networks_allowed_def validate_provider_networks_ok split: option.splits)
    ultimately show thesis using a Signed by (intro signed) simp_all
  qed
qed

lemma admission_any_strict:
  assumes "any_strict store" "carries_grid_state b" "admission_of store b = Inr a"
  obtains grid keys where "sb_grid_id b = Some grid" "trust_pin store (PinGrid grid (sb_origin_site b)) = Some keys"
    "keys \<noteq> []" "a = Signed keys"
proof -
  have "\<not> is_cert_only b"
    using assms(2) by (simp add: carries_grid_state_def is_cert_only_def)
  with assms show thesis
    using that by (auto simp: admission_of_def Let_def split: if_splits option.splits)
qed

lemma admission_strict_grid:
  assumes "is_strict store grid" "sb_grid_id b = Some grid" "admission_of store b = Inr a"
  shows "is_cert_only b \<and> trust_pin store (PinGrid grid (sb_origin_site b)) = None \<or>
    (\<exists>keys. trust_pin store (PinGrid grid (sb_origin_site b)) = Some keys \<and> keys \<noteq> [] \<and> a = Signed keys)"
  using assms by (auto simp: admission_of_def Let_def split: if_splits option.splits)

subsection \<open>Messages that take effect\<close>

text \<open>A message takes effect when it changes the handler or is passed on.\<close>

definition takes_effect :: "handler_env \<Rightarrow> clock \<Rightarrow> bytes \<Rightarrow> state_handler \<Rightarrow> bool" where
  "takes_effect env now data h \<longleftrightarrow>
     (case receive_item env now data h of (result, h') \<Rightarrow> h' \<noteq> h \<or> (\<exists>key. result = Inr (Some key)))"

lemma takes_effect_verified:
  assumes "takes_effect env now data h" "\<not> recognizes data" "broadcast_decode (he_codec env) data = Inr b"
  shows "verify_signature_if_pinned env now h b = Inr ()"
  using assms
  by (cases rule: receive_state_cases [of env now b h]) (auto simp: takes_effect_def receive_item_def)

lemma takes_effect_authentic:
  assumes "takes_effect env now data h" "recognizes data"
  obtains mb where "inventory_broadcast_decode (he_decode_inventory env) data = Inr mb"
    "frame_authentic env now (hs_trust_store h) mb"
  using assms
  by (cases rule: receive_inventory_cases [of env now data h]) (auto simp: takes_effect_def receive_item_def)

subsection \<open>Properties\<close>

text \<open>
  C3. Once any grid requires signatures, unsigned state is worth nothing: a broadcast that carries
  provider, capability or spend state changes the handler or is passed on only if its grid has keys
  pinned for its origin, one of them verifies its signature over its own bytes, the signing time is
  inside the freshness window, and every provider network it claims is the one bound to that grid.
\<close>

theorem strict_state_needs_grid_key:
  assumes "any_strict (hs_trust_store h)" "\<not> recognizes data"
    and "broadcast_decode (he_codec env) data = Inr b" "carries_grid_state b" "takes_effect env now data h"
  shows "\<exists>grid keys. sb_grid_id b = Some grid \<and>
    trust_pin (hs_trust_store h) (PinGrid grid (sb_origin_site b)) = Some keys \<and> signed_by env now keys b \<and>
    networks_allowed (hs_trust_store h) b"
proof (cases rule: verify_signature_ok [OF takes_effect_verified [OF assms(5,2,3)]])
  case 1
  then show ?thesis using admission_any_strict [OF assms(1,4) 1] by blast
next
  case (2 keys)
  obtain grid keys' where "sb_grid_id b = Some grid" "Signed keys = Signed keys'"
    "trust_pin (hs_trust_store h) (PinGrid grid (sb_origin_site b)) = Some keys'"
    using admission_any_strict [OF assms(1,4) 2(1)] by metis
  with 2 show ?thesis by auto
qed

text \<open>
  In a grid that requires signatures a message takes effect only if it is signed by a key pinned
  for that grid and origin, with one exception: a certificate-only broadcast of an origin that has
  no pin there yet. An origin whose pin was emptied is refused outright.
\<close>

theorem strict_grid_admission:
  assumes "is_strict (hs_trust_store h) grid" "\<not> recognizes data"
    and "broadcast_decode (he_codec env) data = Inr b" "sb_grid_id b = Some grid" "takes_effect env now data h"
  shows "(is_cert_only b \<and> trust_pin (hs_trust_store h) (PinGrid grid (sb_origin_site b)) = None) \<or>
    (\<exists>keys. trust_pin (hs_trust_store h) (PinGrid grid (sb_origin_site b)) = Some keys \<and> keys \<noteq> [] \<and>
       signed_by env now keys b)"
proof (cases rule: verify_signature_ok [OF takes_effect_verified [OF assms(5,2,3)]])
  case 1
  then show ?thesis using admission_strict_grid [OF assms(1,4) 1] by blast
next
  case (2 keys)
  then show ?thesis using admission_strict_grid [OF assms(1,4) 2(1)] by auto
qed

text \<open>
  C33. A model-inventory frame takes effect only if it is authentic: keys are pinned for its grid and
  origin, one of them verifies the frame, and its network is the one bound to the grid.
\<close>

theorem inventory_needs_grid_key:
  assumes "recognizes data" "takes_effect env now data h"
  shows "\<exists>mb keys. inventory_broadcast_decode (he_decode_inventory env) data = Inr mb \<and>
    trust_pin (hs_trust_store h) (PinGrid (mb_grid_id mb) (mb_origin_site mb)) = Some keys \<and>
    frame_verifies (he_encode_scoped env) (he_verify env) now (mb_origin_site mb) (mb_grid_id mb) keys (mb_frame mb) \<and>
    provider_network (hs_trust_store h) (mb_grid_id mb) = Some (mf_network_id (mb_frame mb))"
  using takes_effect_authentic [OF assms(2,1)] unfolding frame_authentic_def by metis


subsection \<open>A strict grid\<close>

definition ex_strict_handler :: state_handler where
  "ex_strict_handler = (with_capacity ''s'' 3)\<lparr>hs_trust_store :=
     bind_provider_network ''g'' ''n'' (enforce ''g'' (set_pin (PinGrid ''g'' ''a'') [[8]] trust_store_default))\<rparr>"

lemma ex_decode: "broadcast_decode (he_codec ex_env1) [1, 2, 3, 2, 5] = Inr (received_broadcast ex_wire_broadcast)"
  using decode_encoded [OF ex_wire_broadcast_facts(1) ex_codec_reads ex_wire_broadcast_facts(2)]
  by (simp add: ex_env1_def ex_env_def)

lemma ex_strict_facts:
  "any_strict (hs_trust_store ex_strict_handler)" "is_strict (hs_trust_store ex_strict_handler) ''g''"
  "\<not> recognizes [1, 2, 3, 2, 5]" "carries_grid_state (received_broadcast ex_wire_broadcast)"
  "sb_grid_id (received_broadcast ex_wire_broadcast) = Some ''g''"
  "trust_pin (hs_trust_store ex_strict_handler) (PinGrid ''g'' ''a'') = Some [[8]]"
  "sb_origin_site (received_broadcast ex_wire_broadcast) = ''a''"
  by code_simp+

lemma ex_strict_effect: "takes_effect ex_env1 5000000 [1, 2, 3, 2, 5] ex_strict_handler"
proof -
  have "fst (receive_item ex_env1 5000000 [1, 2, 3, 2, 5] ex_strict_handler) =
      Inr (Some (broadcast_key (received_broadcast ex_wire_broadcast)))"
    by code_simp
  then show ?thesis by (simp add: takes_effect_def case_prod_unfold)
qed

theorem strict_state_needs_grid_key_witness:
  "\<exists>grid keys. Some ''g'' = Some grid \<and> trust_pin (hs_trust_store ex_strict_handler) (PinGrid grid ''a'') = Some keys \<and>
    signed_by ex_env1 5000000 keys (received_broadcast ex_wire_broadcast)"
  using strict_state_needs_grid_key [OF ex_strict_facts(1,3) ex_decode ex_strict_facts(4) ex_strict_effect]
  unfolding ex_strict_facts by blast

definition ex_signed_frame :: model_inventory_broadcast where
  "ex_signed_frame = (ex_frame_broadcast [''m''] 0)\<lparr>mb_frame :=
     frame_with_signature [9] (frame_with_signed_at 1 (mb_frame (ex_frame_broadcast [''m''] 0)))\<rparr>"

definition ex_inventory_env :: handler_env where
  "ex_inventory_env = ex_env1\<lparr>he_decode_inventory := \<lambda>_. Inr (ex_signed_frame, 1)\<rparr>"

lemma ex_inventory_effect:
  "recognizes (MODEL_INVENTORY_BROADCAST_MAGIC @ [0])"
  "takes_effect ex_inventory_env 5000000 (MODEL_INVENTORY_BROADCAST_MAGIC @ [0]) ex_strict_handler"
proof -
  show "recognizes (MODEL_INVENTORY_BROADCAST_MAGIC @ [0])" by code_simp
  have "fst (receive_item ex_inventory_env 5000000 (MODEL_INVENTORY_BROADCAST_MAGIC @ [0]) ex_strict_handler) =
      Inr (Some (model_inventory_key ex_signed_frame))"
    by code_simp
  then show "takes_effect ex_inventory_env 5000000 (MODEL_INVENTORY_BROADCAST_MAGIC @ [0]) ex_strict_handler"
    by (simp add: takes_effect_def case_prod_unfold)
qed

theorem inventory_needs_grid_key_witness:
  "\<exists>mb keys. inventory_broadcast_decode (he_decode_inventory ex_inventory_env) (MODEL_INVENTORY_BROADCAST_MAGIC @ [0]) = Inr mb \<and>
    trust_pin (hs_trust_store ex_strict_handler) (PinGrid (mb_grid_id mb) (mb_origin_site mb)) = Some keys"
  using inventory_needs_grid_key [OF ex_inventory_effect] by blast


end
