(* ===== verification/HandlerState.thy ===== *)
theory HandlerState
  imports HandlerInvariants
begin

section \<open>The broadcast handler: what a message changes\<close>

text \<open>
  The effect of a broadcast on the merged snapshot and the retained maps: it replaces the providers
  of its own scope, leaves other sites alone, is guarded by the revision held for its scope, and
  keeps the published inventories consistent. Then what the control operations remove.
\<close>

subsection \<open>Provider keys in the snapshot\<close>

lemma provider_key_slashes:
  assumes "provider_key n s p = provider_key n' s' p'" "slash_free n" "slash_free s" "slash_free p"
  shows "n = n' \<and> s = s' \<and> p = p'"
proof -
  have count: "count_list (provider_key a b c) (CHR ''/'') =
      count_list a (CHR ''/'') + count_list b (CHR ''/'') + count_list c (CHR ''/'') + 2" for a b c
    by (simp add: provider_key_def)
  have "slash_free x \<longleftrightarrow> count_list x (CHR ''/'') = 0" for x
    by (simp add: slash_free_def count_list_0_iff)
  with count [of n s p] count [of n' s' p'] assms have "slash_free n'" "slash_free s'" by simp_all
  with provider_key_inject assms show ?thesis by blast
qed

abbreviation snapshot_keyed :: "state_handler \<Rightarrow> bool" where
  "snapshot_keyed h \<equiv> providers_keyed (gs_providers (hs_state h))"

lemma keyed_retain: "providers_keyed m \<Longrightarrow> providers_keyed (fmretain P m)"
  by (auto simp: providers_keyed_def fmpred_iff split: option.splits if_splits)

lemma keyed_apply: "snapshot_keyed h \<Longrightarrow> snapshot_keyed (snd (apply_provider_state now b s nets uids h))"
  by (simp add: apply_snapshot applied_replacement_def replace_providers_eq fold_upsert_keyed keyed_retain)

interpretation keyed: handler_preserved snapshot_keyed "\<lambda>_ _. True"
proof
  fix h site h'
  assume "snapshot_keyed h"
  then show "make_room_for site h = (True, h') \<Longrightarrow> snapshot_keyed h' \<and> True"
    using make_room_preserves [of snapshot_keyed h] by (simp add: remove_origin_providers_def keyed_retain)
qed (simp_all add: keyed_apply keyed_retain frame_pushed_def publish_verified_inventories_eq control_remove_grid_def
  control_forget_departed_def publish_departed_def remove_origin_providers_def Let_def)

lemma with_capacity_keyed: "snapshot_keyed (with_capacity site n)"
  by (simp add: with_capacity_def snapshot_new_def providers_keyed_def Let_def)

lemma fold_upsert_other:
  "k \<notin> pkey ` set ps \<Longrightarrow> fmlookup (gs_providers (fold upsert_provider ps s)) k = fmlookup (gs_providers s) k"
  by (induction ps arbitrary: s) (auto simp: upsert_provider_lookup)

subsection \<open>Other sites\<close>

definition plain_names :: "provider_state \<Rightarrow> bool" where
  "plain_names p \<longleftrightarrow> slash_free (ps_network_id p) \<and> slash_free (ps_site_id p) \<and> slash_free (ps_provider_id p)"

lemma apply_keeps_other:
  assumes "snapshot_keyed h" "providers_owned h"
    and "fmlookup (gs_providers (hs_state h)) k = Some p" "plain_names p" "ps_site_id p \<noteq> sb_origin_site b"
  shows "fmlookup (gs_providers (hs_state (snd (apply_provider_state now b (broadcast_scope b) nets uids h)))) k = Some p"
proof (cases "carries_provider_state b")
  case True
  let ?nets = "networks_to_replace (hs_trust_store h) b nets"
  have k: "k = pkey p" using providers_keyedD [OF assms(1,3)] .
  have "k \<notin> pkey ` set (accepted_providers b ?nets)"
  proof
    assume "k \<in> pkey ` set (accepted_providers b ?nets)"
    then obtain q where "q \<in> set (accepted_providers b ?nets)" "pkey p = pkey q" using k by auto
    with id_site_accepted [of q b ?nets] provider_key_slashes [of "ps_network_id p" "ps_site_id p" "ps_provider_id p"] assms(4,5)
    show False by (auto simp: plain_names_def)
  qed
  moreover have "\<not> replaces_identity b ?nets (rt_provider_owners (hs_retained h)) (provider_identity_of p)"
  proof -
    have "provider_identity_of p |\<notin>| incoming_identities b ?nets"
      using assms(5) id_site_accepted [of _ b ?nets] by (metis id_site_provider_identity incoming_identities_accepted)
    moreover have "po_scope owner \<noteq> broadcast_scope b"
      if "fmlookup (rt_provider_owners (hs_retained h)) (provider_identity_of p) = Some owner" for owner
      using assms(2,5) that by (metis id_site_provider_identity providers_owned_def sc_origin_broadcast_scope)
    ultimately show ?thesis by (auto simp: replaces_identity_def split: option.splits)
  qed
  ultimately show ?thesis
    using True assms(3) by (simp add: apply_snapshot applied_replacement_def replace_providers_eq fold_upsert_other)
next
  case False
  with assms(3) show ?thesis by (simp add: apply_snapshot)
qed

text \<open>What room-making can do to an origin other than the sender's.\<close>

definition evicted_for :: "string \<Rightarrow> string \<Rightarrow> state_handler \<Rightarrow> bool" where
  "evicted_for victim sender h \<longleftrightarrow> evictable (hs_trust_store h) victim \<and> sender |\<notin>| known_origins (hs_retained h) \<and>
     hs_max_origins h \<le> fcard (known_origins (hs_retained h))"

lemma make_room_other:
  assumes "make_room_for sender h = (room, h1)"
  obtains "h1 = h" | victim where "h1 = handler_remove_origin victim h" "evicted_for victim sender h" "room"
  using assms by (cases rule: make_room_cases [of sender h]) (auto simp: evicted_for_def not_less)

lemma receive_keeps_other:
  assumes "snapshot_keyed h" "providers_owned h"
    and "fmlookup (gs_providers (hs_state h)) k = Some p" "plain_names p" "ps_site_id p \<noteq> sb_origin_site b"
  shows "fmlookup (gs_providers (hs_state (snd (receive_state_broadcast env now b h)))) k = Some p \<or>
    evicted_for (ps_site_id p) (sb_origin_site b) h"
proof -
  have room: "evicted_for (ps_site_id p) (sb_origin_site b) h \<or>
      fmlookup (gs_providers (hs_state h1)) k = Some p \<and> snapshot_keyed h1 \<and> providers_owned h1"
    if "make_room_for (sb_origin_site b) h = (r, h1)" for r h1
    using that assms(1-3) owned_remove
    by (cases rule: make_room_other)
      (auto simp: remove_origin_providers_def keyed_retain)
  show ?thesis
  proof (cases rule: receive_state_cases [of env now b h])
    case (applied h1 nets uids)
    let ?h2 = "snd (store_metadata now b h1)"
    have "providers_owned ?h2 \<longleftrightarrow> providers_owned h1" by (simp add: providers_owned_def)
    with room [OF applied(2)] applied show ?thesis
      using apply_keeps_other [of ?h2 k p b now nets uids] assms(4,5) by auto
  qed (use assms(3) room in auto)
qed

subsection \<open>The providers of the sender\<close>

text \<open>A record of the snapshot that belongs to the sender's scope and to the given networks.\<close>

definition owned_by_scope :: "state_broadcast \<Rightarrow> string fset \<Rightarrow> retained_origins \<Rightarrow> provider_state \<Rightarrow> bool" where
  "owned_by_scope b nets r p \<longleftrightarrow> ps_network_id p |\<in>| nets \<and>
     (case fmlookup (rt_provider_owners r) (provider_identity_of p) of None \<Rightarrow> False
      | Some owner \<Rightarrow> po_scope owner = broadcast_scope b)"

lemma replaced_lookup:
  assumes "providers_keyed (gs_providers s)" "providers_named (gs_providers s)"
    and "providers_keyed (gs_providers (sb_snapshot b))" "providers_named (gs_providers (sb_snapshot b))"
  shows "fmlookup (gs_providers (snd (snd (replace_providers s b nets v r)))) k =
    (case fmlookup (gs_providers (sb_snapshot b)) k of
       Some p \<Rightarrow> if ps_site_id p = sb_origin_site b \<and> ps_network_id p |\<in>| nets
                 then Some (stamp_provider (sb_origin_site b) (sb_revision b) p)
                 else fmlookup (fmretain (\<lambda>_ q. \<not> owned_by_scope b nets r q) (gs_providers s)) k
     | None \<Rightarrow> fmlookup (fmretain (\<lambda>_ q. \<not> owned_by_scope b nets r q) (gs_providers s)) k)"
    (is "_ = ?rhs")
proof -
  let ?Q = "\<lambda>p. ps_site_id p = sb_origin_site b \<and> ps_network_id p |\<in>| nets"
  let ?s0 = "fmretain (\<lambda>_ p. \<not> replaces_identity b nets (rt_provider_owners r) (provider_identity_of p)) (gs_providers s)"
  have same: "provider_identity_of q = provider_identity_of p"
    if "fmlookup (gs_providers (sb_snapshot b)) k = Some p" "fmlookup (gs_providers s) k = Some q" for p q
    using keyed_same_owner [OF assms that(2,1)] by (simp add: provider_identity_of_def)
  have mem: "p \<in> set (fmvalues (gs_providers (sb_snapshot b)))"
    if "fmlookup (gs_providers (sb_snapshot b)) k = Some p" for p
    using that by auto
  have incoming: "provider_identity_of q |\<in>| incoming_identities b nets \<longleftrightarrow>
      (\<exists>p. fmlookup (gs_providers (sb_snapshot b)) k = Some p \<and> ?Q p)"
    if q: "fmlookup (gs_providers s) k = Some q" for q
  proof
    assume "provider_identity_of q |\<in>| incoming_identities b nets"
    then obtain p k' where p: "fmlookup (gs_providers (sb_snapshot b)) k' = Some p" "?Q p"
      "provider_identity_of p = provider_identity_of q"
      by (auto simp: incoming_identities_iff)
    then have "k' = k"
      using providers_keyedD [OF assms(1) q] providers_keyedD [OF assms(3) p(1)] identity_pkey [OF p(3)] by simp
    with p show "\<exists>p. fmlookup (gs_providers (sb_snapshot b)) k = Some p \<and> ?Q p" by blast
  next
    assume "\<exists>p. fmlookup (gs_providers (sb_snapshot b)) k = Some p \<and> ?Q p"
    then show "provider_identity_of q |\<in>| incoming_identities b nets"
      using in_incoming_identities [OF mem] same [OF _ q] by metis
  qed
  have s0: "fmlookup ?s0 k = (if \<exists>p. fmlookup (gs_providers (sb_snapshot b)) k = Some p \<and> ?Q p then None
      else fmlookup (fmretain (\<lambda>_ q. \<not> owned_by_scope b nets r q) (gs_providers s)) k)"
    using incoming by (cases "fmlookup (gs_providers s) k")
      (auto simp: replaces_identity_def owned_by_scope_def provider_identity_of_def)
  have gp: "gs_providers (s\<lparr>gs_providers := ?s0\<rparr>) = ?s0" by simp
  have "fmlookup (gs_providers (snd (snd (replace_providers s b nets v r)))) k =
      (case fmlookup (gs_providers (sb_snapshot b)) k of None \<Rightarrow> fmlookup ?s0 k
       | Some p \<Rightarrow> if ?Q p then Some (pick_provider (fmlookup ?s0 k) (stamp_provider (sb_origin_site b) (sb_revision b) p))
                   else fmlookup ?s0 k)"
    using fold_upsert_stamped_lookup [OF assms(3), of "sb_origin_site b" "sb_revision b" ?Q "s\<lparr>gs_providers := ?s0\<rparr>" k]
    unfolding replace_providers_eq accepted_providers_def snd_conv gp
      fold_map_comp [of upsert_provider "stamp_provider (sb_origin_site b) (sb_revision b)"] .
  also have "\<dots> = ?rhs"
    unfolding s0 by (cases "fmlookup (gs_providers (sb_snapshot b)) k") simp_all
  finally show ?thesis .
qed

subsection \<open>The revision guard\<close>

lemma scope_known: "s |\<in>| fmdom (rt_latest_by_scope r) \<Longrightarrow> sc_origin_site s |\<in>| known_origins r"
  by (auto simp: in_known_origins)

lemma make_room_known: "site |\<in>| known_origins (hs_retained h) \<Longrightarrow> make_room_for site h = (True, h)"
  by (simp add: make_room_for_def)

definition revision_passes :: "u64 \<Rightarrow> u64 \<Rightarrow> u64 \<Rightarrow> bool" where
  "revision_passes held incoming cap \<longleftrightarrow> held < incoming \<or> cap < held \<and> incoming \<le> cap"

lemma revision_passes_iff: "revision_passes held incoming cap \<longleftrightarrow> held \<noteq> incoming \<and> \<not> outranks held incoming cap"
  by (auto simp: revision_passes_def outranks_def)

subsection \<open>Retained data of other origins\<close>

lemma receive_guards_other:
  assumes "site \<noteq> sb_origin_site b" "\<not> evicted_for site (sb_origin_site b) h"
  shows "sc_origin_site s = site \<Longrightarrow> fmlookup (rt_latest_by_scope (hs_retained (snd (receive_state_broadcast env now b h)))) s =
      fmlookup (rt_latest_by_scope (hs_retained h)) s"
    and "fmlookup (fst (lane_maps l (hs_retained (snd (receive_state_broadcast env now b h))))) site =
      fmlookup (fst (lane_maps l (hs_retained h))) site"
    and "fmlookup (snd (lane_maps l (hs_retained (snd (receive_state_broadcast env now b h))))) site =
      fmlookup (snd (lane_maps l (hs_retained h))) site"
proof -
  define same where "same h' \<longleftrightarrow>
      (\<forall>s. sc_origin_site s = site \<longrightarrow>
         fmlookup (rt_latest_by_scope (hs_retained h')) s = fmlookup (rt_latest_by_scope (hs_retained h)) s) \<and>
      (\<forall>l. fmlookup (fst (lane_maps l (hs_retained h'))) site = fmlookup (fst (lane_maps l (hs_retained h))) site \<and>
         fmlookup (snd (lane_maps l (hs_retained h'))) site = fmlookup (snd (lane_maps l (hs_retained h))) site)" for h' :: state_handler
  have room: "same h1" if "make_room_for (sb_origin_site b) h = (r, h1)" for r h1
    using that assms(2) by (cases rule: make_room_other) (auto simp: same_def split: option.split)
  have store: "same (snd (store_metadata now b h1))" if "same h1" for h1
  proof (rule store_metadata_induct [where Q = same, OF that])
    fix l v h1
    assume "same h1"
    then show "same (snd (store_latest now l b v h1))"
      using assms(1) by (simp add: same_def store_latest_eq lane_stored_def)
  qed
  have "same (snd (receive_state_broadcast env now b h))"
  proof (cases rule: receive_state_cases [of env now b h])
    case (applied h1 nets uids)
    have "same (snd (apply_provider_state now b (broadcast_scope b) nets uids x))" if "same x" for x
      using that assms(1) by (auto simp: same_def)
    with applied store [OF room [OF applied(2)]] show ?thesis by simp
  qed (use room store in \<open>auto simp: same_def\<close>)
  then show "sc_origin_site s = site \<Longrightarrow> fmlookup (rt_latest_by_scope (hs_retained (snd (receive_state_broadcast env now b h)))) s =
      fmlookup (rt_latest_by_scope (hs_retained h)) s"
    and "fmlookup (fst (lane_maps l (hs_retained (snd (receive_state_broadcast env now b h))))) site =
      fmlookup (fst (lane_maps l (hs_retained h))) site"
    and "fmlookup (snd (lane_maps l (hs_retained (snd (receive_state_broadcast env now b h))))) site =
      fmlookup (snd (lane_maps l (hs_retained h))) site"
    by (auto simp: same_def)
qed

subsection \<open>Properties\<close>


text \<open>
  C35. A message never touches the providers of another site. In every reachable state, a record of a
  site other than the sender, whose names have no slash, is still there unchanged after any
  broadcast, unless its whole site was evicted: which happens only to a site with no pinned key, when
  an unknown sender arrives and the handler is full.
\<close>

theorem other_sites_untouched:
  assumes "handler_steps env (with_capacity site n) h" "fmlookup (gs_providers (hs_state h)) k = Some p"
    and "plain_names p" "ps_site_id p \<noteq> sb_origin_site b"
  shows "fmlookup (gs_providers (hs_state (snd (receive_state_broadcast env now b h)))) k = Some p \<or>
    (evictable (hs_trust_store h) (ps_site_id p) \<and> sb_origin_site b |\<notin>| known_origins (hs_retained h) \<and>
     hs_max_origins h \<le> fcard (known_origins (hs_retained h)))"
  using receive_keeps_other [OF keyed.steps [OF assms(1) with_capacity_keyed]
    owners.steps [OF assms(1) with_capacity_invariants(3)] assms(2-4), of env now]
  unfolding evicted_for_def .

text \<open>
  Pinned origins cannot be made to forget. A broadcast of any other sender leaves every revision
  guard of an origin with a pinned key as it was, for provider state and for each metadata lane, and
  its metadata too; so no flood of unknown origins reopens a pinned origin to replay.
\<close>

theorem pinned_guards_kept:
  assumes "\<not> evictable (hs_trust_store h) site" "site \<noteq> sb_origin_site b"
    and "receive_state_broadcast env now b h = (res, h')"
  defines "r \<equiv> hs_retained h" and "r' \<equiv> hs_retained h'"
  shows "(sc_origin_site s = site \<longrightarrow> fmlookup (rt_latest_by_scope r') s = fmlookup (rt_latest_by_scope r) s) \<and>
    fmlookup (rt_gateway_addrs r') site = fmlookup (rt_gateway_addrs r) site \<and>
    fmlookup (rt_latest_gateway_revision r') site = fmlookup (rt_latest_gateway_revision r) site \<and>
    fmlookup (rt_cert_pems r') site = fmlookup (rt_cert_pems r) site \<and>
    fmlookup (rt_latest_cert_revision r') site = fmlookup (rt_latest_cert_revision r) site \<and>
    fmlookup (rt_signals_addrs r') site = fmlookup (rt_signals_addrs r) site \<and>
    fmlookup (rt_latest_signals_revision r') site = fmlookup (rt_latest_signals_revision r) site"
proof -
  have e: "\<not> evicted_for site (sb_origin_site b) h" using assms(1) by (simp add: evicted_for_def)
  note g = receive_guards_other [OF assms(2) e, of _ env now]
  show ?thesis
    using g(1) g(2) [of Gateway] g(2) [of Cert] g(2) [of Signals] g(3) [of Gateway] g(3) [of Cert] g(3) [of Signals]
    by (simp add: r_def r'_def lane_maps_def assms(3))
qed

text \<open>
  C17. The revision guard decides exactly. For a scope with a held revision, a verified state broadcast
  is accepted if and only if its revision is newer, or the held one lies beyond what the clock allows
  and the new one does not; otherwise, so for every replay, the merged snapshot and the guard stay
  as they are. An accepted one becomes the held revision.
\<close>

theorem revision_guard_exact:
  assumes "fmlookup (rt_latest_by_scope (hs_retained h)) (broadcast_scope b) = Some held"
    and "sb_version b = STATE_BROADCAST_VERSION" "verify_signature_if_pinned env now h b = Inr ()"
    and "\<not> is_metadata_only b" "receive_state_broadcast env now b h = (res, h')"
  defines "cap \<equiv> max_leased_revision (wall_ms now)"
  shows "if held < sb_revision b \<or> cap < held \<and> sb_revision b \<le> cap
    then res = Inr (Some (broadcast_key b)) \<and>
      fmlookup (rt_latest_by_scope (hs_retained h')) (broadcast_scope b) = Some (sb_revision b)
    else res = Inr None \<and> hs_state h' = hs_state h \<and>
      rt_latest_by_scope (hs_retained h') = rt_latest_by_scope (hs_retained h)"
proof -
  have dom: "broadcast_scope b |\<in>| fmdom (rt_latest_by_scope (hs_retained h))"
    using assms(1) by (rule fmdomI)
  then have room: "make_room_for (sb_origin_site b) h = (True, h)" "has_room_for_scope (broadcast_scope b) h"
    using scope_known [OF dom] by (simp_all add: make_room_known has_room_for_scope_def)
  have key: "fst (apply_provider_state now b s n u x) = broadcast_key b" for s n u x
    by (simp add: apply_provider_state_def Let_def case_prod_unfold)
  note recv = receive_state_broadcast_def Let_def case_prod_unfold
  show ?thesis
  proof (cases "revision_passes held (sb_revision b) cap")
    case True
    then have "held \<noteq> sb_revision b" "\<not> outranks held (sb_revision b) (max_leased_revision (wall_ms now))"
      by (simp_all add: revision_passes_iff cap_def)
    then have "res = Inr (Some (broadcast_key b))" "fmlookup (rt_latest_by_scope (hs_retained h')) (broadcast_scope b) = Some (sb_revision b)"
      using assms(1-5) room by (auto simp: recv key)
    with True show ?thesis by (simp add: revision_passes_def)
  next
    case False
    then consider "outranks held (sb_revision b) (max_leased_revision (wall_ms now))"
      | "held = sb_revision b" "\<not> outranks held (sb_revision b) (max_leased_revision (wall_ms now))"
      by (auto simp: revision_passes_iff cap_def)
    then have "res = Inr None \<and> hs_state h' = hs_state h \<and>
        rt_latest_by_scope (hs_retained h') = rt_latest_by_scope (hs_retained h)"
      by cases (use assms(1-5) room in \<open>auto simp: recv\<close>)
    with False show ?thesis by (simp add: revision_passes_def)
  qed
qed

subsection \<open>A second broadcast\<close>

definition ex_next_broadcast :: state_broadcast where
  "ex_next_broadcast = ex_wire_broadcast\<lparr>sb_revision := 8\<rparr>"

definition ex_next :: "(state_broadcast_error + state_broadcast_key option) \<times> state_handler" where
  "ex_next = receive_state_broadcast ex_env1 5000000 ex_next_broadcast ex_received"

lemma ex_next_facts:
  "fst ex_next = Inr (Some (broadcast_key ex_next_broadcast))" "carries_provider_state ex_next_broadcast"
  "sb_origin_site ex_next_broadcast |\<in>| known_origins (hs_retained ex_received)"
  "providers_keyed (gs_providers (hs_state ex_received))" "providers_named (gs_providers (hs_state ex_received))"
  "providers_keyed (gs_providers (sb_snapshot ex_next_broadcast))"
  "providers_named (gs_providers (sb_snapshot ex_next_broadcast))"
  "''n'' |\<in>| networks_to_replace (hs_trust_store ex_received) ex_next_broadcast
    (case fmlookup (rt_provider_networks_by_scope (hs_retained ex_received)) (broadcast_scope ex_next_broadcast) of
       None \<Rightarrow> {||} | Some n \<Rightarrow> n)"
  "fmlookup (gs_providers (sb_snapshot ex_next_broadcast)) ''n/a/p'' =
     Some ((ex_provider ''a'' ''p'' 1)\<lparr>ps_tools := [''t''], ps_capacity_weight := 3\<rparr>)"
  "sb_origin_site ex_next_broadcast = ''a''" "sb_revision ex_next_broadcast = 8"
  unfolding ex_next_def ex_received_eq by code_simp+


theorem other_sites_untouched_witness:
  "fmlookup (gs_providers (hs_state (snd (receive_state_broadcast ex_env1 5000000
       (ex_wire_broadcast\<lparr>sb_origin_site := ''z''\<rparr>) ex_received)))) ''n/a/p'' =
     Some ((ex_provider ''a'' ''p'' 7)\<lparr>ps_tools := [''t''], ps_capacity_weight := 3\<rparr>) \<or>
   hs_max_origins ex_received \<le> fcard (known_origins (hs_retained ex_received))"
proof -
  have "plain_names ((ex_provider ''a'' ''p'' 7)\<lparr>ps_tools := [''t''], ps_capacity_weight := 3\<rparr>)"
    "ps_site_id ((ex_provider ''a'' ''p'' 7)\<lparr>ps_tools := [''t''], ps_capacity_weight := 3\<rparr>) \<noteq>
      sb_origin_site (ex_wire_broadcast\<lparr>sb_origin_site := ''z''\<rparr>)"
    by code_simp+
  from other_sites_untouched [OF ex_received_steps ex_received_provider this, of 5000000]
  show ?thesis by blast
qed

theorem revision_guard_exact_witness:
  "fst (receive_state_broadcast ex_env1 5000000 ex_wire_broadcast ex_received) = Inr None \<and>
   hs_state (snd (receive_state_broadcast ex_env1 5000000 ex_wire_broadcast ex_received)) = hs_state ex_received"
proof -
  have facts: "fmlookup (rt_latest_by_scope (hs_retained ex_received)) (broadcast_scope ex_wire_broadcast) = Some 7"
    "sb_version ex_wire_broadcast = STATE_BROADCAST_VERSION"
    "verify_signature_if_pinned ex_env1 5000000 ex_received ex_wire_broadcast = Inr ()"
    "\<not> is_metadata_only ex_wire_broadcast" "sb_revision ex_wire_broadcast = 7"
    "\<not> max_leased_revision (wall_ms 5000000) < 7"
    unfolding ex_received_eq by code_simp+
  from revision_guard_exact [OF facts(1-4) prod.collapse [symmetric]] facts(5,6) show ?thesis by simp
qed

end
