(* ===== verification/HandlerControl.thy ===== *)
theory HandlerControl
  imports HandlerAdmission HandlerState
begin

section \<open>The broadcast handler: inventories and the control path\<close>

text \<open>
  What is published after provider state was applied, and what the three operations of
  \<^verbatim>\<open>OriginStateHandle\<close> remove and keep.
\<close>

subsection \<open>Removing a grid\<close>

lemma removed_owners_iff:
  "i |\<in>| removed_owners grid origin r \<longleftrightarrow> (\<exists>owner. fmlookup (rt_provider_owners r) i = Some owner \<and>
     (case origin of None \<Rightarrow> True | Some site \<Rightarrow> sc_origin_site (po_scope owner) = site) \<and>
     (selected_scope grid origin (po_scope owner) \<or> \<not> po_verified_grid owner))"
proof -
  have "i |\<in>| removed_owners grid origin r \<longleftrightarrow> (\<exists>owner. (i, owner) \<in> set (fmentries (rt_provider_owners r)) \<and>
     (case origin of None \<Rightarrow> True | Some site \<Rightarrow> sc_origin_site (po_scope owner) = site) \<and>
     (selected_scope grid origin (po_scope owner) \<or> \<not> po_verified_grid owner))"
    unfolding removed_owners_def fset_of_list_elem by (force simp: image_iff)
  then show ?thesis by (simp add: set_fmentries)
qed

lemma remove_grid_owners:
  "fmlookup (rt_provider_owners (hs_retained (control_remove_grid grid origin h))) i =
    (if i |\<in>| removed_owners grid origin (hs_retained h) then None else fmlookup (rt_provider_owners (hs_retained h)) i)"
  by (simp add: control_remove_grid_def Let_def split: option.split)

lemma remove_grid_providers:
  "fmlookup (gs_providers (hs_state (control_remove_grid grid origin h))) k = Some p \<longleftrightarrow>
    fmlookup (gs_providers (hs_state h)) k = Some p \<and>
    provider_identity_of p |\<notin>| removed_owners grid origin (hs_retained h)"
  by (auto simp: control_remove_grid_def Let_def split: option.splits if_splits)

lemma remove_grid_frame [simp]:
  "hs_trust_store (control_remove_grid grid origin h) = hs_trust_store h"
  "gs_tenant_spend (hs_state (control_remove_grid grid origin h)) = gs_tenant_spend (hs_state h)"
  by (simp_all add: control_remove_grid_def Let_def)

subsection \<open>Departed origins\<close>

lemma forget_departed_lane [simp]:
  "fmlookup (fst (lane_maps l (hs_retained (control_forget_departed site h)))) o' =
    (if o' = site \<and> l \<noteq> Signals then None else fmlookup (fst (lane_maps l (hs_retained h))) o')"
  "snd (lane_maps l (hs_retained (control_forget_departed site h))) = snd (lane_maps l (hs_retained h))"
  by (cases l; auto simp: control_forget_departed_def publish_departed_def retained_forget_departed_def lane_maps_def)+

text \<open>A lane whose guard outranks a broadcast keeps its value and its guard.\<close>

lemma outranked_lane_kept:
  assumes "fmlookup (snd (lane_maps l (hs_retained h))) (sb_origin_site b) = Some held"
    and "outranks held (sb_revision b) (max_metadata_revision l (wall_clock now))"
  shows "lane_maps l (hs_retained (snd (receive_state_broadcast env now b h))) = lane_maps l (hs_retained h)"
proof -
  have "sb_origin_site b |\<in>| fmdom (snd (lane_maps l (hs_retained h)))"
    using assms(1) by (rule fmdomI)
  then have "sb_origin_site b |\<in>| known_origins (hs_retained h)"
    unfolding in_known_origins by auto
  then have room: "make_room_for (sb_origin_site b) h = (True, h)" by (rule make_room_known)
  have store: "lane_maps l (hs_retained (snd (store_metadata now b h))) = lane_maps l (hs_retained h)"
  proof (rule store_metadata_induct [where Q = "\<lambda>h'. lane_maps l (hs_retained h') = lane_maps l (hs_retained h)"])
    fix l' v and h' :: state_handler
    assume "lane_maps l (hs_retained h') = lane_maps l (hs_retained h)"
    then show "lane_maps l (hs_retained (snd (store_latest now l' b v h'))) = lane_maps l (hs_retained h)"
      using assms by (auto simp: store_latest_eq lane_stored_def lane_accepts_def)
  qed simp
  show ?thesis
    by (cases rule: receive_state_cases [of env now b h]) (use room store in auto)
qed

subsection \<open>Properties\<close>

text \<open>
  Published inventories belong to live providers. After a state broadcast was applied, every
  published model inventory has not expired, carries the UID its own origin currently advertises for
  the provider in that grid, and the provider's record in the snapshot is owned by that very scope.
\<close>

theorem published_inventories_backed:
  assumes "receive_state_broadcast env now b h = (Inr (Some key), h')" "\<not> is_metadata_only b"
    and "inventory \<in> set (hs_model_inventories h')"
  shows "wall_ms now < mi_expires_at_ms inventory \<and>
    (\<exists>uids owner. fmlookup (rt_provider_uids_by_scope (hs_retained h')) (scope_of_inventory inventory) = Some uids \<and>
      fmlookup uids (identity_of_inventory inventory) = Some (mi_provider_uid inventory) \<and>
      fmlookup (rt_provider_owners (hs_retained h')) (identity_of_inventory inventory) = Some owner \<and>
      po_scope owner = scope_of_inventory inventory)"
proof -
  have "\<exists>h1. h' = publish_verified_inventories now h1"
    by (cases rule: receive_state_cases [of env now b h]) (use assms(1,2) apply_published in auto)
  then obtain h1 where "h' = publish_verified_inventories now h1" ..
  with assms(3) have "inventory_backed (hs_retained h') inventory" "wall_ms now < mi_expires_at_ms inventory"
    by (auto simp: publish_verified_inventories_eq inventories_def)
  then show ?thesis
    by (auto simp: inventory_backed_def split: option.splits)
qed

text \<open>
  A trust transition leaves only verified state. After a grid is removed for all origins, in
  every reachable state, each provider left in the snapshot is owned by a scope of another grid and
  was admitted under a key pinned for that grid; no revision, network or UID of the removed grid is
  left, none of its inventories stays published, and spend and metadata are untouched.
\<close>

theorem remove_grid_purges:
  assumes "handler_steps env (with_capacity site n) h"
    and "fmlookup (gs_providers (hs_state h)) k = Some p"
    and h'_def: "h' = control_remove_grid grid None h"
  shows "(fmlookup (gs_providers (hs_state h')) k = Some p \<longleftrightarrow>
      (\<exists>owner. fmlookup (rt_provider_owners (hs_retained h)) (provider_identity_of p) = Some owner \<and>
         po_verified_grid owner \<and> sc_grid_id (po_scope owner) \<noteq> Some grid)) \<and>
    (\<forall>scope. sc_grid_id scope = Some grid \<longrightarrow>
      fmlookup (rt_latest_by_scope (hs_retained h')) scope = None \<and>
      fmlookup (rt_provider_networks_by_scope (hs_retained h')) scope = None \<and>
      fmlookup (rt_provider_uids_by_scope (hs_retained h')) scope = None) \<and>
    (\<forall>inventory\<in>set (hs_model_inventories h'). mi_grid_id inventory \<noteq> grid) \<and>
    gs_tenant_spend (hs_state h') = gs_tenant_spend (hs_state h) \<and>
    hs_gateway_addrs h' = hs_gateway_addrs h \<and> hs_cert_pems h' = hs_cert_pems h \<and> hs_signals_addrs h' = hs_signals_addrs h"
proof -
  obtain owner where owner: "fmlookup (rt_provider_owners (hs_retained h)) (provider_identity_of p) = Some owner"
    using owners.steps [OF assms(1) with_capacity_invariants(3)] assms(2) unfolding providers_owned_def by blast
  have "fmlookup (gs_providers (hs_state h')) k = Some p \<longleftrightarrow> po_verified_grid owner \<and> sc_grid_id (po_scope owner) \<noteq> Some grid"
    unfolding h'_def remove_grid_providers removed_owners_iff using owner assms(2) by (auto simp: selected_scope_def)
  moreover have "\<forall>inventory\<in>set (hs_model_inventories h'). mi_grid_id inventory \<noteq> grid"
    by (auto simp: h'_def control_remove_grid_def Let_def)
  moreover have "hs_gateway_addrs h' = hs_gateway_addrs h" "hs_cert_pems h' = hs_cert_pems h" "hs_signals_addrs h' = hs_signals_addrs h"
    by (simp_all add: h'_def control_remove_grid_def Let_def)
  moreover have "fmlookup (rt_latest_by_scope (hs_retained h')) scope = None \<and>
      fmlookup (rt_provider_networks_by_scope (hs_retained h')) scope = None \<and>
      fmlookup (rt_provider_uids_by_scope (hs_retained h')) scope = None" if "sc_grid_id scope = Some grid" for scope
    using that by (auto simp: h'_def control_remove_grid_def clear_scope_def selected_scope_def Let_def split: option.split)
  ultimately show ?thesis
    using owner by (simp add: h'_def)
qed

text \<open>
  A departed origin's address does not come back by replay. After the origin was forgotten as
  departed, a broadcast of its with an older revision than the one held, whose revision is plausible,
  leaves no gateway address published for it, and the guard stands.
\<close>

theorem departed_address_not_replayed:
  assumes "handler_steps env (with_capacity site n) h"
    and "fmlookup (rt_latest_gateway_revision (hs_retained h)) (sb_origin_site b) = Some held"
    and "held \<le> max_metadata_revision Gateway (wall_clock now)" "sb_revision b < held"
    and "receive_state_broadcast env now b (control_forget_departed (sb_origin_site b) h) = (res, h')"
  shows "fmlookup (hs_gateway_addrs h') (sb_origin_site b) = None \<and>
    fmlookup (rt_latest_gateway_revision (hs_retained h')) (sb_origin_site b) = Some held"
proof -
  let ?h = "control_forget_departed (sb_origin_site b) h"
  have guard: "fmlookup (snd (lane_maps Gateway (hs_retained ?h))) (sb_origin_site b) = Some held"
    using assms(2) by simp (simp add: lane_maps_def)
  have "outranks held (sb_revision b) (max_metadata_revision Gateway (wall_clock now))"
    using assms(3,4) by (simp add: outranks_def)
  from outranked_lane_kept [OF guard this, of env] assms(5)
  have lane: "lane_maps Gateway (hs_retained h') = lane_maps Gateway (hs_retained ?h)" by simp
  have "lanes_published ?h"
    using lanes.steps [OF assms(1) with_capacity_invariants(2)] by (rule published_forget)
  then have "lanes_published h'"
    using lanes.state_broadcast [of ?h env now b] assms(5) by simp
  then have "hs_gateway_addrs h' = fst (lane_maps Gateway (hs_retained h'))"
    by (simp add: lanes_published_def all_lane lane_tx_def)
  moreover have "fmlookup (rt_latest_gateway_revision (hs_retained h')) (sb_origin_site b) =
      fmlookup (snd (lane_maps Gateway (hs_retained h'))) (sb_origin_site b)"
    by (simp add: lane_maps_def)
  ultimately show ?thesis
    using guard by (simp add: lane)
qed

end
