(* ===== verification/SwimCrypto.thy ===== *)
theory SwimCrypto
  imports Prelude
begin

section \<open>Transport encryption\<close>

text \<open>
  The frame of \<^verbatim>\<open>crates/swim/src/crypto.rs\<close>: magic, version, nonce and the AEAD output. The AEAD
  primitive (\<^verbatim>\<open>seal_with_nonce\<close> and \<^verbatim>\<open>open_with_nonce\<close>, one of two compiled backends) and the random
  nonce are arguments.
\<close>

definition MAGIC :: bytes where
  "MAGIC = string_bytes ''GRID''"

definition ENCRYPTED_VERSION :: u8 where
  "ENCRYPTED_VERSION = 1"

definition NONCE_LEN :: nat where
  "NONCE_LEN = 12"

definition TAG_LEN :: nat where
  "TAG_LEN = 16"

definition OVERHEAD :: nat where
  "OVERHEAD = 4 + 1 + NONCE_LEN + TAG_LEN"

datatype crypto_error = TooShort | BadMagic | UnknownVersion u8 | AuthFailed | EncryptFailed

record aead =
  seal :: "bytes \<Rightarrow> bytes \<Rightarrow> bytes \<Rightarrow> crypto_error + bytes"
  unseal :: "bytes \<Rightarrow> bytes \<Rightarrow> bytes \<Rightarrow> crypto_error + bytes"

definition encrypt :: "aead \<Rightarrow> crypto_error + bytes \<Rightarrow> bytes \<Rightarrow> bytes \<Rightarrow> crypto_error + bytes" where
  "encrypt a generated_nonce key plaintext =
     try_bind generated_nonce (\<lambda>nonce.
     try_bind (seal a key nonce plaintext) (\<lambda>ciphertext.
     Inr (MAGIC @ [ENCRYPTED_VERSION] @ nonce @ ciphertext)))"

definition decrypt :: "aead \<Rightarrow> bytes \<Rightarrow> bytes \<Rightarrow> crypto_error + bytes" where
  "decrypt a key data =
     (if length data < OVERHEAD then Inl TooShort
      else if take 4 data \<noteq> MAGIC then Inl BadMagic
      else
      let version = data ! 4
      in if version \<noteq> ENCRYPTED_VERSION then Inl (UnknownVersion version)
      else unseal a key (take 12 (drop 5 data)) (drop 17 data))"

text \<open>What the AEAD promises for one nonce and plaintext: the tag is appended, and opening inverts sealing.\<close>

definition aead_inverts :: "aead \<Rightarrow> bytes \<Rightarrow> bytes \<Rightarrow> bytes \<Rightarrow> bool" where
  "aead_inverts a key nonce plaintext \<longleftrightarrow> (\<forall>ciphertext. seal a key nonce plaintext = Inr ciphertext \<longrightarrow>
     length ciphertext = length plaintext + TAG_LEN \<and> unseal a key nonce ciphertext = Inr plaintext)"

lemma encrypt_frame:
  assumes "encrypt a (Inr nonce) key plaintext = Inr frame" "length nonce = NONCE_LEN" "aead_inverts a key nonce plaintext"
  shows "length frame = length plaintext + OVERHEAD" "decrypt a key frame = Inr plaintext"
proof -
  obtain ciphertext where c: "seal a key nonce plaintext = Inr ciphertext"
    "frame = MAGIC @ [ENCRYPTED_VERSION] @ nonce @ ciphertext"
    using assms(1) by (auto simp: encrypt_def)
  have magic: "length MAGIC = 4" by (simp add: MAGIC_def string_bytes_def)
  have inv: "length ciphertext = length plaintext + TAG_LEN" "unseal a key nonce ciphertext = Inr plaintext"
    using assms(3) c(1) by (auto simp: aead_inverts_def)
  then show len: "length frame = length plaintext + OVERHEAD"
    using assms(2) magic by (simp add: c(2) OVERHEAD_def)
  have "frame ! 4 = ENCRYPTED_VERSION" "take 4 frame = MAGIC" "drop 5 frame = nonce @ ciphertext" "drop 17 frame = ciphertext"
    using magic assms(2) by (simp_all add: c(2) nth_append NONCE_LEN_def)
  then show "decrypt a key frame = Inr plaintext"
    using inv(2) assms(2) len by (simp add: decrypt_def NONCE_LEN_def)
qed

text \<open>Whatever is accepted carries the magic, the version and a body the AEAD opened.\<close>

lemma decrypt_accepts:
  assumes "decrypt a key data = Inr plaintext"
  shows "OVERHEAD \<le> length data" "take 4 data = MAGIC" "data ! 4 = ENCRYPTED_VERSION"
    "unseal a key (take 12 (drop 5 data)) (drop 17 data) = Inr plaintext"
  using assms by (auto simp: decrypt_def Let_def not_less split: if_splits)

end
