(* ===== verification/SwimNode.thy ===== *)
theory SwimNode
  imports HandlerControl SwimCrypto Identity
begin

section \<open>The SWIM node\<close>

text \<open>
  \<^verbatim>\<open>SwimNode\<close> of \<^verbatim>\<open>crates/swim/src/node.rs\<close>: the operations by which the operator pins identities,
  makes grids strict, evicts origins, feeds datagrams and publishes broadcasts, with the runtime
  adapter of \<^verbatim>\<open>crates/swim/src/runtime.rs\<close>. The membership protocol (the foca crate) is an argument
  with a state of its own: each of its entry points is a function on that state, the broadcast handler
  it owns and the runtime it calls back.
\<close>

subsection \<open>Runtime\<close>

datatype member_event =
    Joined (me_site_name: string) (me_addr: socket_addr) (me_generation: u64)
  | Left (me_site_name: string) (me_addr: socket_addr) (me_generation: u64)

record outbound_message =
  om_addr :: socket_addr
  om_data :: bytes

datatype 't timer_event =
    SendProbe node_id
  | ProbeTimeout node_id
  | PeriodicAnnounce
  | PeriodicGossip
  | Token 't

record 't scheduled_timer =
  st_delay :: nat
  st_event :: "'t timer_event"

record 't accumulated_output =
  ao_messages :: "outbound_message list"
  ao_timers :: "'t scheduled_timer list"
  ao_events :: "member_event list"

definition output_new :: "'t accumulated_output" where
  "output_new = \<lparr>ao_messages = [], ao_timers = [], ao_events = []\<rparr>"

definition output_is_empty :: "'t accumulated_output \<Rightarrow> bool" where
  "output_is_empty self \<longleftrightarrow> ao_messages self = [] \<and> ao_timers self = [] \<and> ao_events self = []"

text \<open>The notifications of the membership protocol.\<close>

datatype notification =
    MemberUp node_id
  | MemberDown node_id
  | Rename node_id node_id
  | Active
  | Idle
  | Defunct
  | Rejoin node_id

definition joined :: "node_id \<Rightarrow> member_event" where
  "joined i = Joined (nid_site_name i) (nid_addr i) (nid_generation i)"

definition left :: "node_id \<Rightarrow> member_event" where
  "left i = Left (nid_site_name i) (nid_addr i) (nid_generation i)"

definition push_event :: "member_event \<Rightarrow> 't accumulated_output \<Rightarrow> 't accumulated_output" where
  "push_event event output = output\<lparr>ao_events := ao_events output @ [event]\<rparr>"

definition notify :: "notification \<Rightarrow> 't accumulated_output \<Rightarrow> 't accumulated_output" where
  "notify notification output = (case notification of
     MemberUp i \<Rightarrow> push_event (joined i) output
   | MemberDown i \<Rightarrow> push_event (left i) output
   | Rename old new \<Rightarrow> push_event (joined new) (push_event (left old) output)
   | Active \<Rightarrow> output
   | Idle \<Rightarrow> output
   | Defunct \<Rightarrow> output
   | Rejoin _ \<Rightarrow> output)"

definition send_to :: "node_id \<Rightarrow> bytes \<Rightarrow> 't accumulated_output \<Rightarrow> 't accumulated_output" where
  "send_to dst data output =
     output\<lparr>ao_messages := ao_messages output @ [\<lparr>om_addr = nid_addr dst, om_data = data\<rparr>]\<rparr>"

definition submit_after :: "'t \<Rightarrow> nat \<Rightarrow> 't accumulated_output \<Rightarrow> 't accumulated_output" where
  "submit_after event after output =
     output\<lparr>ao_timers := ao_timers output @ [\<lparr>st_delay = after, st_event = Token event\<rparr>]\<rparr>"

subsection \<open>Payload budget\<close>

definition MAX_SWIM_PACKET_BYTES :: nat where
  "MAX_SWIM_PACKET_BYTES = 1400"

definition MAX_FOCA_PACKET_BYTES :: nat where
  "MAX_FOCA_PACKET_BYTES = MAX_SWIM_PACKET_BYTES - OVERHEAD"

definition MAX_SITE_NAME_BYTES :: nat where
  "MAX_SITE_NAME_BYTES = 253"

definition CUSTOM_BROADCAST_LENGTH_PREFIX_BYTES :: nat where
  "CUSTOM_BROADCAST_LENGTH_PREFIX_BYTES = 2"

text \<open>The packet limit given to the membership protocol.\<close>

definition grid_config_max_packet_size :: nat where
  "grid_config_max_packet_size = (if MAX_FOCA_PACKET_BYTES = 0 then 1 else MAX_FOCA_PACKET_BYTES)"

text \<open>
  \<open>header src dst\<close> is the serialised header of a broadcast message from \<open>src\<close> to \<open>dst\<close> with the
  largest incarnation; \<open>worst_addr\<close> is the IPv6 address with all scalar fields at their maximum.
\<close>

definition worst_case_dst :: "socket_addr \<Rightarrow> node_id" where
  "worst_case_dst worst_addr = with_generation (replicate MAX_SITE_NAME_BYTES CHR ''x'') worst_addr u64_MAX"

definition state_broadcast_byte_budget ::
  "(node_id \<Rightarrow> node_id \<Rightarrow> string + bytes) \<Rightarrow> socket_addr \<Rightarrow> node_id \<Rightarrow> string + nat" where
  "state_broadcast_byte_budget header worst_addr local_id =
     try_bind (header local_id (worst_case_dst worst_addr)) (\<lambda>encoded.
     Inr (MAX_FOCA_PACKET_BYTES - length encoded - CUSTOM_BROADCAST_LENGTH_PREFIX_BYTES))"

subsection \<open>The membership protocol\<close>

datatype foca_error = DataFromOurselves | FocaError string

type_synonym ('f, 't) foca_world = "'f \<times> state_handler \<times> 't accumulated_output"

record ('f, 't) foca_api =
  fa_new :: "node_id \<Rightarrow> nat \<Rightarrow> 'f"
  fa_identity :: "'f \<Rightarrow> node_id"
  fa_handle_data :: "bytes \<Rightarrow> ('f, 't) foca_world \<Rightarrow> (foca_error + unit) \<times> ('f, 't) foca_world"
  fa_handle_timer :: "'t \<Rightarrow> ('f, 't) foca_world \<Rightarrow> (foca_error + unit) \<times> ('f, 't) foca_world"
  fa_announce :: "node_id \<Rightarrow> ('f, 't) foca_world \<Rightarrow> (foca_error + unit) \<times> ('f, 't) foca_world"
  fa_gossip :: "('f, 't) foca_world \<Rightarrow> (foca_error + unit) \<times> ('f, 't) foca_world"
  fa_broadcast :: "('f, 't) foca_world \<Rightarrow> (foca_error + unit) \<times> ('f, 't) foca_world"
  fa_leave_cluster :: "('f, 't) foca_world \<Rightarrow> (foca_error + unit) \<times> ('f, 't) foca_world"
  fa_add_broadcast :: "bytes \<Rightarrow> 'f \<times> state_handler \<Rightarrow> (foca_error + bool) \<times> 'f \<times> state_handler"
  fa_header :: "node_id \<Rightarrow> node_id \<Rightarrow> string + bytes"
  fa_worst_addr :: socket_addr
  fa_encode_inventory :: "model_inventory_broadcast \<Rightarrow> string + bytes"

subsection \<open>The node\<close>

record ('f, 't) swim_node =
  sn_foca :: 'f
  sn_handler :: state_handler
  sn_runtime :: "'t accumulated_output"
  sn_warned_self_data :: bool

datatype publish_error =
    PublishEncode string
  | PublishQueue foca_error
  | PublishTooLarge (actual_bytes: nat) (maximum_bytes: nat)

datatype too_many_pinned_keys = TooManyPinnedKeys (tm_origin: string) (tm_supplied: nat)

abbreviation on_handler :: "(state_handler \<Rightarrow> state_handler) \<Rightarrow> ('f, 't) swim_node \<Rightarrow> ('f, 't) swim_node" where
  "on_handler f self \<equiv> self\<lparr>sn_handler := f (sn_handler self)\<rparr>"

text \<open>\<^verbatim>\<open>trust_store_tx.send_modify\<close>.\<close>

definition send_modify :: "(trust_store \<Rightarrow> trust_store) \<Rightarrow> state_handler \<Rightarrow> state_handler" where
  "send_modify f h = h\<lparr>hs_trust_store := f (hs_trust_store h)\<rparr>"

abbreviation trust_of :: "('f, 't) swim_node \<Rightarrow> trust_store" where
  "trust_of self \<equiv> hs_trust_store (sn_handler self)"

definition with_origin_capacity :: "('f, 't) foca_api \<Rightarrow> node_id \<Rightarrow> nat \<Rightarrow> ('f, 't) swim_node" where
  "with_origin_capacity api identity max_origins =
     \<lparr>sn_foca = fa_new api identity grid_config_max_packet_size,
      sn_handler = with_capacity (nid_site_name identity) max_origins,
      sn_runtime = output_new, sn_warned_self_data = False\<rparr>"

definition swim_node_new :: "('f, 't) foca_api \<Rightarrow> node_id \<Rightarrow> ('f, 't) swim_node" where
  "swim_node_new api identity = with_origin_capacity api identity DEFAULT_MAX_RETAINED_ORIGINS"

text \<open>\<^verbatim>\<open>GridRuntime::take_output\<close>.\<close>

definition take_output :: "('f, 't) swim_node \<Rightarrow> 't accumulated_output \<times> ('f, 't) swim_node" where
  "take_output self = (sn_runtime self, self\<lparr>sn_runtime := output_new\<rparr>)"

definition evict_origin :: "string \<Rightarrow> ('f, 't) swim_node \<Rightarrow> ('f, 't) swim_node" where
  "evict_origin origin self = on_handler (control_remove_origin origin) self"

definition forget_departed_origin :: "string \<Rightarrow> ('f, 't) swim_node \<Rightarrow> ('f, 't) swim_node" where
  "forget_departed_origin origin self = on_handler (control_forget_departed origin) self"

definition pin_origin ::
  "string \<Rightarrow> bytes list \<Rightarrow> ('f, 't) swim_node \<Rightarrow> (too_many_pinned_keys + unit) \<times> ('f, 't) swim_node" where
  "pin_origin origin keys self =
     (if length keys > MAX_PINNED_KEYS_PER_ORIGIN then (Inl (TooManyPinnedKeys origin (length keys)), self)
      else
      let was_unpinned = (case trust_pin (trust_of self) (PinSite origin) of None \<Rightarrow> True | Some held \<Rightarrow> held = []);
          self = (if was_unpinned then evict_origin origin self else self)
      in (Inr (), on_handler (send_modify (set_pin (PinSite origin) keys)) self))"

definition pin_origin_for_grid ::
  "string \<Rightarrow> string \<Rightarrow> bytes list \<Rightarrow> ('f, 't) swim_node \<Rightarrow> (too_many_pinned_keys + unit) \<times> ('f, 't) swim_node" where
  "pin_origin_for_grid grid_id origin keys self =
     (if length keys > MAX_PINNED_KEYS_PER_ORIGIN then (Inl (TooManyPinnedKeys origin (length keys)), self)
      else
      let key = PinGrid grid_id origin;
          previous = trust_pin (trust_of self) key;
          purge = ((case previous of None \<Rightarrow> True | Some previous \<Rightarrow> previous = []) \<or>
                   (case previous of None \<Rightarrow> False | Some previous \<Rightarrow> list_ex (\<lambda>old. \<not> old \<in> set keys) previous));
          self = (if purge \<or> keys = [] then on_handler (control_remove_grid grid_id (Some origin)) self else self)
      in (Inr (), on_handler (send_modify (set_pin key keys)) self))"

definition enforce_signed_grid :: "string \<Rightarrow> string \<Rightarrow> ('f, 't) swim_node \<Rightarrow> ('f, 't) swim_node" where
  "enforce_signed_grid grid_id network_name self =
     (let store = trust_of self
      in if is_strict store grid_id \<and> provider_network store grid_id = Some network_name then self
      else
      let self = on_handler (control_remove_grid grid_id None) self
      in on_handler (send_modify (\<lambda>pins.
           bind_provider_network grid_id network_name (enforce grid_id (forget_grid grid_id pins)))) self)"

definition hold_state_admission :: "('f, 't) swim_node \<Rightarrow> ('f, 't) swim_node" where
  "hold_state_admission self = on_handler (send_modify store_hold_admission) self"

definition open_state_admission :: "('f, 't) swim_node \<Rightarrow> ('f, 't) swim_node" where
  "open_state_admission self = on_handler (send_modify store_open_admission) self"

definition relax_signed_grid :: "string \<Rightarrow> ('f, 't) swim_node \<Rightarrow> ('f, 't) swim_node" where
  "relax_signed_grid grid_id self = on_handler (send_modify (forget_grid grid_id)) self"

definition unpin_origin_for_grid :: "string \<Rightarrow> string \<Rightarrow> ('f, 't) swim_node \<Rightarrow> ('f, 't) swim_node" where
  "unpin_origin_for_grid grid_id origin self =
     (let self = on_handler (control_remove_grid grid_id (Some origin)) self
      in on_handler (send_modify (set_pin (PinGrid grid_id origin) [])) self)"

definition clear_origin_pin_for_grid :: "string \<Rightarrow> string \<Rightarrow> ('f, 't) swim_node \<Rightarrow> ('f, 't) swim_node" where
  "clear_origin_pin_for_grid grid_id origin self =
     (let self = on_handler (control_remove_grid grid_id (Some origin)) self
      in on_handler (send_modify (remove_pin (PinGrid grid_id origin))) self)"

definition unpin_origin :: "string \<Rightarrow> ('f, 't) swim_node \<Rightarrow> ('f, 't) swim_node" where
  "unpin_origin origin self = on_handler (send_modify (remove_pin (PinSite origin))) self"

subsection \<open>Traffic\<close>

text \<open>A call of the membership protocol, with the handler it owns and the runtime passed to it.\<close>

definition call_foca ::
  "(('f, 't) foca_world \<Rightarrow> 'r \<times> ('f, 't) foca_world) \<Rightarrow> ('f, 't) swim_node \<Rightarrow> 'r \<times> ('f, 't) swim_node" where
  "call_foca f self = (case f (sn_foca self, sn_handler self, sn_runtime self) of
     (result, foca, handler, runtime) \<Rightarrow>
       (result, self\<lparr>sn_foca := foca, sn_handler := handler, sn_runtime := runtime\<rparr>))"

definition handle_data ::
  "('f, 't) foca_api \<Rightarrow> bytes \<Rightarrow> ('f, 't) swim_node \<Rightarrow> 't accumulated_output \<times> ('f, 't) swim_node" where
  "handle_data api data self =
     (let (result, self) = call_foca (fa_handle_data api data) self;
          self = (if result = Inl DataFromOurselves \<and> \<not> sn_warned_self_data self
                  then self\<lparr>sn_warned_self_data := True\<rparr> else self)
      in take_output self)"

definition handle_timer ::
  "('f, 't) foca_api \<Rightarrow> 't timer_event \<Rightarrow> ('f, 't) swim_node \<Rightarrow> 't accumulated_output \<times> ('f, 't) swim_node" where
  "handle_timer api event self =
     (let self = (case event of Token token \<Rightarrow> snd (call_foca (fa_handle_timer api token) self) | _ \<Rightarrow> self)
      in take_output self)"

definition announce ::
  "('f, 't) foca_api \<Rightarrow> node_id \<Rightarrow> ('f, 't) swim_node \<Rightarrow> 't accumulated_output \<times> ('f, 't) swim_node" where
  "announce api dst self = take_output (snd (call_foca (fa_announce api dst) self))"

definition gossip :: "('f, 't) foca_api \<Rightarrow> ('f, 't) swim_node \<Rightarrow> 't accumulated_output \<times> ('f, 't) swim_node" where
  "gossip api self = take_output (snd (call_foca (fa_gossip api) self))"

definition node_broadcast :: "('f, 't) foca_api \<Rightarrow> ('f, 't) swim_node \<Rightarrow> 't accumulated_output \<times> ('f, 't) swim_node" where
  "node_broadcast api self = take_output (snd (call_foca (fa_broadcast api) self))"

definition leave :: "('f, 't) foca_api \<Rightarrow> ('f, 't) swim_node \<Rightarrow> 't accumulated_output \<times> ('f, 't) swim_node" where
  "leave api self = take_output (snd (call_foca (fa_leave_cluster api) self))"

text \<open>The second half of both publishing operations: the size limit, then the queue.\<close>

definition queue_bytes ::
  "('f, 't) foca_api \<Rightarrow> bytes \<Rightarrow> ('f, 't) swim_node \<Rightarrow> (publish_error + unit) \<times> ('f, 't) swim_node" where
  "queue_bytes api data self =
     (case state_broadcast_byte_budget (fa_header api) (fa_worst_addr api) (fa_identity api (sn_foca self)) of
        Inl error \<Rightarrow> (Inl (PublishEncode error), self)
      | Inr maximum \<Rightarrow>
          if length data > maximum then (Inl (PublishTooLarge (length data) maximum), self)
          else case fa_add_broadcast api data (sn_foca self, sn_handler self) of (result, foca, handler) \<Rightarrow>
            (case result of Inr _ \<Rightarrow> Inr () | Inl error \<Rightarrow> Inl (PublishQueue error),
             self\<lparr>sn_foca := foca, sn_handler := handler\<rparr>))"

definition publish_state_broadcast ::
  "handler_env \<Rightarrow> ('f, 't) foca_api \<Rightarrow> state_broadcast \<Rightarrow> ('f, 't) swim_node \<Rightarrow>
   (publish_error + unit) \<times> ('f, 't) swim_node" where
  "publish_state_broadcast env api broadcast self =
     (case broadcast_encode (he_codec env) broadcast of
        Inl error \<Rightarrow> (Inl (PublishEncode error), self)
      | Inr data \<Rightarrow> queue_bytes api data self)"

definition publish_model_inventory_broadcast ::
  "('f, 't) foca_api \<Rightarrow> model_inventory_broadcast \<Rightarrow> ('f, 't) swim_node \<Rightarrow>
   (publish_error + unit) \<times> ('f, 't) swim_node" where
  "publish_model_inventory_broadcast api broadcast self =
     (case inventory_broadcast_encode (fa_encode_inventory api) broadcast of
        Inl error \<Rightarrow> (Inl (PublishEncode error), self)
      | Inr data \<Rightarrow> queue_bytes api data self)"

definition node_model_inventories :: "clock \<Rightarrow> ('f, 't) swim_node \<Rightarrow> model_inventory list" where
  "node_model_inventories now self =
     filter (\<lambda>inventory. mi_expires_at_ms inventory > wall_ms now) (hs_model_inventories (sn_handler self))"

end
