(* ===== verification/NodeTrust.thy ===== *)
theory NodeTrust
  imports SwimNode
begin

section \<open>The SWIM node: what it keeps of the trust it was given\<close>

text \<open>
  The runs of a node, their refinement to runs of the broadcast handler, and the invariant that ties
  the providers in the snapshot to the keys pinned at the moment.
\<close>

subsection \<open>Runs of a node\<close>

text \<open>
  What the membership protocol may do to the handler and the runtime it is given: hand an item to
  the handler, or call the runtime back.
\<close>

inductive foca_call ::
  "handler_env \<Rightarrow> state_handler \<times> 't accumulated_output \<Rightarrow> state_handler \<times> 't accumulated_output \<Rightarrow> bool" for env where
  call_receive: "foca_call env (h, output) (snd (receive_item env now data h), output)"
| call_notify: "foca_call env (h, output) (h, notify n output)"
| call_send: "foca_call env (h, output) (h, send_to dst data output)"
| call_timer: "foca_call env (h, output) (h, submit_after t delay output)"

definition foca_entry :: "handler_env \<Rightarrow> (('f, 't) foca_world \<Rightarrow> 'r \<times> ('f, 't) foca_world) \<Rightarrow> bool" where
  "foca_entry env f \<longleftrightarrow> (\<forall>w. (foca_call env)\<^sup>*\<^sup>* (snd w) (snd (snd (f w))))"

text \<open>
  The documented behaviour of the foca crate: every entry point acts on the handler and the runtime
  by such calls, and \<open>add_broadcast\<close> shows the bytes to the handler at most once.
\<close>

definition foca_lawful :: "handler_env \<Rightarrow> ('f, 't) foca_api \<Rightarrow> bool" where
  "foca_lawful env api \<longleftrightarrow>
     (\<forall>data. foca_entry env (fa_handle_data api data)) \<and> (\<forall>t. foca_entry env (fa_handle_timer api t)) \<and>
     (\<forall>dst. foca_entry env (fa_announce api dst)) \<and> foca_entry env (fa_gossip api) \<and>
     foca_entry env (fa_broadcast api) \<and> foca_entry env (fa_leave_cluster api) \<and>
     (\<forall>data f h. snd (snd (fa_add_broadcast api data (f, h))) = h \<or>
        (\<exists>now. snd (snd (fa_add_broadcast api data (f, h))) = snd (receive_item env now data h)))"

inductive node_step ::
  "handler_env \<Rightarrow> ('f, 't) foca_api \<Rightarrow> ('f, 't) swim_node \<Rightarrow> ('f, 't) swim_node \<Rightarrow> bool" for env api where
  node_evict: "node_step env api n (evict_origin site n)"
| node_forget: "node_step env api n (forget_departed_origin site n)"
| node_pin: "node_step env api n (snd (pin_origin site keys n))"
| node_pin_grid: "node_step env api n (snd (pin_origin_for_grid grid site keys n))"
| node_enforce: "node_step env api n (enforce_signed_grid grid network n)"
| node_hold: "node_step env api n (hold_state_admission n)"
| node_open: "node_step env api n (open_state_admission n)"
| node_relax: "node_step env api n (relax_signed_grid grid n)"
| node_unpin_grid: "node_step env api n (unpin_origin_for_grid grid site n)"
| node_clear_pin: "node_step env api n (clear_origin_pin_for_grid grid site n)"
| node_unpin: "node_step env api n (unpin_origin site n)"
| node_data: "node_step env api n (snd (handle_data api data n))"
| node_timer: "node_step env api n (snd (handle_timer api event n))"
| node_announce: "node_step env api n (snd (announce api dst n))"
| node_gossip: "node_step env api n (snd (gossip api n))"
| node_broadcasts: "node_step env api n (snd (node_broadcast api n))"
| node_leave: "node_step env api n (snd (leave api n))"
| node_publish: "node_step env api n (snd (publish_state_broadcast env api b n))"
| node_publish_inventory: "node_step env api n (snd (publish_model_inventory_broadcast api mb n))"

inductive_cases node_stepE [elim]: "node_step env api n n'"

abbreviation node_steps :: "handler_env \<Rightarrow> ('f, 't) foca_api \<Rightarrow> ('f, 't) swim_node \<Rightarrow> ('f, 't) swim_node \<Rightarrow> bool" where
  "node_steps env api \<equiv> (node_step env api)\<^sup>*\<^sup>*"

text \<open>The three ways a step acts on the handler: items received, a control operation, the trust store.\<close>

inductive item_step :: "handler_env \<Rightarrow> state_handler \<Rightarrow> state_handler \<Rightarrow> bool" for env where
  item_step: "item_step env h (snd (receive_item env now data h))"

lemma take_output_handler [simp]: "sn_handler (snd (take_output n)) = sn_handler n"
  by (simp add: take_output_def)

lemma foca_calls_items: "(foca_call env)\<^sup>*\<^sup>* a b \<Longrightarrow> (item_step env)\<^sup>*\<^sup>* (fst a) (fst b)"
proof (induction rule: rtranclp_induct)
  case (step b c)
  from step(2) have "item_step env (fst b) (fst c) \<or> fst c = fst b"
    by cases (auto intro: item_step)
  with step(3) show ?case by (auto intro: rtranclp.rtrancl_into_rtrancl)
qed simp

lemma call_foca_items:
  assumes "foca_entry env f"
  shows "(item_step env)\<^sup>*\<^sup>* (sn_handler n) (sn_handler (snd (call_foca f n)))"
proof -
  let ?w = "(sn_foca n, sn_handler n, sn_runtime n)"
  have "(foca_call env)\<^sup>*\<^sup>* (snd ?w) (snd (snd (f ?w)))"
    using assms unfolding foca_entry_def by blast
  from foca_calls_items [OF this] show ?thesis
    by (simp add: call_foca_def case_prod_unfold)
qed

lemma queue_bytes_items:
  assumes "foca_lawful env api"
  shows "(item_step env)\<^sup>*\<^sup>* (sn_handler n) (sn_handler (snd (queue_bytes api data n)))"
proof -
  let ?h = "snd (snd (fa_add_broadcast api data (sn_foca n, sn_handler n)))"
  have "?h = sn_handler n \<or> (\<exists>now. ?h = snd (receive_item env now data (sn_handler n)))"
    using assms unfolding foca_lawful_def by blast
  then have "(item_step env)\<^sup>*\<^sup>* (sn_handler n) ?h"
    by (metis item_step rtranclp.rtrancl_refl r_into_rtranclp)
  then show ?thesis
    by (simp add: queue_bytes_def case_prod_unfold split: sum.split)
qed

lemma traffic_items:
  assumes "foca_lawful env api"
  shows "(item_step env)\<^sup>*\<^sup>* (sn_handler n) (sn_handler (snd (handle_data api data n)))"
    "(item_step env)\<^sup>*\<^sup>* (sn_handler n) (sn_handler (snd (handle_timer api event n)))"
    "(item_step env)\<^sup>*\<^sup>* (sn_handler n) (sn_handler (snd (announce api dst n)))"
    "(item_step env)\<^sup>*\<^sup>* (sn_handler n) (sn_handler (snd (gossip api n)))"
    "(item_step env)\<^sup>*\<^sup>* (sn_handler n) (sn_handler (snd (node_broadcast api n)))"
    "(item_step env)\<^sup>*\<^sup>* (sn_handler n) (sn_handler (snd (leave api n)))"
    "(item_step env)\<^sup>*\<^sup>* (sn_handler n) (sn_handler (snd (publish_state_broadcast env api b n)))"
    "(item_step env)\<^sup>*\<^sup>* (sn_handler n) (sn_handler (snd (publish_model_inventory_broadcast api mb n)))"
proof -
  have entries: "foca_entry env (fa_handle_data api data)" "\<And>t. foca_entry env (fa_handle_timer api t)"
    "foca_entry env (fa_announce api dst)" "foca_entry env (fa_gossip api)"
    "foca_entry env (fa_broadcast api)" "foca_entry env (fa_leave_cluster api)"
    using assms by (simp_all add: foca_lawful_def)
  note items = entries [THEN call_foca_items, of n]
  show "(item_step env)\<^sup>*\<^sup>* (sn_handler n) (sn_handler (snd (handle_data api data n)))"
    using items(1) by (simp add: handle_data_def case_prod_unfold Let_def)
  show "(item_step env)\<^sup>*\<^sup>* (sn_handler n) (sn_handler (snd (handle_timer api event n)))"
    using items(2) by (simp add: handle_timer_def split: timer_event.split)
  show "(item_step env)\<^sup>*\<^sup>* (sn_handler n) (sn_handler (snd (announce api dst n)))"
    "(item_step env)\<^sup>*\<^sup>* (sn_handler n) (sn_handler (snd (gossip api n)))"
    "(item_step env)\<^sup>*\<^sup>* (sn_handler n) (sn_handler (snd (node_broadcast api n)))"
    "(item_step env)\<^sup>*\<^sup>* (sn_handler n) (sn_handler (snd (leave api n)))"
    using items(3-6) by (simp_all add: announce_def gossip_def node_broadcast_def leave_def)
  show "(item_step env)\<^sup>*\<^sup>* (sn_handler n) (sn_handler (snd (publish_state_broadcast env api b n)))"
    "(item_step env)\<^sup>*\<^sup>* (sn_handler n) (sn_handler (snd (publish_model_inventory_broadcast api mb n)))"
    using queue_bytes_items [OF assms]
    by (simp_all add: publish_state_broadcast_def publish_model_inventory_broadcast_def split: sum.split)
qed

text \<open>
  What the control operations of the node do to the handler, as one step relation: a removal under an
  unchanged trust store, then a change of the trust store that keeps what the removal allows.
\<close>

inductive control_step :: "state_handler \<Rightarrow> state_handler \<Rightarrow> bool" where
  control_evict: "control_step h (control_remove_origin site h)"
| control_forget: "control_step h (control_forget_departed site h)"
| control_site_pin: "length keys \<le> MAX_PINNED_KEYS_PER_ORIGIN \<Longrightarrow>
    control_step h (send_modify (set_pin (PinSite site) keys) h)"
| control_site_unpin: "control_step h (send_modify (remove_pin (PinSite site)) h)"
| control_rotate: "trust_pin (hs_trust_store h) (PinGrid grid site) = Some held \<Longrightarrow> set held \<subseteq> set keys \<Longrightarrow> held \<noteq> [] \<Longrightarrow>
    length keys \<le> MAX_PINNED_KEYS_PER_ORIGIN \<Longrightarrow> control_step h (send_modify (set_pin (PinGrid grid site) keys) h)"
| control_grid_pin: "length keys \<le> MAX_PINNED_KEYS_PER_ORIGIN \<Longrightarrow>
    control_step h (send_modify (set_pin (PinGrid grid site) keys) (control_remove_grid grid (Some site) h))"
| control_grid_unpin: "control_step h (send_modify (remove_pin (PinGrid grid site)) (control_remove_grid grid (Some site) h))"
| control_enforce: "control_step h (send_modify (\<lambda>pins. bind_provider_network grid network (enforce grid (forget_grid grid pins)))
    (control_remove_grid grid None h))"
| control_relax: "control_step h (send_modify (forget_grid grid) h)"
| control_hold: "control_step h (send_modify store_hold_admission h)"
| control_open: "control_step h (send_modify store_open_admission h)"

lemma control_revoke: "control_step h (send_modify (set_pin (PinGrid grid site) []) (control_remove_grid grid (Some site) h))"
  by (rule control_grid_pin) simp

lemma pin_origin_control:
  "control_step\<^sup>*\<^sup>* (sn_handler n) (sn_handler (snd (pin_origin site keys n)))"
proof (cases "length keys > MAX_PINNED_KEYS_PER_ORIGIN")
  case False
  then have pin: "control_step h (send_modify (set_pin (PinSite site) keys) h)" for h
    by (simp add: control_site_pin)
  have "control_step\<^sup>*\<^sup>* h (send_modify (set_pin (PinSite site) keys) (control_remove_origin site h))" for h
    using control_evict pin by (rule converse_rtranclp_into_rtranclp [OF _ r_into_rtranclp])
  then show ?thesis
    using False by (simp add: pin_origin_def evict_origin_def Let_def pin r_into_rtranclp)
qed (simp add: pin_origin_def)

lemma pin_origin_for_grid_control:
  "control_step\<^sup>*\<^sup>* (sn_handler n) (sn_handler (snd (pin_origin_for_grid grid site keys n)))"
proof (cases "length keys > MAX_PINNED_KEYS_PER_ORIGIN")
  case False
  show ?thesis
  proof (cases "trust_pin (trust_of n) (PinGrid grid site)")
    case None
    then show ?thesis
      using False by (auto simp: pin_origin_for_grid_def Let_def intro!: control_grid_pin r_into_rtranclp)
  next
    case (Some held)
    then show ?thesis
      using False control_rotate [of "sn_handler n" grid site held keys]
      by (auto simp: pin_origin_for_grid_def Let_def list_ex_iff intro!: control_grid_pin r_into_rtranclp)
  qed
qed (simp add: pin_origin_for_grid_def)

lemma node_step_splits:
  assumes "foca_lawful env api" "node_step env api n n'"
  shows "(item_step env)\<^sup>*\<^sup>* (sn_handler n) (sn_handler n') \<or> control_step\<^sup>*\<^sup>* (sn_handler n) (sn_handler n')"
  using assms(2)
  by cases (auto simp: evict_origin_def forget_departed_origin_def enforce_signed_grid_def hold_state_admission_def
      open_state_admission_def relax_signed_grid_def unpin_origin_for_grid_def clear_origin_pin_for_grid_def
      unpin_origin_def Let_def control_revoke r_into_rtranclp pin_origin_control pin_origin_for_grid_control
      intro: control_step.intros r_into_rtranclp traffic_items [OF assms(1)])

subsection \<open>The trust invariant\<close>

abbreviation owners_of :: "state_handler \<Rightarrow> (provider_identity, provider_owner) fmap" where
  "owners_of h \<equiv> rt_provider_owners (hs_retained h)"

abbreviation providers_of :: "state_handler \<Rightarrow> (string, provider_state) fmap" where
  "providers_of h \<equiv> gs_providers (hs_state h)"

text \<open>
  A provider record is vouched for in a grid when it is the record of a broadcast, stamped with the
  broadcast's revision and origin, that a key pinned in the trust store for the grid and the record's
  site verifies, and its network is the bound one.
\<close>

definition attests :: "state_broadcast \<Rightarrow> provider_state \<Rightarrow> bool" where
  "attests b p \<longleftrightarrow> (\<exists>q\<in>set (fmvalues (gs_providers (sb_snapshot b))). p = stamp_provider (sb_origin_site b) (sb_revision b) q)"

definition vouched :: "handler_env \<Rightarrow> trust_store \<Rightarrow> string \<Rightarrow> provider_state \<Rightarrow> bool" where
  "vouched env store grid p \<longleftrightarrow> provider_network store grid = Some (ps_network_id p) \<and>
     (\<exists>keys key now b. trust_pin store (PinGrid grid (ps_site_id p)) = Some keys \<and> key \<in> set keys \<and>
        signed_by env now [key] b \<and> broadcast_scope b = ProviderStateScope (ps_site_id p) (Some grid) \<and>
        attests b p)"

definition store_ok :: "trust_store \<Rightarrow> bool" where
  "store_ok store \<longleftrightarrow> (\<forall>grid. is_strict store grid \<longrightarrow> provider_network store grid \<noteq> None) \<and>
     (\<forall>key keys. trust_pin store key = Some keys \<longrightarrow> length keys \<le> MAX_PINNED_KEYS_PER_ORIGIN)"

definition owner_ok :: "trust_store \<Rightarrow> provider_owner \<Rightarrow> bool" where
  "owner_ok store owner \<longleftrightarrow> (any_strict store \<longrightarrow> po_verified_grid owner) \<and>
     (po_verified_grid owner \<longrightarrow> sc_grid_id (po_scope owner) \<noteq> None) \<and>
     (\<forall>grid. sc_grid_id (po_scope owner) = Some grid \<longrightarrow>
        trust_pin store (PinGrid grid (sc_origin_site (po_scope owner))) \<noteq> Some [])"

definition trust_inv :: "handler_env \<Rightarrow> state_handler \<Rightarrow> bool" where
  "trust_inv env h \<longleftrightarrow> providers_owned h \<and> store_ok (hs_trust_store h) \<and>
     (\<forall>i owner. fmlookup (owners_of h) i = Some owner \<longrightarrow> owner_ok (hs_trust_store h) owner) \<and>
     (\<forall>k p owner grid. fmlookup (providers_of h) k = Some p \<longrightarrow>
        fmlookup (owners_of h) (provider_identity_of p) = Some owner \<longrightarrow> sc_grid_id (po_scope owner) = Some grid \<longrightarrow>
        is_strict (hs_trust_store h) grid \<longrightarrow> vouched env (hs_trust_store h) grid p)"

lemma trust_invI:
  assumes "providers_owned h" "store_ok (hs_trust_store h)"
    and "\<And>i owner. fmlookup (owners_of h) i = Some owner \<Longrightarrow> owner_ok (hs_trust_store h) owner"
    and "\<And>k p owner grid. fmlookup (providers_of h) k = Some p \<Longrightarrow>
      fmlookup (owners_of h) (provider_identity_of p) = Some owner \<Longrightarrow> sc_grid_id (po_scope owner) = Some grid \<Longrightarrow>
      is_strict (hs_trust_store h) grid \<Longrightarrow> vouched env (hs_trust_store h) grid p"
  shows "trust_inv env h"
  using assms unfolding trust_inv_def by blast

lemma trust_invD:
  assumes "trust_inv env h"
  shows "providers_owned h" "store_ok (hs_trust_store h)"
    and "fmlookup (owners_of h) i = Some owner \<Longrightarrow> owner_ok (hs_trust_store h) owner"
    and "fmlookup (providers_of h) k = Some p \<Longrightarrow> fmlookup (owners_of h) (provider_identity_of p) = Some owner \<Longrightarrow>
      sc_grid_id (po_scope owner) = Some grid \<Longrightarrow> is_strict (hs_trust_store h) grid \<Longrightarrow>
      vouched env (hs_trust_store h) grid p"
  using assms unfolding trust_inv_def by blast+

text \<open>A step that keeps the trust store and only removes owners and providers.\<close>

lemma trust_inv_shrinks:
  assumes "trust_inv env h" "hs_trust_store h' = hs_trust_store h" "providers_owned h'"
    and "\<And>i owner. fmlookup (owners_of h') i = Some owner \<Longrightarrow> fmlookup (owners_of h) i = Some owner"
    and "\<And>k p. fmlookup (providers_of h') k = Some p \<Longrightarrow> fmlookup (providers_of h) k = Some p"
  shows "trust_inv env h'"
proof (rule trust_invI; (unfold assms(2))?)
  note inv = trust_invD [OF assms(1)]
  show "providers_owned h'" "store_ok (hs_trust_store h)" using assms(3) inv(2) by simp_all
  show "owner_ok (hs_trust_store h) owner" if "fmlookup (owners_of h') i = Some owner" for i owner
    using assms(4) [OF that] by (rule inv(3))
  show "vouched env (hs_trust_store h) grid p" if "fmlookup (providers_of h') k = Some p"
    "fmlookup (owners_of h') (provider_identity_of p) = Some owner" "sc_grid_id (po_scope owner) = Some grid"
    "is_strict (hs_trust_store h) grid" for k p owner grid
    using inv(4) [OF assms(5) [OF that(1)] assms(4) [OF that(2)] that(3,4)] .
qed

lemma trust_inv_remove:
  assumes "trust_inv env h"
  shows "trust_inv env (handler_remove_origin site h)" "trust_inv env (control_remove_grid grid origin h)"
    "trust_inv env (control_forget_departed site h)"
proof -
  have owned: "providers_owned h" using assms by (simp add: trust_inv_def)
  show "trust_inv env (handler_remove_origin site h)"
    using assms by (rule trust_inv_shrinks)
      (use owned_remove [OF owned] in \<open>auto simp: remove_origin_providers_def split: if_splits option.splits\<close>)
  show "trust_inv env (control_remove_grid grid origin h)"
    using assms by (rule trust_inv_shrinks)
      (use owned_remove_grid [OF owned] in \<open>auto simp: remove_grid_owners remove_grid_providers split: if_splits\<close>)
  have "providers_owned (control_forget_departed site h)" using owned by simp
  then show "trust_inv env (control_forget_departed site h)"
    by (intro trust_inv_shrinks [OF assms]) (auto simp: control_forget_departed_def publish_departed_def retained_forget_departed_def)
qed

lemma trust_inv_frames:
  "trust_inv env (snd (store_metadata now b h)) \<longleftrightarrow> trust_inv env h"
  "trust_inv env (frame_pushed env' now mb h) \<longleftrightarrow> trust_inv env h"
  "trust_inv env (publish_verified_inventories now h) \<longleftrightarrow> trust_inv env h"
  by (simp_all add: trust_inv_def providers_owned_def frame_pushed_def publish_verified_inventories_eq)

lemma trust_inv_room:
  assumes "trust_inv env h" "make_room_for site h = (True, h')"
  shows "trust_inv env h' \<and> hs_trust_store h' = hs_trust_store h"
  using assms trust_inv_remove(1)
  by (cases rule: make_room_cases [of site h]) auto

text \<open>The admission of a broadcast that carries state, as the invariant needs it.\<close>

lemma admitted_state:
  assumes "verify_signature_if_pinned env now h b = Inr ()" "\<not> is_metadata_only b"
  shows "any_strict (hs_trust_store h) \<Longrightarrow> verified_grid_of (hs_trust_store h) b"
    and "sb_grid_id b = Some grid \<Longrightarrow> trust_pin (hs_trust_store h) (PinGrid grid (sb_origin_site b)) \<noteq> Some []"
    and "sb_grid_id b = Some grid \<Longrightarrow> is_strict (hs_trust_store h) grid \<Longrightarrow>
      \<exists>keys key. trust_pin (hs_trust_store h) (PinGrid grid (sb_origin_site b)) = Some keys \<and> key \<in> set keys \<and>
        signed_by env now [key] b"
proof -
  obtain a where a: "admission_of (hs_trust_store h) b = Inr a" "\<And>keys. a = Signed keys \<Longrightarrow> signed_by env now keys b"
    using assms(1) by (cases rule: verify_signature_ok) auto
  have kind: "carries_grid_state b" "\<not> is_cert_only b"
    using assms(2) by (simp_all add: carries_grid_state_def is_cert_only_def)
  show "verified_grid_of (hs_trust_store h) b" if "any_strict (hs_trust_store h)"
    by (rule admission_any_strict [OF that kind(1) a(1)]) (simp add: verified_grid_of_def)
  show "trust_pin (hs_trust_store h) (PinGrid grid (sb_origin_site b)) \<noteq> Some []" if "sb_grid_id b = Some grid"
    using a(1) that by (auto simp: admission_of_def Let_def split: if_splits)
  show "\<exists>keys key. trust_pin (hs_trust_store h) (PinGrid grid (sb_origin_site b)) = Some keys \<and> key \<in> set keys \<and>
        signed_by env now [key] b" if strict: "sb_grid_id b = Some grid" "is_strict (hs_trust_store h) grid"
  proof -
    obtain keys where "trust_pin (hs_trust_store h) (PinGrid grid (sb_origin_site b)) = Some keys" "a = Signed keys"
      using admission_strict_grid [OF strict(2,1) a(1)] kind(2) by blast
    then show ?thesis using a(2) by (fastforce simp: signed_by_def)
  qed
qed

lemma incoming_network:
  "i |\<in>| incoming_identities b nets \<Longrightarrow> id_network i |\<in>| nets \<and> id_site i = sb_origin_site b"
  by (auto simp: incoming_identities_def fset_of_list_elem provider_identity_of_def)

lemma networks_bound:
  "provider_network store grid = Some allowed \<Longrightarrow> sb_grid_id b = Some grid \<Longrightarrow>
    network |\<in>| networks_to_replace store b nets \<Longrightarrow> network = allowed"
  by (auto simp: networks_to_replace_def Let_def)

lemma accepted_in_broadcast:
  "p \<in> set (accepted_providers b nets) \<Longrightarrow> attests b p"
  unfolding accepted_providers_def attests_def set_map set_filter by blast

text \<open>After a broadcast was applied, what stands in the snapshot stood there before or is in the broadcast.\<close>

lemma applied_owner:
  assumes "fmlookup (owners_of (snd (apply_provider_state now b (broadcast_scope b) nets uids h))) i = Some owner"
  obtains (old) "fmlookup (owners_of h) i = Some owner"
    "carries_provider_state b \<Longrightarrow> i |\<notin>| incoming_identities b (networks_to_replace (hs_trust_store h) b nets)"
  | (new) "owner = \<lparr>po_scope = broadcast_scope b, po_verified_grid = verified_grid_of (hs_trust_store h) b\<rparr>"
      "i |\<in>| incoming_identities b (networks_to_replace (hs_trust_store h) b nets)" "carries_provider_state b"
  using assms that
  by (auto simp: applied_replacement_def replaced_owners_lookup split: if_splits)

lemma applied_provider:
  assumes "fmlookup (providers_of (snd (apply_provider_state now b (broadcast_scope b) nets uids h))) k = Some p"
  shows "fmlookup (providers_of h) k = Some p \<and> (carries_provider_state b \<longrightarrow>
      provider_identity_of p |\<notin>| incoming_identities b (networks_to_replace (hs_trust_store h) b nets)) \<or>
    carries_provider_state b \<and> p \<in> set (accepted_providers b (networks_to_replace (hs_trust_store h) b nets))"
  using fold_upsert_mem [of "accepted_providers b (networks_to_replace (hs_trust_store h) b nets)"] assms
  by (force simp: apply_snapshot applied_replacement_def replace_providers_eq replaces_identity_def split: option.splits if_splits)

lemma trust_inv_apply:
  assumes "trust_inv env h" "verify_signature_if_pinned env now h0 b = Inr ()" "hs_trust_store h0 = hs_trust_store h"
    and "\<not> is_metadata_only b"
  shows "trust_inv env (snd (apply_provider_state now b (broadcast_scope b) nets uids h))"
proof (rule trust_invI)
  let ?h = "snd (apply_provider_state now b (broadcast_scope b) nets uids h)"
  let ?nets = "networks_to_replace (hs_trust_store h) b nets"
  note inv = trust_invD [OF assms(1)]
  note adm = admitted_state [OF assms(2,4), unfolded assms(3)]
  show "providers_owned ?h" using inv(1) by (rule owned_apply)
  show "store_ok (hs_trust_store ?h)" using inv(2) by simp
  have scope: "sc_grid_id (broadcast_scope b) = sb_grid_id b" by (simp add: broadcast_scope_def)
  show "owner_ok (hs_trust_store ?h) owner" if "fmlookup (owners_of ?h) i = Some owner" for i owner
    using that
  proof (cases rule: applied_owner)
    case old
    with inv(3) show ?thesis by simp
  next
    case new
    then show ?thesis
      using adm(1,2) by (auto simp: owner_ok_def scope verified_grid_of_def split: option.splits)
  qed
  show "vouched env (hs_trust_store ?h) grid p"
    if p: "fmlookup (providers_of ?h) k = Some p" and owner: "fmlookup (owners_of ?h) (provider_identity_of p) = Some owner"
      and grid: "sc_grid_id (po_scope owner) = Some grid" "is_strict (hs_trust_store ?h) grid" for k p owner grid
    using owner
  proof (cases rule: applied_owner)
    case old
    with applied_provider [OF p] have "fmlookup (providers_of h) k = Some p"
      by (auto simp: incoming_identities_accepted)
    with inv(4) [OF _ old(1)] grid show ?thesis by simp
  next
    case new
    note g = grid [unfolded new(1) apply_frame, simplified, unfolded scope]
    obtain allowed where allowed: "provider_network (hs_trust_store h) grid = Some allowed"
      using inv(2) g(2) by (auto simp: store_ok_def)
    have net: "ps_network_id p = allowed"
      using networks_bound [OF allowed g(1) incoming_network [OF new(2), THEN conjunct1]] by (simp add: provider_identity_of_def)
    have site: "ps_site_id p = sb_origin_site b"
      using incoming_network [OF new(2)] by simp
    have "attests b p"
      using applied_provider [OF p] new(2,3) accepted_in_broadcast by blast
    moreover have "broadcast_scope b = ProviderStateScope (ps_site_id p) (Some grid)"
      by (simp add: broadcast_scope_def site g(1))
    ultimately show ?thesis
      using adm(3) [OF g, folded site] allowed [folded net] unfolding vouched_def apply_frame by blast
  qed
qed

subsection \<open>Every step keeps the invariant\<close>

lemma trust_inv_state_broadcast:
  assumes "trust_inv env h"
  shows "trust_inv env (snd (receive_state_broadcast env now b h))"
proof (cases rule: receive_state_cases [of env now b h])
  case (applied h1 nets uids)
  from trust_inv_room [OF assms applied(2)]
  have "trust_inv env (snd (store_metadata now b h1))" "hs_trust_store h = hs_trust_store (snd (store_metadata now b h1))"
    by (simp_all add: trust_inv_frames)
  from trust_inv_apply [OF this(1) applied(1) this(2) applied(3)] show ?thesis
    by (simp add: applied(8))
qed (use assms trust_inv_room [OF assms] in \<open>auto simp: trust_inv_frames\<close>)

lemma trust_inv_item: "trust_inv env h \<Longrightarrow> trust_inv env (snd (receive_item env now data h))"
proof -
  assume inv: "trust_inv env h"
  have "trust_inv env (snd (receive_model_inventory env now data h))"
    by (cases rule: receive_inventory_cases [of env now data h])
      (use inv trust_inv_room [OF inv] in \<open>auto simp: trust_inv_frames\<close>)
  then show ?thesis
    using inv trust_inv_state_broadcast [OF inv] by (simp add: receive_item_def split: sum.split)
qed

text \<open>
  A change of the trust store keeps the invariant when it adds no strict grid and takes no key that
  an owner or a provider needs.
\<close>

lemma trust_inv_store:
  assumes "trust_inv env h" "store_ok (f (hs_trust_store h))"
    and "\<And>i owner. fmlookup (owners_of h) i = Some owner \<Longrightarrow> owner_ok (hs_trust_store h) owner \<Longrightarrow>
      owner_ok (f (hs_trust_store h)) owner"
    and "\<And>p owner grid. fmlookup (owners_of h) (provider_identity_of p) = Some owner \<Longrightarrow>
      po_scope owner = ProviderStateScope (ps_site_id p) (Some grid) \<Longrightarrow> is_strict (f (hs_trust_store h)) grid \<Longrightarrow>
      is_strict (hs_trust_store h) grid \<and>
      (vouched env (hs_trust_store h) grid p \<longrightarrow> vouched env (f (hs_trust_store h)) grid p)"
  shows "trust_inv env (send_modify f h)"
proof (rule trust_invI)
  note inv = trust_invD [OF assms(1)]
  show "providers_owned (send_modify f h)" "store_ok (hs_trust_store (send_modify f h))"
    using inv(1) assms(2) by (simp_all add: send_modify_def)
  show "owner_ok (hs_trust_store (send_modify f h)) owner" if "fmlookup (owners_of (send_modify f h)) i = Some owner" for i owner
    using that assms(3) inv(3) by (simp add: send_modify_def)
  show "vouched env (hs_trust_store (send_modify f h)) grid p"
    if "fmlookup (providers_of (send_modify f h)) k = Some p" "fmlookup (owners_of (send_modify f h)) (provider_identity_of p) = Some owner"
      "sc_grid_id (po_scope owner) = Some grid" "is_strict (hs_trust_store (send_modify f h)) grid" for k p owner grid
  proof -
    have facts: "fmlookup (providers_of h) k = Some p" "fmlookup (owners_of h) (provider_identity_of p) = Some owner"
      "is_strict (f (hs_trust_store h)) grid"
      using that by (simp_all add: send_modify_def)
    have "sc_origin_site (po_scope owner) = ps_site_id p"
      using inv(1) facts(2) unfolding providers_owned_def by fastforce
    with that(3) have "po_scope owner = ProviderStateScope (ps_site_id p) (Some grid)"
      by (cases "po_scope owner") simp
    from assms(4) [OF facts(2) this facts(3)] inv(4) [OF facts(1,2) that(3)] show ?thesis
      by (simp add: send_modify_def)
  qed
qed

lemma trust_pin_simps [simp]:
  "trust_pin (set_pin key keys store) key' = (if key' = key then Some keys else trust_pin store key')"
  "trust_pin (remove_pin key store) key' = (if key' = key then None else trust_pin store key')"
  "trust_pin (forget_grid grid store) key' = (case key' of PinSite _ \<Rightarrow> trust_pin store key'
     | PinGrid g _ \<Rightarrow> if g = grid then None else trust_pin store key')"
  "trust_pin (enforce grid store) key' = trust_pin store key'"
  "trust_pin (bind_provider_network grid network store) key' = trust_pin store key'"
  "trust_pin (store_hold_admission store) key' = trust_pin store key'"
  "trust_pin (store_open_admission store) key' = trust_pin store key'"
  by (auto simp: trust_pin_def set_pin_def remove_pin_def forget_grid_def enforce_def bind_provider_network_def
      store_hold_admission_def store_open_admission_def split: pin_key.split option.split)

lemma is_strict_simps [simp]:
  "is_strict (set_pin key keys store) grid' \<longleftrightarrow> is_strict store grid'"
  "is_strict (remove_pin key store) grid' \<longleftrightarrow> is_strict store grid'"
  "is_strict (forget_grid grid store) grid' \<longleftrightarrow> grid' \<noteq> grid \<and> is_strict store grid'"
  "is_strict (enforce grid store) grid' \<longleftrightarrow> grid' = grid \<or> is_strict store grid'"
  "is_strict (bind_provider_network grid network store) grid' \<longleftrightarrow> is_strict store grid'"
  "is_strict (store_hold_admission store) grid' \<longleftrightarrow> is_strict store grid'"
  "is_strict (store_open_admission store) grid' \<longleftrightarrow> is_strict store grid'"
  by (auto simp: is_strict_def set_pin_def remove_pin_def forget_grid_def enforce_def bind_provider_network_def
      store_hold_admission_def store_open_admission_def)

lemma provider_network_simps [simp]:
  "provider_network (set_pin key keys store) grid' = provider_network store grid'"
  "provider_network (remove_pin key store) grid' = provider_network store grid'"
  "provider_network (forget_grid grid store) grid' = (if grid' = grid then None else provider_network store grid')"
  "provider_network (enforce grid store) grid' = provider_network store grid'"
  "provider_network (bind_provider_network grid network store) grid' =
     (if grid' = grid then Some network else provider_network store grid')"
  "provider_network (store_hold_admission store) grid' = provider_network store grid'"
  "provider_network (store_open_admission store) grid' = provider_network store grid'"
  by (auto simp: provider_network_def set_pin_def remove_pin_def forget_grid_def enforce_def bind_provider_network_def
      store_hold_admission_def store_open_admission_def)

lemma any_strict_iff: "any_strict store \<longleftrightarrow> (\<exists>grid. is_strict store grid)"
  by (auto simp: any_strict_def is_strict_def)

lemma provider_state_scope_eq_iff: "s = ProviderStateScope site grid \<longleftrightarrow> sc_origin_site s = site \<and> sc_grid_id s = grid"
  by (cases s) simp

text \<open>What is left after a grid was removed for one origin, or for all of them.\<close>

lemma remove_grid_left:
  assumes "fmlookup (owners_of (control_remove_grid grid origin h)) i = Some owner"
  shows "origin = Some site \<Longrightarrow> \<not> (sc_grid_id (po_scope owner) = Some grid \<and> sc_origin_site (po_scope owner) = site)"
    and "origin = None \<Longrightarrow> po_verified_grid owner \<and> sc_grid_id (po_scope owner) \<noteq> Some grid"
  using assms by (auto simp: remove_grid_owners removed_owners_iff selected_scope_def split: if_splits)

text \<open>A change of pins: it suffices that the owners left keep the keys they were admitted under.\<close>

lemma vouched_mono:
  assumes "vouched env store grid p" "provider_network store' grid = provider_network store grid"
    and "\<And>held. trust_pin store (PinGrid grid (ps_site_id p)) = Some held \<Longrightarrow>
      \<exists>keys. trust_pin store' (PinGrid grid (ps_site_id p)) = Some keys \<and> set held \<subseteq> set keys"
  shows "vouched env store' grid p"
proof -
  from assms(1) obtain held key now b where v: "trust_pin store (PinGrid grid (ps_site_id p)) = Some held" "key \<in> set held"
    "signed_by env now [key] b" "broadcast_scope b = ProviderStateScope (ps_site_id p) (Some grid)"
    "attests b p"
    "provider_network store grid = Some (ps_network_id p)"
    unfolding vouched_def by blast
  from assms(3) [OF v(1)] obtain keys where "trust_pin store' (PinGrid grid (ps_site_id p)) = Some keys" "key \<in> set keys"
    using v(2) by blast
  with v(3-6) assms(2) show ?thesis unfolding vouched_def by auto
qed

lemma trust_inv_pins:
  assumes "trust_inv env h" "store_ok (f (hs_trust_store h))"
    and strict: "\<And>grid. is_strict (f (hs_trust_store h)) grid \<Longrightarrow> is_strict (hs_trust_store h) grid \<and>
      provider_network (f (hs_trust_store h)) grid = provider_network (hs_trust_store h) grid"
    and pins: "\<And>i owner grid. fmlookup (owners_of h) i = Some owner \<Longrightarrow> sc_grid_id (po_scope owner) = Some grid \<Longrightarrow>
      let key = PinGrid grid (sc_origin_site (po_scope owner))
      in (trust_pin (hs_trust_store h) key \<noteq> Some [] \<longrightarrow> trust_pin (f (hs_trust_store h)) key \<noteq> Some []) \<and>
         (is_strict (f (hs_trust_store h)) grid \<longrightarrow> (\<forall>held. trust_pin (hs_trust_store h) key = Some held \<longrightarrow>
            (\<exists>keys. trust_pin (f (hs_trust_store h)) key = Some keys \<and> set held \<subseteq> set keys)))"
  shows "trust_inv env (send_modify f h)"
  using assms(1,2)
proof (rule trust_inv_store)
  show "owner_ok (f (hs_trust_store h)) owner"
    if "fmlookup (owners_of h) i = Some owner" "owner_ok (hs_trust_store h) owner" for i owner
  proof -
    have "any_strict (f (hs_trust_store h)) \<Longrightarrow> any_strict (hs_trust_store h)"
      using strict unfolding any_strict_iff by blast
    with that(2) pins [OF that(1)] show ?thesis by (simp add: owner_ok_def Let_def)
  qed
  show "is_strict (hs_trust_store h) grid \<and> (vouched env (hs_trust_store h) grid p \<longrightarrow> vouched env (f (hs_trust_store h)) grid p)"
    if owner: "fmlookup (owners_of h) (provider_identity_of p) = Some owner"
      and scope: "po_scope owner = ProviderStateScope (ps_site_id p) (Some grid)"
      and grid: "is_strict (f (hs_trust_store h)) grid" for p owner grid
  proof -
    have "\<exists>keys. trust_pin (f (hs_trust_store h)) (PinGrid grid (ps_site_id p)) = Some keys \<and> set held \<subseteq> set keys"
      if "trust_pin (hs_trust_store h) (PinGrid grid (ps_site_id p)) = Some held" for held
      using pins [OF owner, of grid] scope grid that by (simp add: Let_def)
    then show ?thesis using strict [OF grid] vouched_mono by blast
  qed
qed

lemma trust_inv_control:
  assumes "control_step h h'" "trust_inv env h"
  shows "trust_inv env h'"
  using assms(1)
proof cases
  case (control_grid_pin keys grid site)
  show ?thesis
    unfolding control_grid_pin(1)
  proof (rule trust_inv_pins [OF trust_inv_remove(2) [OF assms(2)]], goal_cases)
    case 1
    then show ?case using trust_invD(2) [OF assms(2)] control_grid_pin(2) by (auto simp: store_ok_def split: if_splits)
  next
    case (3 i owner g)
    with remove_grid_left(1) [OF 3(1)] show ?case by (auto simp: Let_def)
  qed simp
next
  case (control_grid_unpin grid site)
  show ?thesis
    unfolding control_grid_unpin
  proof (rule trust_inv_pins [OF trust_inv_remove(2) [OF assms(2)]], goal_cases)
    case 1
    then show ?case using trust_invD(2) [OF assms(2)] by (auto simp: store_ok_def split: if_splits)
  next
    case (3 i owner g)
    with remove_grid_left(1) [OF 3(1)] show ?case by (auto simp: Let_def)
  qed simp
next
  case (control_enforce grid network)
  show ?thesis
    unfolding control_enforce
  proof (rule trust_inv_store [OF trust_inv_remove(2) [OF assms(2)]], goal_cases)
    case 1
    then show ?case
      using trust_invD(2) [OF assms(2)] by (fastforce simp: store_ok_def split: if_splits pin_key.splits)
  next
    case (2 i owner)
    with remove_grid_left(2) [OF 2(1)] show ?case by (auto simp: owner_ok_def)
  next
    case (3 p owner g)
    with remove_grid_left(2) [OF 3(1)] have "g \<noteq> grid" by auto
    with 3(3) show ?case by (simp add: vouched_def)
  qed
next
  case (control_rotate grid site held keys)
  show ?thesis
    unfolding control_rotate(1)
  proof (rule trust_inv_pins [OF assms(2)], goal_cases)
    case 1
    then show ?case using trust_invD(2) [OF assms(2)] control_rotate(5) by (auto simp: store_ok_def split: if_splits)
  next
    case (3 i owner g)
    with control_rotate(2-4) show ?case by (auto simp: Let_def)
  qed simp
next
  case (control_site_pin keys site)
  show ?thesis
    unfolding control_site_pin(1)
    by (rule trust_inv_pins [OF assms(2)])
      (use trust_invD(2) [OF assms(2)] control_site_pin(2) in \<open>auto simp: store_ok_def Let_def split: if_splits\<close>)
next
  case (control_site_unpin site)
  show ?thesis
    unfolding control_site_unpin
    by (rule trust_inv_pins [OF assms(2)])
      (use trust_invD(2) [OF assms(2)] in \<open>auto simp: store_ok_def Let_def split: if_splits\<close>)
next
  case (control_relax grid)
  show ?thesis
    unfolding control_relax
    by (rule trust_inv_pins [OF assms(2)])
      (use trust_invD(2) [OF assms(2)] in \<open>auto simp: store_ok_def Let_def split: if_splits pin_key.splits\<close>)
next
  case control_hold
  show ?thesis
    unfolding control_hold
    by (rule trust_inv_pins [OF assms(2)])
      (use trust_invD(2) [OF assms(2)] in \<open>auto simp: store_ok_def Let_def\<close>)
next
  case control_open
  show ?thesis
    unfolding control_open
    by (rule trust_inv_pins [OF assms(2)])
      (use trust_invD(2) [OF assms(2)] in \<open>auto simp: store_ok_def Let_def\<close>)
qed (simp_all add: control_remove_origin_eq trust_inv_remove [OF assms(2)])

lemma trust_inv_node:
  assumes "foca_lawful env api" "node_step env api n n'" "trust_inv env (sn_handler n)"
  shows "trust_inv env (sn_handler n')"
proof -
  have "trust_inv env h'" if "(item_step env)\<^sup>*\<^sup>* h h'" "trust_inv env h" for h h'
    using that by (induction rule: rtranclp_induct) (auto elim: item_step.cases simp: trust_inv_item)
  moreover have "trust_inv env h'" if "control_step\<^sup>*\<^sup>* h h'" "trust_inv env h" for h h'
    using that by (induction rule: rtranclp_induct) (simp_all add: trust_inv_control)
  ultimately show ?thesis
    using node_step_splits [OF assms(1,2)] assms(3) by blast
qed

lemma trust_inv_new: "trust_inv env (sn_handler (with_origin_capacity api identity n))"
  by (simp add: trust_inv_def providers_owned_def store_ok_def with_origin_capacity_def with_capacity_def Let_def
      retained_default_def snapshot_new_def trust_store_default_def is_strict_def trust_pin_def)

lemma trust_inv_reachable:
  assumes "foca_lawful env api" "node_steps env api (with_origin_capacity api identity n) node"
  shows "trust_inv env (sn_handler node)"
  using assms(2) by (induction rule: rtranclp_induct) (simp_all add: trust_inv_new trust_inv_node [OF assms(1)])

subsection \<open>Properties\<close>

text \<open>
  C1. What a strict grid shows is signed by keys pinned right now. In every state a node can reach
  through its operations, once any grid is strict every provider in the snapshot belongs to a grid and
  was admitted under a key pinned for it; and if that grid is itself strict, the record is one that a
  broadcast of its own site for that grid carried, that broadcast verifies against a key the trust
  store holds at this moment, and the record's network is the one bound to the grid. So state admitted
  under a key that was since rotated out, revoked or unbound is never left behind.
\<close>

theorem strict_grid_vouched:
  assumes "foca_lawful env api" "node_steps env api (with_origin_capacity api identity n) node"
    and "any_strict (trust_of node)" "fmlookup (gs_providers (hs_state (sn_handler node))) k = Some p"
  shows "\<exists>owner grid. fmlookup (rt_provider_owners (hs_retained (sn_handler node))) (provider_identity_of p) = Some owner \<and>
    po_verified_grid owner \<and> po_scope owner = ProviderStateScope (ps_site_id p) (Some grid) \<and>
    (is_strict (trust_of node) grid \<longrightarrow> vouched env (trust_of node) grid p)"
proof -
  note inv = trust_invD [OF trust_inv_reachable [OF assms(1,2)]]
  from inv(1) assms(4) obtain owner where
    owner: "fmlookup (owners_of (sn_handler node)) (provider_identity_of p) = Some owner"
      "sc_origin_site (po_scope owner) = ps_site_id p"
    unfolding providers_owned_def by fastforce
  from inv(3) [OF owner(1)] assms(3) obtain grid where grid: "po_verified_grid owner" "sc_grid_id (po_scope owner) = Some grid"
    by (auto simp: owner_ok_def)
  with owner inv(4) [OF assms(4) owner(1) grid(2)] show ?thesis
    by (auto simp: provider_state_scope_eq_iff)
qed

text \<open>
  C13. A revoked site is gone and stays out. In every reachable state in which the trust store holds an
  empty pin for a site in a grid, as revocation leaves it, the snapshot has no provider owned by that
  site in that grid, whatever was received since.
\<close>

theorem revoked_site_absent:
  assumes "foca_lawful env api" "node_steps env api (with_origin_capacity api identity n) node"
    and "trust_pin (trust_of node) (PinGrid grid site) = Some []"
    and "fmlookup (gs_providers (hs_state (sn_handler node))) k = Some p"
  shows "\<exists>owner. fmlookup (rt_provider_owners (hs_retained (sn_handler node))) (provider_identity_of p) = Some owner \<and>
    po_scope owner \<noteq> ProviderStateScope site (Some grid)"
proof -
  note inv = trust_invD [OF trust_inv_reachable [OF assms(1,2)]]
  from inv(1) assms(4) obtain owner where
    owner: "fmlookup (owners_of (sn_handler node)) (provider_identity_of p) = Some owner"
    unfolding providers_owned_def by fastforce
  from inv(3) [OF this] assms(3) have "po_scope owner \<noteq> ProviderStateScope site (Some grid)"
    by (auto simp: owner_ok_def)
  with owner show ?thesis by blast
qed

text \<open>
  No origin has more than two accepted keys. Pinning a larger set is refused and changes nothing,
  and in every reachable state every pin of the trust store holds at most two keys.
\<close>

theorem pinned_keys_bounded:
  assumes "foca_lawful env api" "node_steps env api (with_origin_capacity api identity n) node"
  shows "(length keys > 2 \<longrightarrow>
      pin_origin site keys node = (Inl (TooManyPinnedKeys site (length keys)), node) \<and>
      pin_origin_for_grid grid site keys node = (Inl (TooManyPinnedKeys site (length keys)), node)) \<and>
    (trust_pin (trust_of node) key = Some held \<longrightarrow> length held \<le> 2)"
  using trust_invD(2) [OF trust_inv_reachable [OF assms]]
  by (auto simp: store_ok_def MAX_PINNED_KEYS_PER_ORIGIN_def pin_origin_def pin_origin_for_grid_def)

text \<open>Every step of a node is a run of the broadcast handler.\<close>

lemma item_handler_steps: "(item_step env)\<^sup>*\<^sup>* h h' \<Longrightarrow> handler_steps env h h'"
  by (induction rule: rtranclp_induct) (auto elim!: item_step.cases intro: step_receive rtranclp.rtrancl_into_rtrancl)

lemma control_handler_steps: "control_step h h' \<Longrightarrow> handler_steps env h h'"
proof -
  have store: "handler_step env h (send_modify f h)" for f h
    unfolding send_modify_def by (rule step_trust_store)
  have removed: "handler_steps env h (send_modify f (control_remove_grid grid origin h))" for f grid origin h
    using step_remove_grid store by (rule converse_rtranclp_into_rtranclp [OF _ r_into_rtranclp])
  show "control_step h h' \<Longrightarrow> handler_steps env h h'"
    by (cases rule: control_step.cases)
      (auto intro: r_into_rtranclp store removed step_remove_origin step_forget_departed)
qed

lemma node_handler_steps:
  assumes "foca_lawful env api" "node_step env api n n'"
  shows "handler_steps env (sn_handler n) (sn_handler n')"
proof -
  have "handler_steps env h h'" if "control_step\<^sup>*\<^sup>* h h'" for h h'
    using that by (induction rule: rtranclp_induct) (auto intro: control_handler_steps rtranclp_trans)
  with node_step_splits [OF assms] item_handler_steps show ?thesis by blast
qed

lemma runtime_drained: "node_step env api n n' \<Longrightarrow> sn_runtime n = output_new \<Longrightarrow> sn_runtime n' = output_new"
  by (elim node_stepE)
    (simp_all add: evict_origin_def forget_departed_origin_def pin_origin_def pin_origin_for_grid_def
      enforce_signed_grid_def hold_state_admission_def open_state_admission_def relax_signed_grid_def
      unpin_origin_for_grid_def clear_origin_pin_for_grid_def unpin_origin_def Let_def handle_data_def handle_timer_def
      announce_def gossip_def node_broadcast_def leave_def take_output_def publish_state_broadcast_def
      publish_model_inventory_broadcast_def queue_bytes_def case_prod_unfold split: sum.split)


text \<open>
  C36. A queued broadcast fits a datagram. When publishing succeeds, the packet the protocol builds for
  any destination whose header is no longer than the worst-case one, its header, the two length bytes
  and the payload, encrypts to a frame of at most 1,400 bytes, and the receiver's decryption gives the
  packet back.
\<close>

theorem published_fits_datagram:
  assumes "publish_state_broadcast env api b node = (Inr (), node')"
    and "broadcast_encode (he_codec env) b = Inr data" "data \<noteq> []"
    and "fa_header api (fa_identity api (sn_foca node)) (worst_case_dst (fa_worst_addr api)) = Inr worst"
    and "length header \<le> length worst" "length prefix = CUSTOM_BROADCAST_LENGTH_PREFIX_BYTES"
    and "encrypt a (Inr nonce) key (header @ prefix @ data) = Inr frame" "length nonce = NONCE_LEN"
    and "aead_inverts a key nonce (header @ prefix @ data)"
  shows "length frame \<le> 1400 \<and> decrypt a key frame = Inr (header @ prefix @ data)"
proof -
  have "length data \<le> MAX_FOCA_PACKET_BYTES - length worst - CUSTOM_BROADCAST_LENGTH_PREFIX_BYTES"
    using assms(1,2,4)
    by (auto simp: publish_state_broadcast_def queue_bytes_def state_broadcast_byte_budget_def split: if_splits)
  moreover have "0 < length data" using assms(3) by simp
  ultimately show ?thesis
    using encrypt_frame [OF assms(7-9)] assms(5,6)
    by (simp del: length_greater_0_conv add: MAX_FOCA_PACKET_BYTES_def MAX_SWIM_PACKET_BYTES_def CUSTOM_BROADCAST_LENGTH_PREFIX_BYTES_def OVERHEAD_def)
qed

subsection \<open>Examples\<close>

text \<open>A membership protocol that hands every datagram and every queued broadcast to the handler.\<close>

definition ex_foca :: "handler_env \<Rightarrow> (node_id, nat) foca_api" where
  "ex_foca env = \<lparr>fa_new = (\<lambda>identity _. identity), fa_identity = (\<lambda>identity. identity),
     fa_handle_data = (\<lambda>data (f, h, out). (Inr (), f, snd (receive_item env 5000000 data h), out)),
     fa_handle_timer = (\<lambda>t (f, h, out). (Inr (), f, h, submit_after t 1 out)),
     fa_announce = (\<lambda>dst (f, h, out). (Inr (), f, h, send_to dst [] out)),
     fa_gossip = Pair (Inr ()), fa_broadcast = Pair (Inr ()), fa_leave_cluster = Pair (Inr ()),
     fa_add_broadcast = (\<lambda>data (f, h). (Inr True, f, snd (receive_item env 5000000 data h))),
     fa_header = (\<lambda>src dst. Inr [0, 0]), fa_worst_addr = ''w'',
     fa_encode_inventory = (\<lambda>_. Inr [])\<rparr>"

lemma ex_foca_lawful: "foca_lawful env (ex_foca env)"
proof -
  have entry: "foca_entry env f" if "\<And>a h out. foca_call env (h, out) (snd (snd (f (a, h, out)))) \<or> snd (snd (f (a, h, out))) = (h, out)"
    for f :: "(node_id, nat) foca_world \<Rightarrow> (foca_error + unit) \<times> _"
    unfolding foca_entry_def using that by (metis prod.collapse r_into_rtranclp rtranclp.rtrancl_refl snd_conv)
  have "foca_entry env (fa_handle_data (ex_foca env) data)" "foca_entry env (fa_handle_timer (ex_foca env) t)"
    "foca_entry env (fa_announce (ex_foca env) dst)" "foca_entry env (fa_gossip (ex_foca env))"
    "foca_entry env (fa_broadcast (ex_foca env))" "foca_entry env (fa_leave_cluster (ex_foca env))" for data t dst
    by (rule entry; simp add: ex_foca_def foca_call.intros)+
  then show ?thesis
    unfolding foca_lawful_def by (simp add: ex_foca_def) blast
qed

definition ex_node_id :: node_id where
  "ex_node_id = with_generation ''s'' ''addr'' 1"

definition ex_node_pinned :: "(node_id, nat) swim_node" where
  "ex_node_pinned = snd (pin_origin_for_grid ''g'' ''a'' [[8]]
     (enforce_signed_grid ''g'' ''n'' (with_origin_capacity (ex_foca ex_env1) ex_node_id 3)))"

definition ex_node :: "(node_id, nat) swim_node" where
  "ex_node = snd (handle_data (ex_foca ex_env1) [1, 2, 3, 2, 5] ex_node_pinned)"

definition ex_node_revoked :: "(node_id, nat) swim_node" where
  "ex_node_revoked = unpin_origin_for_grid ''g'' ''z'' ex_node"

lemma ex_node_steps:
  "node_steps ex_env1 (ex_foca ex_env1) (with_origin_capacity (ex_foca ex_env1) ex_node_id 3) ex_node"
  "node_steps ex_env1 (ex_foca ex_env1) (with_origin_capacity (ex_foca ex_env1) ex_node_id 3) ex_node_revoked"
proof -
  show steps: "node_steps ex_env1 (ex_foca ex_env1) (with_origin_capacity (ex_foca ex_env1) ex_node_id 3) ex_node"
    unfolding ex_node_def ex_node_pinned_def
    by (rule rtranclp.rtrancl_into_rtrancl [OF rtranclp.rtrancl_into_rtrancl [OF r_into_rtranclp]])
      (rule node_enforce node_pin_grid node_data)+
  show "node_steps ex_env1 (ex_foca ex_env1) (with_origin_capacity (ex_foca ex_env1) ex_node_id 3) ex_node_revoked"
    unfolding ex_node_revoked_def using steps node_unpin_grid by (rule rtranclp.rtrancl_into_rtrancl)
qed

lemma ex_node_pinned_handler: "sn_handler ex_node_pinned = ex_strict_handler"
  unfolding ex_node_pinned_def ex_node_id_def with_origin_capacity_def with_generation_def by code_simp

definition ex_node_received :: state_handler where
  "ex_node_received = \<lparr>
    hs_state = \<lparr>gs_site_id = ''s'',
      gs_capabilities = \<lparr>os_counter = 0, os_entries = fmempty, os_site_id = ''s'', os_tombstones = {||}\<rparr>,
      gs_providers = fmap_of_list [(''n/a/p'', (ex_provider ''a'' ''p'' 7)\<lparr>ps_tools := [''t''], ps_capacity_weight := 3\<rparr>)],
      gs_tenant_spend = fmempty\<rparr>,
    hs_retained = (hs_retained ex_received)\<lparr>
      rt_provider_owners := fmap_of_list [(ProviderIdentity ''n'' ''a'' ''p'',
        \<lparr>po_scope = ProviderStateScope ''a'' (Some ''g''), po_verified_grid = True\<rparr>)],
      rt_unverified_scopes := {||}\<rparr>,
    hs_gateway_addrs = fmap_of_list [(''a'', ''gw'')], hs_cert_pems = fmempty, hs_signals_addrs = fmempty,
    hs_model_inventories = [], hs_assembler = assembler_empty, hs_trust_store = hs_trust_store ex_strict_handler,
    hs_max_origins = 3, hs_max_scopes = 48\<rparr>"

lemma ex_strict_received: "snd (receive_item ex_env1 5000000 [1, 2, 3, 2, 5] ex_strict_handler) = ex_node_received"
  unfolding ex_node_received_def ex_received_eq by code_simp

lemma ex_node_handler: "sn_handler ex_node = ex_node_received"
  by (simp add: ex_node_def handle_data_def call_foca_def ex_foca_def ex_node_pinned_handler ex_strict_received)

lemma ex_node_facts:
  "any_strict (trust_of ex_node)" "is_strict (trust_of ex_node) ''g''"
  "fmlookup (gs_providers (hs_state (sn_handler ex_node))) ''n/a/p'' =
     Some ((ex_provider ''a'' ''p'' 7)\<lparr>ps_tools := [''t''], ps_capacity_weight := 3\<rparr>)"
  "fmlookup (rt_provider_owners (hs_retained (sn_handler ex_node))) (ProviderIdentity ''n'' ''a'' ''p'') =
     Some \<lparr>po_scope = ProviderStateScope ''a'' (Some ''g''), po_verified_grid = True\<rparr>"
  "trust_pin (trust_of ex_node) (PinGrid ''g'' ''a'') = Some [[8]]"
  unfolding ex_node_handler ex_node_received_def by (simp_all add: ex_strict_facts fmlookup_of_list)

lemma ex_node_revoked_facts:
  "trust_pin (trust_of ex_node_revoked) (PinGrid ''g'' ''z'') = Some []"
  "fmlookup (gs_providers (hs_state (sn_handler ex_node_revoked))) ''n/a/p'' =
     Some ((ex_provider ''a'' ''p'' 7)\<lparr>ps_tools := [''t''], ps_capacity_weight := 3\<rparr>)"
proof -
  have handler: "sn_handler ex_node_revoked = send_modify (set_pin (PinGrid ''g'' ''z'') [])
      (control_remove_grid ''g'' (Some ''z'') (sn_handler ex_node))"
    by (simp add: ex_node_revoked_def unpin_origin_for_grid_def)
  show "trust_pin (trust_of ex_node_revoked) (PinGrid ''g'' ''z'') = Some []"
    by (simp add: handler send_modify_def)
  have "ProviderIdentity ''n'' ''a'' ''p'' |\<notin>| removed_owners ''g'' (Some ''z'') (hs_retained (sn_handler ex_node))"
    by (simp add: removed_owners_iff ex_node_facts(4))
  with ex_node_facts(3) show "fmlookup (gs_providers (hs_state (sn_handler ex_node_revoked))) ''n/a/p'' =
     Some ((ex_provider ''a'' ''p'' 7)\<lparr>ps_tools := [''t''], ps_capacity_weight := 3\<rparr>)"
    by (simp add: handler send_modify_def remove_grid_providers) (simp add: provider_identity_of_def ex_provider_def)
qed

theorem strict_grid_vouched_witness:
  "vouched ex_env1 (trust_of ex_node) ''g'' ((ex_provider ''a'' ''p'' 7)\<lparr>ps_tools := [''t''], ps_capacity_weight := 3\<rparr>)"
  using strict_grid_vouched [OF ex_foca_lawful ex_node_steps(1) ex_node_facts(1,3)] ex_node_facts(2,4)
  by (auto simp: provider_identity_of_def ex_provider_def)

theorem revoked_site_absent_witness:
  "\<exists>owner. fmlookup (rt_provider_owners (hs_retained (sn_handler ex_node_revoked))) (ProviderIdentity ''n'' ''a'' ''p'') = Some owner \<and>
    po_scope owner \<noteq> ProviderStateScope ''z'' (Some ''g'')"
  using revoked_site_absent [OF ex_foca_lawful ex_node_steps(2) ex_node_revoked_facts]
  by (simp add: provider_identity_of_def ex_provider_def)


definition ex_aead :: aead where
  "ex_aead = \<lparr>seal = \<lambda>_ _ plaintext. Inr (plaintext @ replicate 16 0),
     unseal = \<lambda>_ _ ciphertext. Inr (take (length ciphertext - 16) ciphertext)\<rparr>"

theorem published_fits_datagram_witness:
  "\<exists>frame. encrypt ex_aead (Inr (replicate 12 0)) [7] ([0] @ [0, 5] @ [1, 2, 3, 2, 5]) = Inr frame \<and> length frame \<le> 1400"
proof -
  have data: "broadcast_encode (he_codec ex_env1) ex_wire_broadcast = Inr [1, 2, 3, 2, 5]"
    using ex_wire_broadcast_facts(2) by (simp add: ex_env1_def ex_env_def)
  have header: "fa_header (ex_foca ex_env1) src dst = Inr [0, 0]" for src dst
    by (simp add: ex_foca_def)
  have "fst (publish_state_broadcast ex_env1 (ex_foca ex_env1) ex_wire_broadcast ex_node_pinned) = Inr ()"
    unfolding publish_state_broadcast_def data queue_bytes_def state_broadcast_byte_budget_def header
    by (simp add: ex_foca_def MAX_FOCA_PACKET_BYTES_def MAX_SWIM_PACKET_BYTES_def OVERHEAD_def NONCE_LEN_def TAG_LEN_def
        CUSTOM_BROADCAST_LENGTH_PREFIX_BYTES_def)
  then have publish: "publish_state_broadcast ex_env1 (ex_foca ex_env1) ex_wire_broadcast ex_node_pinned =
      (Inr (), snd (publish_state_broadcast ex_env1 (ex_foca ex_env1) ex_wire_broadcast ex_node_pinned))"
    by (simp add: prod_eq_iff)
  obtain frame where "encrypt ex_aead (Inr (replicate 12 0)) [7] ([0] @ [0, 5] @ [1, 2, 3, 2, 5]) = Inr frame"
    by (simp add: encrypt_def ex_aead_def)
  with published_fits_datagram [OF publish data _ header _ _ this] show ?thesis
    by (simp add: aead_inverts_def ex_aead_def TAG_LEN_def NONCE_LEN_def CUSTOM_BROADCAST_LENGTH_PREFIX_BYTES_def)
qed

end
