(* ===== verification/Delivery.thy ===== *)
theory Delivery
  imports NodeTrust
begin

section \<open>Delivery\<close>

text \<open>
  The other direction of admission: what an honest site signed, encoded and sent is decoded, admitted
  and shown. The wire format, the trust store, the handler and the snapshot meet here.
\<close>

lemma verify_signature_signed:
  assumes "admission_of (hs_trust_store h) b = Inr (Signed keys)" "signed_by env now keys b"
    and "networks_allowed (hs_trust_store h) b"
  shows "verify_signature_if_pinned env now h b = Inr ()"
proof -
  from assms(2) obtain signature signed_at signable where s: "sb_signature b = Some signature" "sb_signed_at_ms b = Some signed_at"
    "signable_bytes (he_codec env) b = Inr signable" "list_ex (\<lambda>key. he_verify env key signable signature) keys"
    "within_freshness_window now signed_at"
    by (auto simp: signed_by_def list_ex_iff)
  have "(case sb_grid_id b of None \<Rightarrow> Inr ()
      | Some grid_id \<Rightarrow> if carries_provider_state b \<or> sb_provider_uids b \<noteq> []
          then validate_provider_networks (hs_trust_store h) grid_id (claimed_networks b) else Inr ()) = Inr ()"
    using assms(3) by (auto simp: networks_allowed_def validate_provider_networks_ok split: option.splits)
  with s assms(1) show ?thesis
    by (simp add: verify_signature_if_pinned_def required_signature_fields_def signable_for_verification_def)
qed

lemma received_fields [simp]:
  "sb_origin_site (received_broadcast b) = sb_origin_site b" "sb_grid_id (received_broadcast b) = sb_grid_id b"
  "sb_version (received_broadcast b) = sb_version b" "sb_revision (received_broadcast b) = sb_revision b"
  "sb_snapshot (received_broadcast b) = sb_snapshot b" "sb_signature (received_broadcast b) = sb_signature b"
  "sb_signed_at_ms (received_broadcast b) = sb_signed_at_ms b" "broadcast_scope (received_broadcast b) = broadcast_scope b"
  "carries_provider_state (received_broadcast b) \<longleftrightarrow> carries_provider_state b"
  "is_metadata_only (received_broadcast b) \<longleftrightarrow> is_metadata_only b" "broadcast_key (received_broadcast b) = broadcast_key b"
  by (simp_all add: received_broadcast_def broadcast_scope_def carries_provider_state_def is_metadata_only_def
      broadcast_key_def key_kind_def is_address_only_def is_cert_only_def carries_provider_state_def)

lemma signed_received: "broadcast_wf b \<Longrightarrow> signed_by env now keys b \<Longrightarrow> signed_by env now keys (received_broadcast b)"
  by (simp add: signed_by_def signable_received)

lemma networks_received:
  assumes "broadcast_wf b" "networks_allowed store b"
  shows "networks_allowed store (received_broadcast b)"
proof -
  have uids: "set (sb_provider_uids (received_broadcast b)) = set (sb_provider_uids b)"
    using received_uids [OF assms(1)] by (simp add: received_broadcast_def)
  then have "sb_provider_uids (received_broadcast b) = [] \<longleftrightarrow> sb_provider_uids b = []"
    by (metis set_empty)
  moreover have "set (claimed_networks (received_broadcast b)) = set (claimed_networks b)"
    using uids by (auto simp: claimed_networks_def)
  ultimately show ?thesis
    using assms(2) by (simp add: networks_allowed_def split: option.splits)
qed

text \<open>There is room for the broadcast's origin and scope, and its revision is newer than the one held.\<close>

definition due :: "state_broadcast \<Rightarrow> state_handler \<Rightarrow> bool" where
  "due b h \<longleftrightarrow> (sb_origin_site b |\<in>| known_origins (hs_retained h) \<or>
       fcard (known_origins (hs_retained h)) < hs_max_origins h) \<and>
     has_room_for_scope (broadcast_scope b) h \<and>
     (case fmlookup (rt_latest_by_scope (hs_retained h)) (broadcast_scope b) of
        None \<Rightarrow> True | Some held \<Rightarrow> held < sb_revision b)"

lemma due_received: "due (received_broadcast b) h \<longleftrightarrow> due b h"
  by (simp add: due_def split: option.split)

lemma due_applied:
  assumes "due b h" "sb_version b = STATE_BROADCAST_VERSION" "verify_signature_if_pinned env now h b = Inr ()"
    and "\<not> is_metadata_only b"
  obtains nets uids where "receive_state_broadcast env now b h = (Inr (Some (broadcast_key b)),
    snd (apply_provider_state now b (broadcast_scope b) nets uids (snd (store_metadata now b h))))"
proof -
  have room: "make_room_for (sb_origin_site b) h = (True, h)"
    using assms(1) by (auto simp: due_def make_room_for_def Let_def)
  have key: "fst (apply_provider_state now b s n u x) = broadcast_key b" for s n u x
    by (simp add: apply_provider_state_def Let_def case_prod_unfold)
  have guard: "\<not> (case fmlookup (rt_latest_by_scope (hs_retained h)) (broadcast_scope b) of None \<Rightarrow> False
      | Some held \<Rightarrow> outranks held (sb_revision b) (max_leased_revision (wall_ms now)))"
    "fmlookup (rt_latest_by_scope (hs_retained h)) (broadcast_scope b) \<noteq> Some (sb_revision b)"
    using assms(1) by (auto simp: due_def outranks_def split: option.splits)
  show thesis
    by (rule that) (use assms room guard in \<open>simp add: receive_state_broadcast_def Let_def case_prod_unfold key due_def\<close>)
qed

lemma applied_shows:
  assumes "fmlookup (gs_providers (sb_snapshot b)) k = Some p" "ps_site_id p = sb_origin_site b" "carries_provider_state b"
    and "ps_network_id p |\<in>| networks_to_replace (hs_trust_store h) b nets"
    and "providers_keyed (gs_providers (hs_state h))" "providers_named (gs_providers (hs_state h))"
    and "providers_keyed (gs_providers (sb_snapshot b))" "providers_named (gs_providers (sb_snapshot b))"
  shows "fmlookup (gs_providers (hs_state (snd (apply_provider_state now b s nets uids h)))) k =
    Some (stamp_provider (sb_origin_site b) (sb_revision b) p)"
  using assms by (simp add: apply_snapshot applied_replacement_def replaced_lookup)

lemma admission_pinned:
  assumes "\<not> ts_state_admission_held store" "sb_grid_id b = Some grid"
    and "trust_pin store (PinGrid grid (sb_origin_site b)) = Some keys" "keys \<noteq> []"
  shows "admission_of store b = Inr (Signed keys)"
  using assms by (simp add: admission_of_def Let_def)

text \<open>
  C15. An honest update arrives. When a site encodes a broadcast for a grid in which the receiver has a
  key of the site pinned, signed by that key within the freshness window, naming only the network bound
  to the grid, and newer than what the receiver holds, and the receiver has room for it and does not
  hold admission, then receiving the encoded bytes accepts it and every provider record it carries for
  its own site is in the snapshot afterwards, stamped with its revision. Strict or not, full of other
  grids' state or not, nothing else can refuse it.
\<close>

theorem signed_update_delivered:
  assumes "broadcast_wf b" "codec_reads (he_codec env) b" "broadcast_encode (he_codec env) b = Inr data" "\<not> recognizes data"
    and "sb_version b = STATE_BROADCAST_VERSION" "sb_grid_id b = Some grid" "\<not> ts_state_admission_held (hs_trust_store h)"
    and "trust_pin (hs_trust_store h) (PinGrid grid (sb_origin_site b)) = Some keys" "signed_by env now keys b"
    and "networks_allowed (hs_trust_store h) b" "due b h"
    and "fmlookup (gs_providers (sb_snapshot b)) k = Some p" "ps_site_id p = sb_origin_site b"
    and "providers_keyed (gs_providers (hs_state h))" "providers_named (gs_providers (hs_state h))"
    and "providers_named (gs_providers (sb_snapshot b))"
  shows "\<exists>h'. receive_item env now data h = (Inr (Some (broadcast_key b)), h') \<and>
    fmlookup (gs_providers (hs_state h')) k = Some (stamp_provider (sb_origin_site b) (sb_revision b) p)"
proof -
  let ?r = "received_broadcast b"
  have carries: "carries_provider_state b" "\<not> is_metadata_only b"
  proof -
    have "fmcount (gs_providers (sb_snapshot b)) \<noteq> 0"
      using assms(12) by (auto simp: fmcount_def dest: fmdomI)
    then show "carries_provider_state b" "\<not> is_metadata_only b"
      by (simp_all add: carries_provider_state_def is_metadata_only_def)
  qed
  have "keys \<noteq> []" using assms(9) by (auto simp: signed_by_def)
  then have "admission_of (hs_trust_store h) ?r = Inr (Signed keys)"
    using admission_pinned [OF assms(7)] assms(6,8) by simp
  then have verified: "verify_signature_if_pinned env now h ?r = Inr ()"
    using signed_received [OF assms(1,9)] networks_received [OF assms(1,10)] by (rule verify_signature_signed)
  have due: "due ?r h" "sb_version ?r = STATE_BROADCAST_VERSION" "\<not> is_metadata_only ?r"
    using assms(5,11) carries(2) by (simp_all add: due_received)
  obtain nets uids where receive: "receive_state_broadcast env now ?r h = (Inr (Some (broadcast_key ?r)),
      snd (apply_provider_state now ?r (broadcast_scope ?r) nets uids (snd (store_metadata now ?r h))))"
    by (rule due_applied [OF due(1,2) verified due(3)])
  have allowed: "provider_network (hs_trust_store h) grid = Some (ps_network_id p)"
  proof -
    have "ps_network_id p \<in> set (claimed_networks b)"
      using assms(12,13) unfolding claimed_networks_def by (auto intro!: imageI)
    with assms(6,10) carries(1) show ?thesis by (auto simp: networks_allowed_def)
  qed
  then have "ps_network_id p |\<in>| networks_to_replace (hs_trust_store h) ?r nets"
    using assms(6,12,13) by (auto simp: networks_to_replace_def Let_def fset_of_list_elem intro!: imageI)
  then have "fmlookup (gs_providers (hs_state (snd (apply_provider_state now ?r (broadcast_scope ?r) nets uids
      (snd (store_metadata now ?r h)))))) k = Some (stamp_provider (sb_origin_site ?r) (sb_revision ?r) p)"
    using assms(1,12-16) carries(1) by (intro applied_shows) (simp_all add: broadcast_wf_def)
  with receive decode_encoded [OF assms(1-3)] assms(4) show ?thesis
    by (simp add: receive_item_def)
qed

lemma ex_update_facts:
  "codec_reads (he_codec ex_env1) ex_wire_broadcast" "broadcast_encode (he_codec ex_env1) ex_wire_broadcast = Inr [1, 2, 3, 2, 5]"
  "signed_by ex_env1 5000000 [[8]] ex_wire_broadcast"
proof -
  show "codec_reads (he_codec ex_env1) ex_wire_broadcast"
    "broadcast_encode (he_codec ex_env1) ex_wire_broadcast = Inr [1, 2, 3, 2, 5]"
    using ex_codec_reads ex_wire_broadcast_facts(2) by (simp_all add: ex_env1_def ex_env_def)
  have "\<not> isl (signable_bytes (he_codec ex_env1) ex_wire_broadcast)" and fresh: "within_freshness_window 5000000 1"
    by code_simp+
  then obtain signable where "signable_bytes (he_codec ex_env1) ex_wire_broadcast = Inr signable"
    by (cases "signable_bytes (he_codec ex_env1) ex_wire_broadcast") auto
  moreover have "he_verify ex_env1 [8] signable [9]"
    by (simp add: ex_env1_def ex_env_def)
  moreover have "sb_signature ex_wire_broadcast = Some [9]" "sb_signed_at_ms ex_wire_broadcast = Some 1"
    by (simp_all add: ex_wire_broadcast_def)
  ultimately show "signed_by ex_env1 5000000 [[8]] ex_wire_broadcast"
    using fresh by (simp add: signed_by_def)
qed

theorem signed_update_delivered_witness:
  "\<exists>h'. receive_item ex_env1 5000000 [1, 2, 3, 2, 5] ex_strict_handler = (Inr (Some (broadcast_key ex_wire_broadcast)), h') \<and>
    fmlookup (gs_providers (hs_state h')) ''n/a/p'' \<noteq> None"
proof -
  have facts: "sb_version ex_wire_broadcast = STATE_BROADCAST_VERSION" "sb_grid_id ex_wire_broadcast = Some ''g''"
    "\<not> ts_state_admission_held (hs_trust_store ex_strict_handler)"
    "trust_pin (hs_trust_store ex_strict_handler) (PinGrid ''g'' (sb_origin_site ex_wire_broadcast)) = Some [[8]]"
    "due ex_wire_broadcast ex_strict_handler"
    "fmlookup (gs_providers (sb_snapshot ex_wire_broadcast)) ''n/a/p'' =
       Some ((ex_provider ''a'' ''p'' 1)\<lparr>ps_tools := [''t''], ps_capacity_weight := 3\<rparr>)"
    "ps_site_id ((ex_provider ''a'' ''p'' 1)\<lparr>ps_tools := [''t''], ps_capacity_weight := 3\<rparr>) = sb_origin_site ex_wire_broadcast"
    "providers_keyed (gs_providers (hs_state ex_strict_handler))" "providers_named (gs_providers (hs_state ex_strict_handler))"
    "providers_named (gs_providers (sb_snapshot ex_wire_broadcast))"
    "provider_network (hs_trust_store ex_strict_handler) ''g'' = Some ''n''"
    "claimed_networks ex_wire_broadcast = [''n'', ''n'']"
    by code_simp+
  have nets: "networks_allowed (hs_trust_store ex_strict_handler) ex_wire_broadcast"
    using facts(2,11,12) by (simp add: networks_allowed_def)
  from signed_update_delivered [OF ex_wire_broadcast_facts(1) ex_update_facts(1,2) ex_strict_facts(3) facts(1-4)
      ex_update_facts(3) nets facts(5-10)]
  show ?thesis by force
qed

end
