(* ===== verification/EnrollmentStore.thy ===== *)
theory EnrollmentStore
  imports Prelude
begin

section \<open>The enrollment store\<close>

text \<open>
  \<^verbatim>\<open>crates/enrollment/src/store.rs\<close> and \<^verbatim>\<open>store/renewal.rs\<close>: one-time site tokens, the enrollment
  record of each site name, and what a renewal or a bootstrap seed does to it. The store is the
  in-process backend; its one lock is held for a whole operation, so an operation is a function on
  the state. The clock, fresh identifiers, the signer, saturating addition on times and the expiry read
  from an issued certificate are arguments. Times are nanoseconds.
\<close>

subsection \<open>Records\<close>

type_synonym uuid = "128 word"

type_synonym offset_date_time = int

text \<open>
  The functions of other crates the store calls: the sum of a time and a duration that stops at the
  ends of the calendar, and the expiry of a PEM certificate.
\<close>

record store_env =
  se_saturating_add :: "offset_date_time \<Rightarrow> int \<Rightarrow> offset_date_time"
  se_validity :: "string \<Rightarrow> offset_date_time option"

definition RECORD_SKEW :: int where
  "RECORD_SKEW = 10 * 60 * 1000000000"

record renewal =
  rn_site_name :: string
  rn_presented_key :: string
  rn_requested_key :: string
  rn_presented_not_before :: offset_date_time

record held =
  hd_id :: uuid
  hd_current_key :: string
  hd_previous_key :: "string option"
  hd_recorded_at :: offset_date_time
  hd_epoch_at :: offset_date_time
  hd_frozen :: bool
  hd_seed_generation :: "u64 option"

definition held_new :: "uuid \<Rightarrow> string \<Rightarrow> string option \<Rightarrow> offset_date_time \<Rightarrow> held" where
  "held_new i current_key previous_key now = \<lparr>hd_id = i, hd_current_key = current_key, hd_previous_key = previous_key,
     hd_recorded_at = now, hd_epoch_at = now, hd_frozen = False, hd_seed_generation = None\<rparr>"

datatype renew_action = Rotate | Resign

datatype refusal = UnknownSite | KeyReused | Forked | Frozen | Superseded | RecordBehind

definition decide :: "store_env \<Rightarrow> held option \<Rightarrow> renewal \<Rightarrow> refusal + renew_action" where
  "decide env record renewal = (case record of None \<Rightarrow> Inl UnknownSite | Some held \<Rightarrow>
     if hd_frozen held then Inl Frozen
     else
     let rolls_back = (rn_presented_key renewal = hd_current_key held \<and> hd_previous_key held = Some (rn_requested_key renewal))
     in if rn_requested_key renewal = rn_presented_key renewal \<or> rolls_back then Inl KeyReused
     else if rn_presented_key renewal = hd_current_key held then Inr Rotate
     else if hd_previous_key held = Some (rn_presented_key renewal) \<and> rn_requested_key renewal = hd_current_key held
     then Inr Resign
     else if se_saturating_add env (rn_presented_not_before renewal) RECORD_SKEW < hd_epoch_at held then Inl Superseded
     else if rn_presented_not_before renewal > se_saturating_add env (hd_recorded_at held) RECORD_SKEW then Inl RecordBehind
     else Inl Forked)"

record seed_record =
  sd_site_name :: string
  sd_key_sha256 :: string
  sd_generation :: u64
  sd_issued_at :: offset_date_time

datatype seeded =
    Registered
  | Reset (replaced_key: string)
  | Acknowledged
  | Unchanged
  | Older
  | NotReserved

definition seed_decision :: "(held \<times> bool) option \<Rightarrow> seed_record \<Rightarrow> seeded" where
  "seed_decision record seed = (case record of
     None \<Rightarrow> Registered
   | Some (held, reserved) \<Rightarrow>
       if \<not> reserved then NotReserved
       else if (case hd_seed_generation held of None \<Rightarrow> False | Some applied \<Rightarrow> applied > sd_generation seed) then Older
       else if hd_seed_generation held = Some (sd_generation seed) then Unchanged
       else if hd_current_key held = sd_key_sha256 seed \<or> hd_previous_key held = Some (sd_key_sha256 seed) then Acknowledged
       else Reset (hd_current_key held))"

subsection \<open>The store\<close>

datatype store_error =
    NotFound
  | NameTaken
  | TokenOutstanding
  | NameDeleted
  | EnrolledKeyReused
  | KeyMismatch
  | TokenInvalid
  | Refused refusal
  | Backend string

record new_site_token =
  nt_token_id :: "uuid option"
  nt_token_sha256 :: string
  nt_public_key_sha256 :: "string option"
  nt_site_name :: string
  nt_grid_network_ref :: string
  nt_issued_by :: string
  nt_expires_at :: offset_date_time
  nt_allow_deleted_name :: bool

record pin =
  pin_site_name :: string
  pin_public_key_sha256 :: "string option"

record issued =
  is_site_name :: string
  is_certificate :: string
  is_spiffe_id :: string
  is_public_key_sha256 :: string

record renewed =
  rd_id :: uuid
  rd_action :: renew_action
  rd_replaced_key :: string
  rd_issued :: issued

record token_row =
  tr_token_sha256 :: string
  tr_public_key_sha256 :: "string option"
  tr_site_name :: string
  tr_grid_network_ref :: string
  tr_issued_by :: string
  tr_expires_at :: offset_date_time
  tr_allow_deleted_name :: bool
  tr_redeemed_by :: "uuid option"

record memory_store =
  ms_tokens :: "(uuid, token_row) fmap"
  ms_by_digest :: "(string, uuid) fmap"
  ms_issued_names :: "(string, held \<times> bool) fmap"
  ms_not_after :: "(string, offset_date_time) fmap"
  ms_enrolled_keys :: "string fset"
  ms_deleted_names :: "string fset"
  ms_ca_fingerprint :: "string option"

record enrollment_record =
  er_held :: held
  er_reserved :: bool
  er_renewed_at :: "offset_date_time option"
  er_not_after :: "offset_date_time option"

definition store_default :: memory_store where
  "store_default = \<lparr>ms_tokens = fmempty, ms_by_digest = fmempty, ms_issued_names = fmempty, ms_not_after = fmempty,
     ms_enrolled_keys = {||}, ms_deleted_names = {||}, ms_ca_fingerprint = None\<rparr>"

definition forget :: "uuid \<Rightarrow> memory_store \<Rightarrow> memory_store" where
  "forget token_id inner = (case fmlookup (ms_tokens inner) token_id of
     None \<Rightarrow> inner
   | Some row \<Rightarrow> inner\<lparr>ms_tokens := fmdrop token_id (ms_tokens inner),
                      ms_by_digest := fmdrop (tr_token_sha256 row) (ms_by_digest inner)\<rparr>)"

text \<open>A token that has not been redeemed and has not expired.\<close>

definition live_row :: "offset_date_time \<Rightarrow> token_row \<Rightarrow> bool" where
  "live_row now row \<longleftrightarrow> tr_redeemed_by row = None \<and> tr_expires_at row > now"

definition same_token :: "token_row \<Rightarrow> new_site_token \<Rightarrow> bool" where
  "same_token existing token \<longleftrightarrow> tr_token_sha256 existing = nt_token_sha256 token \<and>
     tr_site_name existing = nt_site_name token \<and> tr_grid_network_ref existing = nt_grid_network_ref token \<and>
     tr_issued_by existing = nt_issued_by token \<and> tr_public_key_sha256 existing = nt_public_key_sha256 token \<and>
     tr_expires_at existing = nt_expires_at token \<and> tr_allow_deleted_name existing = nt_allow_deleted_name token"

definition minted_row :: "new_site_token \<Rightarrow> token_row" where
  "minted_row token = \<lparr>tr_token_sha256 = nt_token_sha256 token, tr_public_key_sha256 = nt_public_key_sha256 token,
     tr_site_name = nt_site_name token, tr_grid_network_ref = nt_grid_network_ref token, tr_issued_by = nt_issued_by token,
     tr_expires_at = nt_expires_at token, tr_allow_deleted_name = nt_allow_deleted_name token, tr_redeemed_by = None\<rparr>"

definition mint_site_token ::
  "offset_date_time \<Rightarrow> uuid \<Rightarrow> new_site_token \<Rightarrow> memory_store \<Rightarrow> (store_error + uuid) \<times> memory_store" where
  "mint_site_token now new_v4 token inner =
     (let token_id = (case nt_token_id token of None \<Rightarrow> new_v4 | Some i \<Rightarrow> i)
      in case fmlookup (ms_tokens inner) token_id of
           Some existing \<Rightarrow>
             (if same_token existing token then Inr token_id else Inl (Backend ''site token id is already in use''), inner)
         | None \<Rightarrow>
             if nt_site_name token |\<in>| fmdom (ms_issued_names inner) then (Inl NameTaken, inner)
             else if \<not> nt_allow_deleted_name token \<and> nt_site_name token |\<in>| ms_deleted_names inner
             then (Inl NameDeleted, inner)
             else if list_ex (\<lambda>row. tr_site_name row = nt_site_name token \<and> live_row now row) (fmvalues (ms_tokens inner))
             then (Inl TokenOutstanding, inner)
             else if nt_token_sha256 token |\<in>| fmdom (ms_by_digest inner)
             then (Inl (Backend ''site token digest is already in use''), inner)
             else (Inr token_id, inner\<lparr>
               ms_by_digest := fmupd (nt_token_sha256 token) token_id (ms_by_digest inner),
               ms_tokens := fmupd token_id (minted_row token) (ms_tokens inner)\<rparr>))"

definition revoke_site_token :: "uuid \<Rightarrow> memory_store \<Rightarrow> (store_error + unit) \<times> memory_store" where
  "revoke_site_token token_id inner =
     (let outstanding = (case fmlookup (ms_tokens inner) token_id of None \<Rightarrow> False | Some row \<Rightarrow> tr_redeemed_by row = None);
          inner = (if outstanding then forget token_id inner else inner)
      in (if outstanding then Inr () else Inl NotFound, inner))"

definition token_valid :: "offset_date_time \<Rightarrow> string \<Rightarrow> memory_store \<Rightarrow> bool" where
  "token_valid now token_sha256 inner = (case fmlookup (ms_by_digest inner) token_sha256 of
     None \<Rightarrow> False
   | Some i \<Rightarrow> (case fmlookup (ms_tokens inner) i of None \<Rightarrow> False | Some row \<Rightarrow> live_row now row))"

definition redeemed_enrollment :: "uuid \<Rightarrow> memory_store \<Rightarrow> store_error + uuid option" where
  "redeemed_enrollment token_id inner = (case fmlookup (ms_tokens inner) token_id of
     None \<Rightarrow> Inl NotFound | Some row \<Rightarrow> Inr (tr_redeemed_by row))"

text \<open>
  \<open>sign\<close> is the caller's signer and \<open>new_v4\<close> the fresh identifier.
\<close>

definition redeem_and_issue ::
  "store_env \<Rightarrow> offset_date_time \<Rightarrow> uuid \<Rightarrow> string \<Rightarrow> (pin \<Rightarrow> store_error + issued) \<Rightarrow>
   memory_store \<Rightarrow> (store_error + uuid \<times> issued) \<times> memory_store" where
  "redeem_and_issue env now new_v4 token_sha256 sign inner = (case fmlookup (ms_by_digest inner) token_sha256 of
     None \<Rightarrow> (Inl TokenInvalid, inner)
   | Some token_id \<Rightarrow> (case fmlookup (ms_tokens inner) token_id of
       None \<Rightarrow> (Inl TokenInvalid, inner)
     | Some row \<Rightarrow>
         if \<not> live_row now row then (Inl TokenInvalid, inner)
         else
         let pin = \<lparr>pin_site_name = tr_site_name row, pin_public_key_sha256 = tr_public_key_sha256 row\<rparr>;
             signed = (if pin_site_name pin |\<in>| fmdom (ms_issued_names inner) then Inl NameTaken
               else if \<not> tr_allow_deleted_name row \<and> pin_site_name pin |\<in>| ms_deleted_names inner then Inl NameDeleted
               else sign pin)
         in case signed of
              Inl lost \<Rightarrow> (Inl lost, if lost = NameDeleted then forget token_id inner else inner)
            | Inr issued \<Rightarrow>
                if is_public_key_sha256 issued |\<in>| ms_enrolled_keys inner then (Inl EnrolledKeyReused, inner)
                else
                let inner = inner\<lparr>ms_enrolled_keys := finsert (is_public_key_sha256 issued) (ms_enrolled_keys inner)\<rparr>;
                    inner = inner\<lparr>ms_tokens := fmupd token_id (row\<lparr>tr_redeemed_by := Some new_v4\<rparr>) (ms_tokens inner)\<rparr>;
                    held = held_new new_v4 (is_public_key_sha256 issued) None now;
                    inner = (case se_validity env (is_certificate issued) of None \<Rightarrow> inner
                      | Some until \<Rightarrow> inner\<lparr>ms_not_after := fmupd (pin_site_name pin) until (ms_not_after inner)\<rparr>);
                    inner = inner\<lparr>ms_issued_names := fmupd (pin_site_name pin) (held, False) (ms_issued_names inner)\<rparr>
                in (Inr (new_v4, issued), inner)))"

definition renew_and_issue ::
  "store_env \<Rightarrow> offset_date_time \<Rightarrow> renewal \<Rightarrow> store_error + issued \<Rightarrow> memory_store \<Rightarrow>
   (store_error + renewed) \<times> memory_store" where
  "renew_and_issue env now renewal sign inner = (case fmlookup (ms_issued_names inner) (rn_site_name renewal) of
     None \<Rightarrow> (Inl (Refused UnknownSite), inner)
   | Some (held, reserved) \<Rightarrow> (case decide env (Some held) renewal of
       Inl refusal \<Rightarrow> (Inl (Refused refusal),
         if refusal = Forked
         then inner\<lparr>ms_issued_names := fmupd (rn_site_name renewal) (held\<lparr>hd_frozen := True\<rparr>, reserved) (ms_issued_names inner)\<rparr>
         else inner)
     | Inr action \<Rightarrow>
         if action = Rotate \<and> rn_requested_key renewal |\<in>| ms_enrolled_keys inner then (Inl (Refused KeyReused), inner)
         else
         let replaced_key = hd_current_key held
         in case sign of
              Inl error \<Rightarrow> (Inl error, inner)
            | Inr issued \<Rightarrow>
                let inner = (if action = Rotate then inner\<lparr>
                      ms_enrolled_keys := finsert (rn_requested_key renewal) (ms_enrolled_keys inner),
                      ms_issued_names := fmupd (rn_site_name renewal)
                        (held\<lparr>hd_previous_key := Some (hd_current_key held), hd_current_key := rn_requested_key renewal,
                              hd_recorded_at := now\<rparr>, reserved) (ms_issued_names inner)\<rparr> else inner);
                    inner = (case se_validity env (is_certificate issued) of None \<Rightarrow> inner
                      | Some until \<Rightarrow> inner\<lparr>ms_not_after := fmupd (rn_site_name renewal) until (ms_not_after inner)\<rparr>)
                in (Inr \<lparr>rd_id = hd_id held, rd_action = action, rd_replaced_key = replaced_key, rd_issued = issued\<rparr>, inner)))"

definition seed_reserved :: "offset_date_time \<Rightarrow> uuid \<Rightarrow> seed_record \<Rightarrow> memory_store \<Rightarrow> seeded \<times> memory_store" where
  "seed_reserved now new_v4 seed inner =
     (let entry = fmlookup (ms_issued_names inner) (sd_site_name seed);
          seeded = seed_decision entry seed;
          i = (case entry of None \<Rightarrow> new_v4 | Some (held, _) \<Rightarrow> hd_id held);
          inner = (case (seeded, entry) of
              (Acknowledged, Some (held, reserved)) \<Rightarrow> inner\<lparr>ms_issued_names := fmupd (sd_site_name seed)
                (held\<lparr>hd_seed_generation := Some (sd_generation seed)\<rparr>, reserved) (ms_issued_names inner)\<rparr>
            | _ \<Rightarrow> inner);
          inner = (if (case seeded of Registered \<Rightarrow> True | Reset _ \<Rightarrow> True | _ \<Rightarrow> False) then
              let held = (held_new i (sd_key_sha256 seed) None now)\<lparr>
                    hd_seed_generation := Some (sd_generation seed), hd_epoch_at := sd_issued_at seed\<rparr>
              in inner\<lparr>ms_issued_names := fmupd (sd_site_name seed) (held, True) (ms_issued_names inner),
                       ms_not_after := fmdrop (sd_site_name seed) (ms_not_after inner),
                       ms_enrolled_keys := finsert (sd_key_sha256 seed) (ms_enrolled_keys inner)\<rparr>
            else inner)
      in (seeded, inner))"

definition enrollment :: "string \<Rightarrow> memory_store \<Rightarrow> enrollment_record option" where
  "enrollment site_name inner = map_option (\<lambda>(held, reserved). \<lparr>er_held = held, er_reserved = reserved,
     er_renewed_at = (if hd_recorded_at held > hd_epoch_at held then Some (hd_recorded_at held) else None),
     er_not_after = fmlookup (ms_not_after inner) site_name\<rparr>) (fmlookup (ms_issued_names inner) site_name)"

definition swap_recorded_ca :: "string option \<Rightarrow> string \<Rightarrow> memory_store \<Rightarrow> bool \<times> memory_store" where
  "swap_recorded_ca expected fingerprint inner =
     (let swapped = (ms_ca_fingerprint inner = expected)
      in (swapped, if swapped then inner\<lparr>ms_ca_fingerprint := Some fingerprint\<rparr> else inner))"

definition delete_enrollment :: "string \<Rightarrow> memory_store \<Rightarrow> (store_error + unit) \<times> memory_store" where
  "delete_enrollment site_name inner =
     (let removed = fmlookup (ms_issued_names inner) site_name;
          inner = inner\<lparr>ms_issued_names := fmdrop site_name (ms_issued_names inner),
                        ms_not_after := fmdrop site_name (ms_not_after inner)\<rparr>;
          inner = (if removed \<noteq> None then inner\<lparr>ms_deleted_names := finsert site_name (ms_deleted_names inner)\<rparr> else inner)
      in (if removed \<noteq> None then Inr () else Inl NotFound, inner))"

end
