(* ===== verification/EnrollmentSafety.thy ===== *)
theory EnrollmentSafety
  imports EnrollmentStore
begin

section \<open>The enrollment store: tokens, keys and forks\<close>

text \<open>
  Runs of the store, the contract an invariant of it fulfils (\<open>store_preserved\<close>) with its instances,
  and what follows for tokens, for certified keys and for a record whose key was stolen.
\<close>

subsection \<open>Runs\<close>

datatype store_op =
    Mint offset_date_time uuid new_site_token
  | Revoke uuid
  | Redeem offset_date_time uuid string "pin \<Rightarrow> store_error + issued"
  | Renew offset_date_time renewal "store_error + issued"
  | Seed offset_date_time uuid seed_record
  | SwapCa "string option" string
  | Delete string

fun apply_op :: "store_env \<Rightarrow> store_op \<Rightarrow> memory_store \<Rightarrow> memory_store" where
  "apply_op v (Mint now i token) s = snd (mint_site_token now i token s)"
| "apply_op v (Revoke i) s = snd (revoke_site_token i s)"
| "apply_op v (Redeem now i digest sign) s = snd (redeem_and_issue v now i digest sign s)"
| "apply_op v (Renew now r sign) s = snd (renew_and_issue v now r sign s)"
| "apply_op v (Seed now i seed) s = snd (seed_reserved now i seed s)"
| "apply_op v (SwapCa expected fingerprint) s = snd (swap_recorded_ca expected fingerprint s)"
| "apply_op v (Delete name) s = snd (delete_enrollment name s)"

abbreviation run :: "store_env \<Rightarrow> store_op list \<Rightarrow> memory_store \<Rightarrow> memory_store" where
  "run v ops s \<equiv> fold (apply_op v) ops s"

text \<open>The name and key an operation certifies on a token or a rotation.\<close>

fun certifies :: "store_env \<Rightarrow> store_op \<Rightarrow> memory_store \<Rightarrow> (string \<times> string) list" where
  "certifies v (Redeem now i digest sign) s = (case fst (redeem_and_issue v now i digest sign s) of
     Inl _ \<Rightarrow> []
   | Inr (_, issued) \<Rightarrow> (case fmlookup (ms_by_digest s) digest of None \<Rightarrow> [] | Some t \<Rightarrow>
       (case fmlookup (ms_tokens s) t of None \<Rightarrow> [] | Some row \<Rightarrow> [(tr_site_name row, is_public_key_sha256 issued)])))"
| "certifies v (Renew now r sign) s = (case fst (renew_and_issue v now r sign s) of
     Inl _ \<Rightarrow> [] | Inr done \<Rightarrow> if rd_action done = Rotate then [(rn_site_name r, rn_requested_key r)] else [])"
| "certifies v _ s = []"

primrec run_certified :: "store_env \<Rightarrow> store_op list \<Rightarrow> memory_store \<Rightarrow> (string \<times> string) list" where
  "run_certified v [] s = []"
| "run_certified v (op # ops) s = certifies v op s @ run_certified v ops (apply_op v op s)"

text \<open>What an invariant of the store fulfils: the operations \<open>ok\<close> allows keep it.\<close>

locale store_preserved =
  fixes v :: store_env and ok :: "store_op \<Rightarrow> bool" and P :: "memory_store \<Rightarrow> bool"
  assumes step: "P s \<Longrightarrow> ok op \<Longrightarrow> P (apply_op v op s)"
begin

lemma run: "P s \<Longrightarrow> list_all ok ops \<Longrightarrow> P (run v ops s)"
  by (induction ops arbitrary: s) (simp_all add: step)

end

subsection \<open>Tokens\<close>

lemma redeem_cases:
  obtains (refused) e where "redeem_and_issue v now i digest sign s = (Inl e, s)"
  | (forfeited) t row where "fmlookup (ms_by_digest s) digest = Some t" "fmlookup (ms_tokens s) t = Some row"
      "live_row now row" "redeem_and_issue v now i digest sign s = (Inl NameDeleted, forget t s)"
  | (issued) t row c where "fmlookup (ms_by_digest s) digest = Some t" "fmlookup (ms_tokens s) t = Some row"
      "live_row now row" "tr_site_name row |\<notin>| fmdom (ms_issued_names s)"
      "tr_allow_deleted_name row \<or> tr_site_name row |\<notin>| ms_deleted_names s"
      "is_public_key_sha256 c |\<notin>| ms_enrolled_keys s"
      "redeem_and_issue v now i digest sign s = (Inr (i, c), s\<lparr>
         ms_enrolled_keys := finsert (is_public_key_sha256 c) (ms_enrolled_keys s),
         ms_tokens := fmupd t (row\<lparr>tr_redeemed_by := Some i\<rparr>) (ms_tokens s),
         ms_not_after := (case se_validity v (is_certificate c) of None \<Rightarrow> ms_not_after s
           | Some until \<Rightarrow> fmupd (tr_site_name row) until (ms_not_after s)),
         ms_issued_names := fmupd (tr_site_name row) (held_new i (is_public_key_sha256 c) None now, False) (ms_issued_names s)\<rparr>)"
proof (cases "token_valid now digest s")
  case False
  then show thesis
    by (intro refused [of TokenInvalid]) (auto simp: redeem_and_issue_def token_valid_def split: option.splits)
next
  case True
  then obtain t row where row: "fmlookup (ms_by_digest s) digest = Some t" "fmlookup (ms_tokens s) t = Some row" "live_row now row"
    by (auto simp: token_valid_def split: option.splits)
  let ?pin = "\<lparr>pin_site_name = tr_site_name row, pin_public_key_sha256 = tr_public_key_sha256 row\<rparr>"
  define signed where "signed = (if tr_site_name row |\<in>| fmdom (ms_issued_names s) then Inl NameTaken
    else if \<not> tr_allow_deleted_name row \<and> tr_site_name row |\<in>| ms_deleted_names s then Inl NameDeleted else sign ?pin)"
  have redeem: "redeem_and_issue v now i digest sign s = (case signed of
      Inl lost \<Rightarrow> (Inl lost, if lost = NameDeleted then forget t s else s)
    | Inr c \<Rightarrow> if is_public_key_sha256 c |\<in>| ms_enrolled_keys s then (Inl EnrolledKeyReused, s)
        else (Inr (i, c), s\<lparr>
         ms_enrolled_keys := finsert (is_public_key_sha256 c) (ms_enrolled_keys s),
         ms_tokens := fmupd t (row\<lparr>tr_redeemed_by := Some i\<rparr>) (ms_tokens s),
         ms_not_after := (case se_validity v (is_certificate c) of None \<Rightarrow> ms_not_after s
           | Some until \<Rightarrow> fmupd (tr_site_name row) until (ms_not_after s)),
         ms_issued_names := fmupd (tr_site_name row) (held_new i (is_public_key_sha256 c) None now, False) (ms_issued_names s)\<rparr>))"
    unfolding redeem_and_issue_def signed_def Let_def by (simp add: row split: sum.split option.split)
  show thesis
  proof (cases signed)
    case (Inl lost)
    then have eq: "redeem_and_issue v now i digest sign s = (Inl lost, if lost = NameDeleted then forget t s else s)"
      by (simp add: redeem)
    show thesis
    proof (cases "lost = NameDeleted")
      case True
      with eq row show thesis by (intro forfeited) simp_all
    next
      case False
      with eq show thesis by (intro refused) simp
    qed
  next
    case (Inr c)
    show thesis
    proof (cases "is_public_key_sha256 c |\<in>| ms_enrolled_keys s")
      case True
      with Inr have "redeem_and_issue v now i digest sign s = (Inl EnrolledKeyReused, s)"
        by (simp add: redeem)
      then show thesis by (rule refused)
    next
      case False
      moreover have "tr_site_name row |\<notin>| fmdom (ms_issued_names s)"
        "tr_allow_deleted_name row \<or> tr_site_name row |\<notin>| ms_deleted_names s"
        using Inr by (auto simp: signed_def split: if_splits)
      ultimately show thesis
        using Inr row by (intro issued [of t row c]) (simp_all add: redeem)
    qed
  qed
qed

lemma renew_cases:
  obtains (refused) e where "renew_and_issue v now r sign s = (Inl e, s)" "e \<noteq> Refused Forked"
  | (forked) held reserved where "fmlookup (ms_issued_names s) (rn_site_name r) = Some (held, reserved)"
      "decide v (Some held) r = Inl Forked"
      "renew_and_issue v now r sign s = (Inl (Refused Forked), s\<lparr>ms_issued_names :=
         fmupd (rn_site_name r) (held\<lparr>hd_frozen := True\<rparr>, reserved) (ms_issued_names s)\<rparr>)"
  | (failed) e where "renew_and_issue v now r sign s = (Inl e, s)" "sign = Inl e"
  | (rotated) held reserved c where "fmlookup (ms_issued_names s) (rn_site_name r) = Some (held, reserved)"
      "decide v (Some held) r = Inr Rotate" "rn_requested_key r |\<notin>| ms_enrolled_keys s"
      "renew_and_issue v now r sign s =
        (Inr \<lparr>rd_id = hd_id held, rd_action = Rotate, rd_replaced_key = hd_current_key held, rd_issued = c\<rparr>, s\<lparr>
         ms_enrolled_keys := finsert (rn_requested_key r) (ms_enrolled_keys s),
         ms_issued_names := fmupd (rn_site_name r) (held\<lparr>hd_previous_key := Some (hd_current_key held),
           hd_current_key := rn_requested_key r, hd_recorded_at := now\<rparr>, reserved) (ms_issued_names s),
         ms_not_after := (case se_validity v (is_certificate c) of None \<Rightarrow> ms_not_after s
           | Some until \<Rightarrow> fmupd (rn_site_name r) until (ms_not_after s))\<rparr>)"
  | (resigned) held reserved c where "fmlookup (ms_issued_names s) (rn_site_name r) = Some (held, reserved)"
      "decide v (Some held) r = Inr Resign"
      "renew_and_issue v now r sign s =
        (Inr \<lparr>rd_id = hd_id held, rd_action = Resign, rd_replaced_key = hd_current_key held, rd_issued = c\<rparr>, s\<lparr>
         ms_not_after := (case se_validity v (is_certificate c) of None \<Rightarrow> ms_not_after s
           | Some until \<Rightarrow> fmupd (rn_site_name r) until (ms_not_after s))\<rparr>)"
proof (cases "fmlookup (ms_issued_names s) (rn_site_name r)")
  case None
  then show thesis by (intro refused [of "Refused UnknownSite"]) (simp_all add: renew_and_issue_def)
next
  case (Some entry)
  obtain held reserved where entry: "entry = (held, reserved)" by fastforce
  note eq = renew_and_issue_def Some entry
  show thesis
  proof (cases "decide v (Some held) r")
    case (Inl e)
    then show thesis
      by (cases "e = Forked")
        (auto intro: forked [of held reserved] refused [of "Refused e"] simp: eq)
  next
    case (Inr action)
    show thesis
    proof (cases sign)
      case (Inl e)
      with Inr show thesis
        by (cases "action = Rotate \<and> rn_requested_key r |\<in>| ms_enrolled_keys s")
          (auto intro: refused [of "Refused KeyReused"] failed [of e] simp: eq)
    next
      case sign: (Inr c)
      show thesis
      proof (cases action)
        case Rotate
        show thesis
        proof (cases "rn_requested_key r |\<in>| ms_enrolled_keys s")
          case True
          with Inr Rotate show thesis by (intro refused [of "Refused KeyReused"]) (simp_all add: eq)
        next
          case False
          with Inr Rotate sign show thesis
            by (intro rotated [of held reserved c]) (simp_all add: eq split: option.split)
        qed
      next
        case Resign
        with Inr sign show thesis
          by (intro resigned [of held reserved c]) (simp_all add: eq split: option.split)
      qed
    qed
  qed
qed

lemma seed_cases:
  obtains (kept) "snd (seed_reserved now i seed s) = s"
  | (acknowledged) held where "fmlookup (ms_issued_names s) (sd_site_name seed) = Some (held, True)"
      "sd_key_sha256 seed = hd_current_key held \<or> Some (sd_key_sha256 seed) = hd_previous_key held"
      "snd (seed_reserved now i seed s) = s\<lparr>ms_issued_names := fmupd (sd_site_name seed)
         (held\<lparr>hd_seed_generation := Some (sd_generation seed)\<rparr>, True) (ms_issued_names s)\<rparr>"
  | (begun) fresh where "case fmlookup (ms_issued_names s) (sd_site_name seed) of None \<Rightarrow> True
       | Some (held, reserved) \<Rightarrow> reserved \<and> sd_key_sha256 seed \<noteq> hd_current_key held \<and>
           Some (sd_key_sha256 seed) \<noteq> hd_previous_key held \<and>
           (case hd_seed_generation held of None \<Rightarrow> True | Some applied \<Rightarrow> applied < sd_generation seed)"
      "snd (seed_reserved now i seed s) = s\<lparr>ms_issued_names := fmupd (sd_site_name seed) (fresh, True) (ms_issued_names s),
         ms_not_after := fmdrop (sd_site_name seed) (ms_not_after s),
         ms_enrolled_keys := finsert (sd_key_sha256 seed) (ms_enrolled_keys s)\<rparr>"
proof (cases "seed_decision (fmlookup (ms_issued_names s) (sd_site_name seed)) seed")
  case Registered
  then show thesis
    by (intro begun) (auto simp: seed_reserved_def Let_def seed_decision_def split: option.splits if_splits)
next
  case (Reset k)
  then show thesis
    by (intro begun) (auto simp: seed_reserved_def Let_def seed_decision_def split: option.splits if_splits)
next
  case Acknowledged
  then obtain held where "fmlookup (ms_issued_names s) (sd_site_name seed) = Some (held, True)"
    "sd_key_sha256 seed = hd_current_key held \<or> Some (sd_key_sha256 seed) = hd_previous_key held"
    by (auto simp: seed_decision_def split: option.splits if_splits)
  with Acknowledged show thesis
    by (intro acknowledged) (simp_all add: seed_reserved_def Let_def)
qed (rule kept; auto simp: seed_reserved_def Let_def split: option.split)+

text \<open>The digest index and the rows agree.\<close>

definition index_ok :: "memory_store \<Rightarrow> bool" where
  "index_ok s \<longleftrightarrow>
     (\<forall>t row. fmlookup (ms_tokens s) t = Some row \<longrightarrow> fmlookup (ms_by_digest s) (tr_token_sha256 row) = Some t) \<and>
     (\<forall>d t. fmlookup (ms_by_digest s) d = Some t \<longrightarrow>
        (\<exists>row. fmlookup (ms_tokens s) t = Some row \<and> tr_token_sha256 row = d))"

text \<open>The token with digest \<open>d\<close> has been redeemed.\<close>

definition spent :: "string \<Rightarrow> memory_store \<Rightarrow> bool" where
  "spent d s \<longleftrightarrow> index_ok s \<and> (case fmlookup (ms_by_digest s) d of None \<Rightarrow> False
     | Some t \<Rightarrow> (case fmlookup (ms_tokens s) t of None \<Rightarrow> False | Some row \<Rightarrow> tr_redeemed_by row \<noteq> None))"

lemma index_forget:
  assumes "index_ok s"
  shows "index_ok (forget t s)"
proof (cases "fmlookup (ms_tokens s) t")
  case (Some row)
  then have row: "fmlookup (ms_by_digest s) (tr_token_sha256 row) = Some t"
    using assms by (simp add: index_ok_def)
  have "tr_token_sha256 row' \<noteq> tr_token_sha256 row \<and> fmlookup (ms_by_digest s) (tr_token_sha256 row') = Some t'"
    if "fmlookup (ms_tokens s) t' = Some row'" "t' \<noteq> t" for t' row'
  proof -
    have "fmlookup (ms_by_digest s) (tr_token_sha256 row') = Some t'"
      using assms that(1) by (simp add: index_ok_def)
    with row that(2) show ?thesis by auto
  qed
  moreover have "t' \<noteq> t \<and> (\<exists>row'. fmlookup (ms_tokens s) t' = Some row' \<and> tr_token_sha256 row' = d)"
    if d: "fmlookup (ms_by_digest s) d = Some t'" "d \<noteq> tr_token_sha256 row" for d t'
  proof -
    obtain row' where "fmlookup (ms_tokens s) t' = Some row'" "tr_token_sha256 row' = d"
      using assms d(1) unfolding index_ok_def by blast
    with Some d(2) show ?thesis by auto
  qed
  ultimately show ?thesis
    by (auto simp: index_ok_def forget_def Some)
qed (simp add: assms forget_def)

lemma token_frames [simp]:
  "ms_tokens (snd (renew_and_issue v now r sign s)) = ms_tokens s"
  "ms_by_digest (snd (renew_and_issue v now r sign s)) = ms_by_digest s"
  "ms_tokens (snd (seed_reserved now i seed s)) = ms_tokens s"
  "ms_by_digest (snd (seed_reserved now i seed s)) = ms_by_digest s"
  "ms_tokens (snd (swap_recorded_ca e f s)) = ms_tokens s"
  "ms_by_digest (snd (swap_recorded_ca e f s)) = ms_by_digest s"
  "ms_tokens (snd (delete_enrollment name s)) = ms_tokens s"
  "ms_by_digest (snd (delete_enrollment name s)) = ms_by_digest s"
proof -
  show "ms_tokens (snd (renew_and_issue v now r sign s)) = ms_tokens s"
    "ms_by_digest (snd (renew_and_issue v now r sign s)) = ms_by_digest s"
    by (cases rule: renew_cases [of v now r sign s]; simp)+
  show "ms_tokens (snd (seed_reserved now i seed s)) = ms_tokens s"
    "ms_by_digest (snd (seed_reserved now i seed s)) = ms_by_digest s"
    by (cases rule: seed_cases [of now i seed s]; simp)+
qed (simp_all add: swap_recorded_ca_def delete_enrollment_def Let_def)

lemma minted_row_simps [simp]:
  "tr_token_sha256 (minted_row token) = nt_token_sha256 token" "tr_redeemed_by (minted_row token) = None"
  by (simp_all add: minted_row_def)

lemma mint_cases:
  obtains (kept) "snd (mint_site_token now i token s) = s"
  | (minted) t row where "fmlookup (ms_tokens s) t = None" "tr_token_sha256 row |\<notin>| fmdom (ms_by_digest s)"
      "tr_redeemed_by row = None" "snd (mint_site_token now i token s) =
        s\<lparr>ms_by_digest := fmupd (tr_token_sha256 row) t (ms_by_digest s), ms_tokens := fmupd t row (ms_tokens s)\<rparr>"
proof (cases "snd (mint_site_token now i token s) = s")
  case False
  then show thesis
    by (intro minted [of "case nt_token_id token of None \<Rightarrow> i | Some i \<Rightarrow> i" "minted_row token"])
      (auto simp: mint_site_token_def Let_def split: option.splits if_splits)
qed (rule kept)

interpretation index: store_preserved v "\<lambda>_. True" index_ok for v
proof
  fix s op
  assume ok: "index_ok s"
  show "index_ok (apply_op v op s)"
  proof (cases op)
    case (Mint now i token)
    then show ?thesis
      by (cases rule: mint_cases [of now i token s]) (use ok in \<open>fastforce simp: index_ok_def split: if_splits\<close>)+
  next
    case (Revoke i)
    then show ?thesis using ok by (simp add: revoke_site_token_def Let_def index_forget)
  next
    case (Redeem now i digest sign)
    then show ?thesis
    proof (cases rule: redeem_cases [of v now i digest sign s])
      case (issued t row c)
      have "tr_token_sha256 row = d" if "fmlookup (ms_by_digest s) d = Some t" for d
        using ok that issued(2) unfolding index_ok_def by fastforce
      with ok Redeem issued show ?thesis by (auto simp: index_ok_def)
    qed (use ok Redeem in \<open>simp_all add: index_forget\<close>)
  qed (use ok in \<open>simp_all add: index_ok_def\<close>)
qed

lemma forget_spent:
  assumes "spent d s" "fmlookup (ms_tokens s) t = Some row" "tr_redeemed_by row = None"
  shows "spent d (forget t s)"
proof -
  from assms(1) obtain t' row' where held: "fmlookup (ms_by_digest s) d = Some t'" "fmlookup (ms_tokens s) t' = Some row'"
    "tr_redeemed_by row' \<noteq> None" and ok: "index_ok s"
    by (auto simp: spent_def split: option.splits)
  with assms(2,3) have "t' \<noteq> t" by auto
  moreover have "tr_token_sha256 row \<noteq> d"
    using ok assms(2) held(1) \<open>t' \<noteq> t\<close> unfolding index_ok_def by force
  ultimately show ?thesis
    using held index_forget [OF ok, of t] assms(2) by (simp add: spent_def forget_def)
qed

interpretation spent: store_preserved v "\<lambda>_. True" "spent d" for v d
proof
  fix s op
  assume ok: "spent d s"
  have wf: "index_ok (apply_op v op s)"
    using ok index.step by (simp add: spent_def)
  show "spent d (apply_op v op s)"
  proof (cases op)
    case (Mint now i token)
    then show ?thesis
    proof (cases rule: mint_cases [of now i token s])
      case (minted t row)
      with ok Mint wf show ?thesis by (auto simp: spent_def dest: fmdomI split: option.splits)
    qed (use ok Mint in simp)
  next
    case (Revoke i)
    then show ?thesis
      using ok forget_spent [OF ok, of i] by (auto simp: revoke_site_token_def Let_def split: option.splits)
  next
    case (Redeem now i digest sign)
    show ?thesis
    proof (cases rule: redeem_cases [of v now i digest sign s])
      case (forfeited t row)
      then show ?thesis using forget_spent [OF ok forfeited(2)] Redeem by (simp add: live_row_def)
    next
      case (issued t row c)
      with ok Redeem wf show ?thesis by (auto simp: spent_def live_row_def split: option.splits)
    qed (use ok Redeem in simp)
  qed (use ok wf in \<open>auto simp: spent_def split: option.splits\<close>)
qed

subsection \<open>Keys\<close>

lemma certified_fresh:
  assumes "(name, key) \<in> set (certifies v op s)"
  shows "key |\<notin>| ms_enrolled_keys s \<and> key |\<in>| ms_enrolled_keys (apply_op v op s)" "certifies v op s = [(name, key)]"
proof -
  have "key |\<notin>| ms_enrolled_keys s \<and> key |\<in>| ms_enrolled_keys (apply_op v op s) \<and> certifies v op s = [(name, key)]"
  proof (cases op)
    case (Redeem now i digest sign)
    with assms show ?thesis by (cases rule: redeem_cases [of v now i digest sign s]) auto
  next
    case (Renew now r sign)
    with assms show ?thesis by (cases rule: renew_cases [of v now r sign s]) auto
  qed (use assms in simp_all)
  then show "key |\<notin>| ms_enrolled_keys s \<and> key |\<in>| ms_enrolled_keys (apply_op v op s)" "certifies v op s = [(name, key)]"
    by blast+
qed

lemma forget_frame [simp]:
  "ms_enrolled_keys (forget t s) = ms_enrolled_keys s" "ms_issued_names (forget t s) = ms_issued_names s"
  by (simp_all add: forget_def split: option.split)

lemma enrolled_mono: "ms_enrolled_keys s |\<subseteq>| ms_enrolled_keys (apply_op v op s)"
proof (cases op)
  case (Mint now i token)
  then show ?thesis by (cases rule: mint_cases [of now i token s]) auto
next
  case (Redeem now i digest sign)
  then show ?thesis by (cases rule: redeem_cases [of v now i digest sign s]) auto
next
  case (Renew now r sign)
  then show ?thesis by (cases rule: renew_cases [of v now r sign s]) auto
next
  case (Seed now i seed)
  then show ?thesis by (cases rule: seed_cases [of now i seed s]) auto
qed (simp_all add: revoke_site_token_def swap_recorded_ca_def delete_enrollment_def Let_def)

text \<open>
  The record of \<open>name\<close> holds no key of \<open>old\<close>, and every key of \<open>old\<close> is enrolled, so that no later
  key of the record can be one of them.
\<close>

definition keys_after :: "string fset \<Rightarrow> string \<Rightarrow> memory_store \<Rightarrow> bool" where
  "keys_after old name s \<longleftrightarrow> old |\<subseteq>| ms_enrolled_keys s \<and>
     (\<forall>held reserved. fmlookup (ms_issued_names s) name = Some (held, reserved) \<longrightarrow>
        hd_current_key held |\<notin>| old \<and> (\<forall>k. hd_previous_key held = Some k \<longrightarrow> k |\<notin>| old))"

fun seeds_not :: "string \<Rightarrow> store_op \<Rightarrow> bool" where
  "seeds_not name (Seed _ _ seed) \<longleftrightarrow> sd_site_name seed \<noteq> name"
| "seeds_not name _ \<longleftrightarrow> True"

lemma mint_names [simp]: "ms_issued_names (snd (mint_site_token now i token s)) = ms_issued_names s"
  by (cases rule: mint_cases [of now i token s]) simp_all

interpretation after: store_preserved v "seeds_not name" "keys_after old name" for v name old
proof
  fix s op
  assume ok: "keys_after old name s" and allowed: "seeds_not name op"
  have old: "old |\<subseteq>| ms_enrolled_keys (apply_op v op s)"
    using ok enrolled_mono [of s v op] by (auto simp: keys_after_def)
  show "keys_after old name (apply_op v op s)"
  proof (cases op)
    case (Redeem now i digest sign)
    then show ?thesis
      by (cases rule: redeem_cases [of v now i digest sign s])
        (use ok old Redeem in \<open>auto simp: keys_after_def held_new_def split: if_splits\<close>)
  next
    case (Renew now r sign)
    then show ?thesis
      by (cases rule: renew_cases [of v now r sign s])
        (use ok old Renew in \<open>auto simp: keys_after_def split: if_splits\<close>)
  next
    case (Seed now i seed)
    with allowed show ?thesis
      by (cases rule: seed_cases [of now i seed s])
        (use ok old Seed in \<open>auto simp: keys_after_def split: if_splits\<close>)
  qed (use ok old in \<open>auto simp: keys_after_def revoke_site_token_def swap_recorded_ca_def delete_enrollment_def Let_def
      split: if_splits\<close>)
qed

subsection \<open>A frozen record\<close>

text \<open>Operations that do not recover a frozen record: no deletion, and only seeds of keys it holds.\<close>

fun no_recovery :: "string \<Rightarrow> held \<Rightarrow> store_op \<Rightarrow> bool" where
  "no_recovery name held (Delete n) \<longleftrightarrow> n \<noteq> name"
| "no_recovery name held (Seed _ _ seed) \<longleftrightarrow> sd_site_name seed = name \<longrightarrow>
     sd_key_sha256 seed = hd_current_key held \<or> Some (sd_key_sha256 seed) = hd_previous_key held"
| "no_recovery name held _ \<longleftrightarrow> True"

definition stays_frozen :: "string \<Rightarrow> held \<Rightarrow> memory_store \<Rightarrow> bool" where
  "stays_frozen name held s \<longleftrightarrow> (case fmlookup (ms_issued_names s) name of None \<Rightarrow> False
     | Some (held', reserved) \<Rightarrow> hd_frozen held' \<and> hd_current_key held' = hd_current_key held \<and>
         hd_previous_key held' = hd_previous_key held)"

lemma decide_frozen [simp]: "hd_frozen held \<Longrightarrow> decide v (Some held) r = Inl Frozen"
  by (simp add: decide_def)

interpretation frozen: store_preserved v "no_recovery name held" "stays_frozen name held" for v name held
proof
  fix s op
  assume ok: "stays_frozen name held s" and allowed: "no_recovery name held op"
  show "stays_frozen name held (apply_op v op s)"
  proof (cases op)
    case (Redeem now i digest sign)
    then show ?thesis
      by (cases rule: redeem_cases [of v now i digest sign s])
        (use ok Redeem in \<open>auto simp: stays_frozen_def fmdom_notD split: if_splits option.splits\<close>)
  next
    case (Renew now r sign)
    then show ?thesis
      by (cases rule: renew_cases [of v now r sign s])
        (use ok Renew in \<open>auto simp: stays_frozen_def split: if_splits option.splits\<close>)
  next
    case (Seed now i seed)
    with allowed show ?thesis
      by (cases rule: seed_cases [of now i seed s])
        (use ok Seed in \<open>auto simp: stays_frozen_def split: if_splits option.splits\<close>)
  qed (use ok allowed in \<open>auto simp: stays_frozen_def revoke_site_token_def swap_recorded_ca_def delete_enrollment_def Let_def
      split: if_splits option.splits\<close>)
qed

lemma decide_Rotate:
  "decide v (Some held) r = Inr Rotate \<Longrightarrow> \<not> hd_frozen held \<and> rn_presented_key r = hd_current_key held \<and>
    rn_requested_key r \<noteq> rn_presented_key r"
  by (auto simp: decide_def Let_def split: if_splits)

text \<open>Operations that leave the record of \<open>name\<close> alone.\<close>

fun leaves_alone :: "string \<Rightarrow> store_op \<Rightarrow> bool" where
  "leaves_alone name (Delete n) \<longleftrightarrow> n \<noteq> name"
| "leaves_alone name (Seed _ _ seed) \<longleftrightarrow> sd_site_name seed \<noteq> name"
| "leaves_alone name (Renew _ r _) \<longleftrightarrow> rn_site_name r \<noteq> name"
| "leaves_alone name _ \<longleftrightarrow> True"

abbreviation record_is :: "string \<Rightarrow> held \<times> bool \<Rightarrow> memory_store \<Rightarrow> bool" where
  "record_is name entry s \<equiv> fmlookup (ms_issued_names s) name = Some entry"

interpretation alone: store_preserved v "leaves_alone name" "record_is name entry" for v name entry
proof
  fix s op
  assume ok: "record_is name entry s" and allowed: "leaves_alone name op"
  show "record_is name entry (apply_op v op s)"
  proof (cases op)
    case (Redeem now i digest sign)
    then show ?thesis
      by (cases rule: redeem_cases [of v now i digest sign s]) (use ok Redeem in \<open>auto simp: fmdom_notD\<close>)
  next
    case (Renew now r sign)
    with allowed show ?thesis
      by (cases rule: renew_cases [of v now r sign s]) (use ok Renew in auto)
  next
    case (Seed now i seed)
    with allowed show ?thesis
      by (cases rule: seed_cases [of now i seed s]) (use ok Seed in auto)
  qed (use ok allowed in \<open>auto simp: revoke_site_token_def swap_recorded_ca_def delete_enrollment_def Let_def\<close>)
qed

subsection \<open>Properties\<close>

text \<open>
  C14. A site token is good for one certificate. Once a token of a store whose digest index is sound was
  redeemed, no sequence of operations, minting the same digest again included, makes a second
  redemption succeed at any time or with any signer: it is always refused as invalid. The index is
  sound in every state a fresh store reaches.
\<close>

theorem token_one_shot:
  assumes "redeem_and_issue v now i digest sign (run v before store_default) = (Inr result, s)"
  shows "redeem_and_issue v now' i' digest sign' (run v later s) = (Inl TokenInvalid, run v later s)"
proof -
  have "index_ok store_default" by (simp add: index_ok_def store_default_def)
  then have ok: "index_ok (run v before store_default)" by (rule index.run) (simp add: list_all_iff)
  have "spent digest s"
  proof (cases rule: redeem_cases [of v now i digest sign "run v before store_default"])
    case (issued t row c)
    have "index_ok s" using index.step [OF ok, of v "Redeem now i digest sign"] assms by simp
    with issued assms show ?thesis by (auto simp: spent_def)
  qed (use assms in auto)
  then have "spent digest (run v later s)" by (rule spent.run) (simp add: list_all_iff)
  then show ?thesis
    by (auto simp: spent_def redeem_and_issue_def live_row_def split: option.splits)
qed


text \<open>
  C4. A stolen key cannot be used unnoticed. After somebody renewed with a site's current key, and as
  long as nothing else touched its record, the next renewal the other holder of that key attempts with
  a key of its own, under a certificate of the same incarnation, is refused as a fork and freezes the
  record; from then on, until the record is deleted or seeded with a key it never held, every renewal
  for the site is refused.
\<close>

theorem theft_freezes_record:
  assumes "fmlookup (ms_issued_names s) name = Some (held, reserved)" "rn_site_name taken = name"
    and "renew_and_issue v now taken sign s = (Inr granted, s1)" "rd_action granted = Rotate"
    and "list_all (leaves_alone name) ops"
    and "rn_site_name own = name" "rn_presented_key own = rn_presented_key taken"
    and "rn_requested_key own \<noteq> rn_presented_key own" "rn_requested_key own \<noteq> rn_requested_key taken"
    and "hd_epoch_at held \<le> se_saturating_add v (rn_presented_not_before own) RECORD_SKEW"
    and "rn_presented_not_before own \<le> se_saturating_add v now RECORD_SKEW"
    and "list_all (no_recovery name (held\<lparr>hd_previous_key := Some (rn_presented_key taken),
       hd_current_key := rn_requested_key taken\<rparr>)) later"
    and "rn_site_name r = name"
  shows "\<exists>s2. renew_and_issue v now' own sign' (run v ops s1) = (Inl (Refused Forked), s2) \<and>
    renew_and_issue v now'' r sign'' (run v later s2) = (Inl (Refused Frozen), run v later s2)"
proof -
  let ?held = "held\<lparr>hd_previous_key := Some (hd_current_key held), hd_current_key := rn_requested_key taken, hd_recorded_at := now\<rparr>"
  have rot: "fmlookup (ms_issued_names s1) name = Some (?held, reserved)" "decide v (Some held) taken = Inr Rotate"
    by (cases rule: renew_cases [of v now taken sign s]; use assms(1-4) in auto)+
  note dec = decide_Rotate [OF rot(2)]
  have entry: "fmlookup (ms_issued_names (run v ops s1)) name = Some (?held, reserved)"
    using alone.run [OF rot(1) assms(5)] .
  have "decide v (Some ?held) own = Inl Forked"
    using dec assms(7-11) by (auto simp: decide_def Let_def)
  with entry assms(6) have renew: "renew_and_issue v now' own sign' (run v ops s1) =
      (Inl (Refused Forked), (run v ops s1)\<lparr>ms_issued_names := fmupd name (?held\<lparr>hd_frozen := True\<rparr>, reserved)
        (ms_issued_names (run v ops s1))\<rparr>)" (is "_ = (_, ?s2)")
    by (simp add: renew_and_issue_def)
  have "stays_frozen name (held\<lparr>hd_previous_key := Some (rn_presented_key taken),
       hd_current_key := rn_requested_key taken\<rparr>) ?s2"
    using dec by (simp add: stays_frozen_def)
  from frozen.run [OF this assms(12), of v]
  have "renew_and_issue v now'' r sign'' (run v later ?s2) = (Inl (Refused Frozen), run v later ?s2)"
    using assms(13) by (auto simp: stays_frozen_def renew_and_issue_def split: option.splits)
  with renew show ?thesis by blast
qed


subsection \<open>Examples\<close>

definition ex_token :: "string \<Rightarrow> new_site_token" where
  "ex_token digest = \<lparr>nt_token_id = None, nt_token_sha256 = digest, nt_public_key_sha256 = None, nt_site_name = ''west'',
     nt_grid_network_ref = ''grid'', nt_issued_by = ''admin'', nt_expires_at = 2000000000000, nt_allow_deleted_name = True\<rparr>"

definition ex_signer :: "string \<Rightarrow> pin \<Rightarrow> store_error + issued" where
  "ex_signer key pin = Inr \<lparr>is_site_name = pin_site_name pin, is_certificate = ''cert'', is_spiffe_id = ''spiffe'',
     is_public_key_sha256 = key\<rparr>"

definition ex_renewal :: "string \<Rightarrow> string \<Rightarrow> renewal" where
  "ex_renewal presented requested = \<lparr>rn_site_name = ''west'', rn_presented_key = presented, rn_requested_key = requested,
     rn_presented_not_before = 10\<rparr>"

definition ex_cert :: issued where
  "ex_cert = \<lparr>is_site_name = ''west'', is_certificate = ''cert'', is_spiffe_id = ''spiffe'', is_public_key_sha256 = ''k''\<rparr>"

definition ex_store_env :: store_env where
  "ex_store_env = \<lparr>se_saturating_add = (+), se_validity = (\<lambda>_. Some 1000)\<rparr>"

abbreviation ex_enrolled :: memory_store where
  "ex_enrolled \<equiv> run ex_store_env [Mint 5 1 (ex_token ''d''), Redeem 10 2 ''d'' (ex_signer ''k0'')] store_default"

theorem token_one_shot_witness:
  "fst (redeem_and_issue ex_store_env 11 3 ''d'' (ex_signer ''k1'') ex_enrolled) = Inl TokenInvalid"
proof -
  have "fst (redeem_and_issue ex_store_env 10 2 ''d'' (ex_signer ''k0'') (run ex_store_env [Mint 5 1 (ex_token ''d'')] store_default)) =
      Inr (2, \<lparr>is_site_name = ''west'', is_certificate = ''cert'', is_spiffe_id = ''spiffe'', is_public_key_sha256 = ''k0''\<rparr>)"
    by code_simp
  then have "redeem_and_issue ex_store_env 10 2 ''d'' (ex_signer ''k0'') (run ex_store_env [Mint 5 1 (ex_token ''d'')] store_default) =
      (Inr (2, \<lparr>is_site_name = ''west'', is_certificate = ''cert'', is_spiffe_id = ''spiffe'', is_public_key_sha256 = ''k0''\<rparr>), ex_enrolled)"
    by (simp add: prod_eq_iff)
  from token_one_shot [OF this, of 11 3 "ex_signer ''k1''" "[]"] show ?thesis by simp
qed

theorem theft_freezes_record_witness:
  "\<exists>s2. renew_and_issue ex_store_env 30 (ex_renewal ''k0'' ''k2'') (Inr ex_cert)
      (snd (renew_and_issue ex_store_env 20 (ex_renewal ''k0'' ''k1'') (Inr ex_cert) ex_enrolled)) = (Inl (Refused Forked), s2) \<and>
    renew_and_issue ex_store_env 40 (ex_renewal ''k1'' ''k3'') (Inr ex_cert) s2 = (Inl (Refused Frozen), s2)"
proof -
  have entry: "fmlookup (ms_issued_names ex_enrolled) ''west'' = Some (held_new 2 ''k0'' None 10, False)"
    "fst (renew_and_issue ex_store_env 20 (ex_renewal ''k0'' ''k1'') (Inr ex_cert) ex_enrolled) =
      Inr \<lparr>rd_id = 2, rd_action = Rotate, rd_replaced_key = ''k0'', rd_issued = ex_cert\<rparr>"
    by code_simp+
  have granted: "renew_and_issue ex_store_env 20 (ex_renewal ''k0'' ''k1'') (Inr ex_cert) ex_enrolled =
      (Inr \<lparr>rd_id = 2, rd_action = Rotate, rd_replaced_key = ''k0'', rd_issued = ex_cert\<rparr>,
       snd (renew_and_issue ex_store_env 20 (ex_renewal ''k0'' ''k1'') (Inr ex_cert) ex_enrolled))"
    using entry(2) by (metis prod.collapse)
  have times: "hd_epoch_at (held_new 2 ''k0'' None 10) \<le> se_saturating_add ex_store_env 10 RECORD_SKEW" "10 \<le> se_saturating_add ex_store_env 20 RECORD_SKEW"
    by code_simp+
  from theft_freezes_record [OF entry(1) _ granted, of "[]" "ex_renewal ''k0'' ''k2''" "[]" "ex_renewal ''k1'' ''k3''" 30 "Inr ex_cert" 40 "Inr ex_cert"]
  show ?thesis using times by (simp add: ex_renewal_def)
qed

abbreviation ex_recovery :: "store_op list" where
  "ex_recovery \<equiv> [Mint 40 3 (ex_token ''e''), Redeem 900000000000 4 ''e'' (ex_signer ''k9'')]"


end
