(* ===== verification/LeaderElection.thy ===== *)
theory LeaderElection
  imports Prelude
begin

section \<open>The operator's leader election\<close>

text \<open>
  \<^verbatim>\<open>crates/operator/src/leader.rs\<close>: the lease record, the elector with its attempt, its renewal loop
  and its release, and the Kubernetes lease they are written to. An asynchronous function is cut at
  its awaits: a replica is an elector with the place in the code where it waits, and every
  continuation is one definition. Instants and durations count nanoseconds; an instant is read on
  the clock of the replica, and each replica has a clock of its own.
\<close>

subsection \<open>The lease record\<close>

abbreviation secs :: "nat \<Rightarrow> nat" where
  "secs n \<equiv> n * 1000000000"

definition LEASE_DURATION :: nat where
  "LEASE_DURATION = secs 10"

definition RENEW_DEADLINE :: nat where
  "RENEW_DEADLINE = secs 8"

abbreviation i32_MAX :: int where
  "i32_MAX \<equiv> 2147483647"

record lease_record =
  lr_holder :: "string option"
  lr_duration :: nat
  lr_acquired :: "nat option"
  lr_renewed :: "nat option"
  lr_transitions :: int

datatype lease_error = Conflict | Unavailable string

text \<open>The specification of a \<^verbatim>\<open>coordination.k8s.io/v1\<close> lease, as far as the code reads it.\<close>

record lease_spec =
  ls_holder_identity :: "string option"
  ls_duration_seconds :: "int option"
  ls_acquire_time :: "nat option"
  ls_renew_time :: "nat option"
  ls_transitions :: "int option"

definition record_of :: "lease_spec \<Rightarrow> lease_record" where
  "record_of spec =
     \<lparr>lr_holder = (case ls_holder_identity spec of None \<Rightarrow> None | Some h \<Rightarrow> if h = [] then None else Some h),
      lr_duration = secs (case ls_duration_seconds spec of None \<Rightarrow> 0 | Some n \<Rightarrow> if n < 0 then 0 else nat n),
      lr_acquired = ls_acquire_time spec, lr_renewed = ls_renew_time spec,
      lr_transitions = (case ls_transitions spec of None \<Rightarrow> 0 | Some n \<Rightarrow> n)\<rparr>"

definition spec_of :: "lease_record \<Rightarrow> lease_spec" where
  "spec_of r =
     \<lparr>ls_holder_identity = lr_holder r, ls_duration_seconds = Some (min i32_MAX (int (lr_duration r div secs 1))),
      ls_acquire_time = lr_acquired r, ls_renew_time = lr_renewed r, ls_transitions = Some (lr_transitions r)\<rparr>"

subsection \<open>The elector\<close>

datatype holding = Unelected | Elected "nat option"

definition holding_last :: "holding \<Rightarrow> nat option" where
  "holding_last self = (case self of Unelected \<Rightarrow> None | Elected renewed \<Rightarrow> renewed)"

definition holding_set :: "nat option \<Rightarrow> holding \<Rightarrow> holding" where
  "holding_set at self = (case self of Unelected \<Rightarrow> Unelected | Elected _ \<Rightarrow> Elected at)"

definition holds :: "holding \<Rightarrow> nat \<Rightarrow> bool" where
  "holds self now = (if self = Unelected then True
     else case holding_last self of None \<Rightarrow> False | Some at \<Rightarrow> now < at + RENEW_DEADLINE)"

record elector =
  el_me :: string
  el_observed :: "(string \<times> nat) option"
  el_renewed_at :: holding

definition elector_new :: "string \<Rightarrow> elector" where
  "elector_new me = \<lparr>el_me = me, el_observed = None, el_renewed_at = Elected None\<rparr>"

definition takeable :: "lease_record \<Rightarrow> string \<Rightarrow> nat \<Rightarrow> bool" where
  "takeable r me unchanged_for =
     (case (case lr_holder r of None \<Rightarrow> None | Some h \<Rightarrow> if h = [] then None else Some h) of
        None \<Rightarrow> True
      | Some h \<Rightarrow> if h = me then True else unchanged_for \<ge> lr_duration r)"

text \<open>\<open>wall\<close> is the wall-clock time written into the record.\<close>

definition taken :: "nat \<Rightarrow> elector \<Rightarrow> lease_record option \<Rightarrow> lease_record" where
  "taken wall self current =
     (let mine = (case current of None \<Rightarrow> False | Some r \<Rightarrow> lr_holder r = Some (el_me self))
      in \<lparr>lr_holder = Some (el_me self), lr_duration = LEASE_DURATION,
          lr_acquired = (if mine then (case current of None \<Rightarrow> None | Some r \<Rightarrow> lr_acquired r) else Some wall),
          lr_renewed = Some wall,
          lr_transitions = (case current of None \<Rightarrow> 0
             | Some r \<Rightarrow> if mine then lr_transitions r else min i32_MAX (lr_transitions r + 1))\<rparr>)"

text \<open>
  The attempt, cut at its write: what it does with the lease it read at the instant \<open>now\<close>, either a
  refusal or the write it sends, and what it does with the answer to that write.
\<close>

datatype write_plan = Refuse | Write "string option" lease_record

definition attempt_read ::
  "nat \<Rightarrow> nat \<Rightarrow> (lease_record \<times> string) option \<Rightarrow> elector \<Rightarrow> write_plan \<times> elector" where
  "attempt_read now wall current self =
     (case current of
        None \<Rightarrow> (Write None (taken wall self None), self)
      | Some (r, version) \<Rightarrow>
          let self = (if (case el_observed self of None \<Rightarrow> True | Some (seen, _) \<Rightarrow> seen \<noteq> version)
                      then self\<lparr>el_observed := Some (version, now)\<rparr> else self);
              since = (case el_observed self of None \<Rightarrow> now | Some (_, at) \<Rightarrow> at)
          in if \<not> takeable r (el_me self) (now - since) then (Refuse, self)
             else (Write (Some version) (taken wall self (Some r)), self))"

definition attempt_written :: "nat \<Rightarrow> lease_error + string \<Rightarrow> elector \<Rightarrow> (lease_error + bool) \<times> elector" where
  "attempt_written now answer self =
     (case answer of
        Inr written \<Rightarrow> (Inr True, self\<lparr>el_observed := Some (written, now),
                                     el_renewed_at := holding_set (Some now) (el_renewed_at self)\<rparr>)
      | Inl error \<Rightarrow> (if error = Conflict then Inr False else Inl error, self))"

text \<open>An attempt against a store that answers at once.\<close>

definition attempt ::
  "nat \<Rightarrow> nat \<Rightarrow> lease_error + (lease_record \<times> string) option \<Rightarrow>
   (string option \<Rightarrow> lease_record \<Rightarrow> lease_error + string) \<Rightarrow> elector \<Rightarrow> (lease_error + bool) \<times> elector" where
  "attempt now wall got put self =
     (case got of
        Inl error \<Rightarrow> (Inl error, self)
      | Inr current \<Rightarrow>
          (case attempt_read now wall current self of
             (Refuse, self) \<Rightarrow> (Inr False, self)
           | (Write version next, self) \<Rightarrow> attempt_written now (put version next) self))"

subsection \<open>A replica\<close>

text \<open>
  Where a replica waits. An attempt is made to acquire the lease or to renew it before a deadline; a
  read or a write is outstanding until its answer is there, and the answer until the replica runs on.
  \<open>Write_Sent\<close> names the instant of the attempt and the number of the request.
\<close>

datatype purpose = Acquiring | Renewing nat

type_synonym lease_answer = "lease_error + (lease_record \<times> string) option"

datatype place =
    Contending
  | Read_Sent purpose
  | Read_Answered purpose lease_answer
  | Write_Sent purpose nat nat
  | Write_Answered purpose nat "lease_error + string"
  | Reread_Sent nat
  | Reread_Answered lease_answer
  | In_Tenure bool
  | Release_Read_Sent
  | Release_Read_Answered lease_answer
  | Release_Sent
  | Ended

record replica =
  rp_elector :: elector
  rp_place :: place

definition replica_new :: "string \<Rightarrow> replica" where
  "replica_new me = \<lparr>rp_elector = elector_new me, rp_place = Contending\<rparr>"

text \<open>One round of \<^verbatim>\<open>acquire_when\<close>: \<open>ready\<close> is what the gate answered.\<close>

definition contend :: "bool \<Rightarrow> replica \<Rightarrow> replica" where
  "contend ready self = (if ready then self\<lparr>rp_place := Read_Sent Acquiring\<rparr> else self)"

text \<open>The tenure is lost: \<^verbatim>\<open>hold_until\<close> returns and the caller ends what writes.\<close>

definition lose :: "replica \<Rightarrow> replica" where
  "lose self = self\<lparr>rp_elector := (rp_elector self)\<lparr>el_renewed_at := holding_set None (el_renewed_at (rp_elector self))\<rparr>,
                    rp_place := Ended\<rparr>"

text \<open>
  After an attempt: \<^verbatim>\<open>acquire_when\<close> returns or sleeps; \<^verbatim>\<open>renew\<close> landed, asks whether the lease still
  names the replica, or failed and is retried.
\<close>

definition after_attempt :: "purpose \<Rightarrow> lease_error + bool \<Rightarrow> replica \<Rightarrow> replica" where
  "after_attempt purpose result self = self\<lparr>rp_place :=
     (case purpose of
        Acquiring \<Rightarrow> (case result of Inr held \<Rightarrow> if held then In_Tenure False else Contending | Inl _ \<Rightarrow> Contending)
      | Renewing deadline \<Rightarrow>
          (case result of Inr held \<Rightarrow> if held then In_Tenure False else Reread_Sent deadline | Inl _ \<Rightarrow> In_Tenure True))\<rparr>"

text \<open>The replica runs on with the lease it read; \<open>number\<close> numbers the write it may send.\<close>

definition run_read ::
  "nat \<Rightarrow> nat \<Rightarrow> nat \<Rightarrow> purpose \<Rightarrow> lease_answer \<Rightarrow> replica \<Rightarrow> replica \<times> (string option \<times> lease_record) option" where
  "run_read now wall number purpose answer self =
     (case answer of
        Inl error \<Rightarrow> (after_attempt purpose (Inl error) self, None)
      | Inr current \<Rightarrow>
          (case attempt_read now wall current (rp_elector self) of
             (Refuse, e) \<Rightarrow> (after_attempt purpose (Inr False) (self\<lparr>rp_elector := e\<rparr>), None)
           | (Write version next, e) \<Rightarrow>
               (self\<lparr>rp_elector := e, rp_place := Write_Sent purpose now number\<rparr>, Some (version, next))))"

definition run_written :: "purpose \<Rightarrow> nat \<Rightarrow> lease_error + string \<Rightarrow> replica \<Rightarrow> replica" where
  "run_written purpose at answer self =
     (case attempt_written at answer (rp_elector self) of
        (result, e) \<Rightarrow> after_attempt purpose result (self\<lparr>rp_elector := e\<rparr>))"

text \<open>The sleep of \<^verbatim>\<open>hold_until\<close> ended: renew before the deadline, or the tenure is lost.\<close>

definition wake :: "nat \<Rightarrow> replica \<Rightarrow> replica" where
  "wake now self =
     (case holding_last (el_renewed_at (rp_elector self)) of
        None \<Rightarrow> self\<lparr>rp_place := Ended\<rparr>
      | Some at \<Rightarrow>
          let deadline = at + RENEW_DEADLINE
          in if deadline - now = 0 then lose self else self\<lparr>rp_place := Read_Sent (Renewing deadline)\<rparr>)"

text \<open>\<^verbatim>\<open>names_me\<close> and what \<^verbatim>\<open>renew\<close> does with it; a read that timed out names nobody.\<close>

definition names_me :: "lease_answer \<Rightarrow> elector \<Rightarrow> bool" where
  "names_me answer self =
     (case answer of Inr (Some (r, _)) \<Rightarrow> lr_holder r = Some (el_me self) | _ \<Rightarrow> False)"

definition run_reread :: "lease_answer \<Rightarrow> replica \<Rightarrow> replica" where
  "run_reread answer self =
     (if names_me answer (rp_elector self) then self\<lparr>rp_place := In_Tenure True\<rparr> else lose self)"

text \<open>The caller finished: \<^verbatim>\<open>release\<close>, cut at its read and its write.\<close>

definition release :: "replica \<Rightarrow> replica" where
  "release self = self\<lparr>rp_elector := (rp_elector self)\<lparr>el_renewed_at := holding_set None (el_renewed_at (rp_elector self))\<rparr>,
                       rp_place := Release_Read_Sent\<rparr>"

definition run_release_read :: "nat \<Rightarrow> lease_answer \<Rightarrow> replica \<Rightarrow> replica \<times> (string option \<times> lease_record) option" where
  "run_release_read wall answer self =
     (case answer of
        Inr (Some (r, version)) \<Rightarrow>
          if lr_holder r \<noteq> Some (el_me (rp_elector self)) then (self\<lparr>rp_place := Ended\<rparr>, None)
          else (self\<lparr>rp_place := Release_Sent\<rparr>, Some (Some version, r\<lparr>lr_holder := None, lr_renewed := Some wall\<rparr>))
      | _ \<Rightarrow> (self\<lparr>rp_place := Ended\<rparr>, None))"

subsection \<open>The lease in the cluster\<close>

text \<open>
  \<^verbatim>\<open>KubeLease\<close> over the Kubernetes API: a read returns the object with its resource version, a create
  succeeds when there is no object, a replace when the object still has the version sent. Every
  successful write gives the object a version that it never had before.
\<close>

type_synonym kube_lease = "(lease_spec \<times> string) option"

definition kube_get :: "kube_lease \<Rightarrow> (lease_record \<times> string) option" where
  "kube_get lease = map_option (\<lambda>(spec, version). (record_of spec, version)) lease"

definition put_applies :: "string option \<Rightarrow> kube_lease \<Rightarrow> bool" where
  "put_applies version lease \<longleftrightarrow> version = map_option snd lease"

definition kube_put ::
  "string \<Rightarrow> string option \<Rightarrow> lease_record \<Rightarrow> kube_lease \<Rightarrow> (lease_error + string) \<times> kube_lease" where
  "kube_put fresh version r lease =
     (if put_applies version lease then (Inr fresh, Some (spec_of r, fresh))
      else (Inl (if lease = None then Unavailable ''not found'' else Conflict), lease))"

subsection \<open>Replicas and the lease they contend for\<close>

text \<open>
  A system of replicas: the time, the lease with every version it had, the writes under way, the
  number of the next write, and the replicas by name. \<open>sy_written\<close> is the time of the last write to
  the lease; no definition above reads it.
\<close>

record put_request =
  pq_number :: nat
  pq_from :: string
  pq_version :: "string option"
  pq_record :: lease_record

record lease_system =
  sy_time :: nat
  sy_lease :: kube_lease
  sy_versions :: "string set"
  sy_written :: nat
  sy_puts :: "put_request set"
  sy_next :: nat
  sy_replicas :: "string \<Rightarrow> replica"

text \<open>
  What one replica does, \<open>now\<close> on its own clock: the store answers or fails a read with the lease of
  the moment, the replica runs on, a renewal or a release times out, the process ends or starts
  anew. The last argument is the write it sends.
\<close>

inductive replica_step ::
  "nat \<Rightarrow> kube_lease \<Rightarrow> nat \<Rightarrow> replica \<Rightarrow> replica \<Rightarrow> (string option \<times> lease_record) option \<Rightarrow> bool"
  for now lease number where
  rs_contend: "rp_place p = Contending \<Longrightarrow> replica_step now lease number p (contend ready p) None"
| rs_read: "rp_place p = Read_Sent purpose \<Longrightarrow> answer = Inr (kube_get lease) \<or> answer = Inl (Unavailable e) \<Longrightarrow>
    replica_step now lease number p (p\<lparr>rp_place := Read_Answered purpose answer\<rparr>) None"
| rs_run_read: "rp_place p = Read_Answered purpose answer \<Longrightarrow> run_read now wall number purpose answer p = (p', sent) \<Longrightarrow>
    replica_step now lease number p p' sent"
| rs_write_failed: "rp_place p = Write_Sent purpose at n \<Longrightarrow>
    replica_step now lease number p (p\<lparr>rp_place := Write_Answered purpose at (Inl (Unavailable e))\<rparr>) None"
| rs_run_written: "rp_place p = Write_Answered purpose at answer \<Longrightarrow>
    replica_step now lease number p (run_written purpose at answer p) None"
| rs_timeout: "rp_place p = Read_Sent (Renewing d) \<or> rp_place p = Read_Answered (Renewing d) answer \<or>
    rp_place p = Write_Sent (Renewing d) at n \<or> rp_place p = Write_Answered (Renewing d) at written \<Longrightarrow>
    replica_step now lease number p (p\<lparr>rp_place := In_Tenure True\<rparr>) None"
| rs_wake: "rp_place p = In_Tenure failing \<Longrightarrow> replica_step now lease number p (wake now p) None"
| rs_reread: "rp_place p = Reread_Sent d \<Longrightarrow> answer = Inr (kube_get lease) \<or> answer = Inl (Unavailable e) \<Longrightarrow>
    replica_step now lease number p (p\<lparr>rp_place := Reread_Answered answer\<rparr>) None"
| rs_run_reread: "rp_place p = Reread_Answered answer \<Longrightarrow>
    replica_step now lease number p (run_reread answer p) None"
| rs_release: "rp_place p = In_Tenure failing \<Longrightarrow> replica_step now lease number p (release p) None"
| rs_release_read: "rp_place p = Release_Read_Sent \<Longrightarrow> answer = Inr (kube_get lease) \<or> answer = Inl (Unavailable e) \<Longrightarrow>
    replica_step now lease number p (p\<lparr>rp_place := Release_Read_Answered answer\<rparr>) None"
| rs_run_release_read: "rp_place p = Release_Read_Answered answer \<Longrightarrow> run_release_read wall answer p = (p', sent) \<Longrightarrow>
    replica_step now lease number p p' sent"
| rs_end: "replica_step now lease number p (replica_new (el_me (rp_elector p))\<lparr>rp_place := Ended\<rparr>) None"
| rs_restart: "replica_step now lease number p (replica_new (el_me (rp_elector p))) None"

text \<open>
  A step of the system: time passes, a replica with a name runs, sending at most one write, or a
  write reaches the store, at any time after it was sent; whoever still waits for it is answered.
  \<open>skew name\<close> is how far the clock of a replica is ahead.
\<close>

definition deliver :: "nat \<Rightarrow> lease_error + string \<Rightarrow> replica \<Rightarrow> replica" where
  "deliver number answer p = (case rp_place p of
     Write_Sent purpose at n \<Rightarrow> if n = number then p\<lparr>rp_place := Write_Answered purpose at answer\<rparr> else p
   | _ \<Rightarrow> p)"

definition send_put :: "string \<Rightarrow> (string option \<times> lease_record) option \<Rightarrow> lease_system \<Rightarrow> lease_system" where
  "send_put name sent s = (case sent of None \<Rightarrow> s
     | Some (version, r) \<Rightarrow> s\<lparr>sy_puts := insert \<lparr>pq_number = sy_next s, pq_from = name, pq_version = version, pq_record = r\<rparr> (sy_puts s),
                             sy_next := sy_next s + 1\<rparr>)"

definition land_put :: "string \<Rightarrow> put_request \<Rightarrow> lease_system \<Rightarrow> lease_system" where
  "land_put fresh q s = (case kube_put fresh (pq_version q) (pq_record q) (sy_lease s) of (answer, lease) \<Rightarrow>
     s\<lparr>sy_lease := lease, sy_versions := (if put_applies (pq_version q) (sy_lease s) then insert fresh (sy_versions s) else sy_versions s),
       sy_written := (if put_applies (pq_version q) (sy_lease s) then sy_time s else sy_written s),
       sy_puts := sy_puts s - {q},
       sy_replicas := (sy_replicas s)(pq_from q := deliver (pq_number q) answer (sy_replicas s (pq_from q)))\<rparr>)"

inductive lease_step :: "(string \<Rightarrow> nat) \<Rightarrow> lease_system \<Rightarrow> lease_system \<Rightarrow> bool" for skew where
  step_time: "lease_step skew s (s\<lparr>sy_time := sy_time s + d\<rparr>)"
| step_replica: "name \<noteq> [] \<Longrightarrow>
    replica_step (sy_time s + skew name) (sy_lease s) (sy_next s) (sy_replicas s name) p sent \<Longrightarrow>
    lease_step skew s (send_put name sent (s\<lparr>sy_replicas := (sy_replicas s)(name := p)\<rparr>))"
| step_put: "q \<in> sy_puts s \<Longrightarrow> fresh \<notin> sy_versions s \<Longrightarrow> lease_step skew s (land_put fresh q s)"

abbreviation lease_steps :: "(string \<Rightarrow> nat) \<Rightarrow> lease_system \<Rightarrow> lease_system \<Rightarrow> bool" where
  "lease_steps skew \<equiv> (lease_step skew)\<^sup>*\<^sup>*"

text \<open>Any lease, written by anybody, and replicas that have just started.\<close>

definition lease_start :: "lease_system \<Rightarrow> bool" where
  "lease_start s \<longleftrightarrow> sy_written s \<le> sy_time s \<and> sy_puts s = {} \<and>
     set_option (map_option snd (sy_lease s)) \<subseteq> sy_versions s \<and> sy_replicas s = replica_new"

text \<open>Whether a replica may act as the leader now.\<close>

definition leads :: "(string \<Rightarrow> nat) \<Rightarrow> lease_system \<Rightarrow> string \<Rightarrow> bool" where
  "leads skew s name \<longleftrightarrow> holds (el_renewed_at (rp_elector (sy_replicas s name))) (sy_time s + skew name)"

subsection \<open>The invariant\<close>

text \<open>
  A replica claims the lease from the instant of an attempt whose write was confirmed to it, whether
  or not it has run on since. While a claim is active the lease names the replica, and was last
  written after the instant of the claim.
\<close>

definition claims :: "replica \<Rightarrow> nat \<Rightarrow> bool" where
  "claims p at \<longleftrightarrow> holding_last (el_renewed_at (rp_elector p)) = Some at \<or>
     (\<exists>purpose version. rp_place p = Write_Answered purpose at (Inr version))"

abbreviation active :: "(string \<Rightarrow> nat) \<Rightarrow> lease_system \<Rightarrow> string \<Rightarrow> nat \<Rightarrow> bool" where
  "active skew s name at \<equiv> sy_time s + skew name < at + RENEW_DEADLINE"

definition held_since :: "(string \<Rightarrow> nat) \<Rightarrow> lease_system \<Rightarrow> string \<Rightarrow> nat \<Rightarrow> bool" where
  "held_since skew s name at \<longleftrightarrow> name \<noteq> [] \<and> (\<exists>spec version. sy_lease s = Some (spec, version) \<and>
     ls_holder_identity spec = Some name \<and> ls_duration_seconds spec = Some 10 \<and> at \<le> sy_written s + skew name)"

text \<open>\<open>P\<close> holds of the lease as long as it has this version.\<close>

definition at_version :: "lease_system \<Rightarrow> string \<Rightarrow> (lease_spec \<Rightarrow> bool) \<Rightarrow> bool" where
  "at_version s version P \<longleftrightarrow> version \<in> sy_versions s \<and> (\<forall>spec. sy_lease s = Some (spec, version) \<longrightarrow> P spec)"

definition answer_ok :: "lease_system \<Rightarrow> lease_answer \<Rightarrow> bool" where
  "answer_ok s answer \<longleftrightarrow>
     (\<forall>r version. answer = Inr (Some (r, version)) \<longrightarrow> at_version s version (\<lambda>spec. record_of spec = r))"

definition place_ok :: "(string \<Rightarrow> nat) \<Rightarrow> lease_system \<Rightarrow> string \<Rightarrow> replica \<Rightarrow> bool" where
  "place_ok skew s name p \<longleftrightarrow>
     (case rp_place p of
        Read_Answered purpose answer \<Rightarrow> answer_ok s answer
      | Write_Sent purpose at n \<Rightarrow> at \<le> sy_time s + skew name \<and> n < sy_next s
      | Write_Answered purpose at (Inr version) \<Rightarrow>
          at \<le> sy_time s + skew name \<and> at_version s version (\<lambda>spec. ls_holder_identity spec = Some name)
      | Release_Read_Sent \<Rightarrow> holding_last (el_renewed_at (rp_elector p)) = None
      | Release_Read_Answered answer \<Rightarrow> answer_ok s answer \<and> holding_last (el_renewed_at (rp_elector p)) = None
      | _ \<Rightarrow> True)"

definition replica_ok :: "(string \<Rightarrow> nat) \<Rightarrow> lease_system \<Rightarrow> string \<Rightarrow> replica \<Rightarrow> bool" where
  "replica_ok skew s name p \<longleftrightarrow> el_me (rp_elector p) = name \<and> el_renewed_at (rp_elector p) \<noteq> Unelected \<and>
     (\<forall>at. claims p at \<longrightarrow> at \<le> sy_time s + skew name) \<and>
     (\<forall>at. claims p at \<and> active skew s name at \<longrightarrow> held_since skew s name at) \<and>
     (\<forall>version at. el_observed (rp_elector p) = Some (version, at) \<longrightarrow>
        at_version s version (\<lambda>spec. ls_holder_identity spec = Some name \<or> sy_written s + skew name \<le> at)) \<and>
     place_ok skew s name p"

text \<open>
  A write under way that would be applied now names whoever has an active claim, and one that a
  replica still waits for names that replica.
\<close>

definition put_ok :: "(string \<Rightarrow> nat) \<Rightarrow> lease_system \<Rightarrow> put_request \<Rightarrow> bool" where
  "put_ok skew s q \<longleftrightarrow> pq_number q < sy_next s \<and> set_option (pq_version q) \<subseteq> sy_versions s \<and>
     (lr_holder (pq_record q) = None \<or> lr_duration (pq_record q) = LEASE_DURATION) \<and>
     (\<forall>purpose at. rp_place (sy_replicas s (pq_from q)) = Write_Sent purpose at (pq_number q) \<longrightarrow>
        lr_holder (pq_record q) = Some (pq_from q) \<and> pq_from q \<noteq> []) \<and>
     (put_applies (pq_version q) (sy_lease s) \<longrightarrow>
        (\<forall>name at. claims (sy_replicas s name) at \<and> active skew s name at \<longrightarrow> lr_holder (pq_record q) = Some name))"

definition lease_inv :: "(string \<Rightarrow> nat) \<Rightarrow> lease_system \<Rightarrow> bool" where
  "lease_inv skew s \<longleftrightarrow> sy_written s \<le> sy_time s \<and> set_option (map_option snd (sy_lease s)) \<subseteq> sy_versions s \<and>
     (\<forall>name. replica_ok skew s name (sy_replicas s name)) \<and> (\<forall>q\<in>sy_puts s. put_ok skew s q)"

lemma holding_last_set [simp]: "h \<noteq> Unelected \<Longrightarrow> holding_last (holding_set at h) = at"
  "holding_set at h = Unelected \<longleftrightarrow> h = Unelected" "holding_last (Elected at) = at"
  by (simp_all add: holding_last_def holding_set_def split: holding.splits)

lemma record_of_spec_of:
  "lr_holder (record_of spec) = Some h \<longleftrightarrow> ls_holder_identity spec = Some h \<and> h \<noteq> []"
  "ls_duration_seconds spec = Some 10 \<Longrightarrow> lr_duration (record_of spec) = LEASE_DURATION"
  "ls_holder_identity (spec_of r) = lr_holder r"
  "lr_duration r = LEASE_DURATION \<Longrightarrow> ls_duration_seconds (spec_of r) = Some 10"
  by (auto simp: record_of_def spec_of_def LEASE_DURATION_def split: option.splits if_splits)

lemma taken_simps [simp]: "lr_holder (taken wall e current) = Some (el_me e)" "lr_duration (taken wall e current) = LEASE_DURATION"
  by (simp_all add: taken_def Let_def)

text \<open>The statements about the lease only read its versions, its value and the times.\<close>

lemma lease_frame [simp]:
  "at_version (s\<lparr>sy_replicas := f\<rparr>) version P = at_version s version P"
  "at_version (s\<lparr>sy_next := n\<rparr>) version P = at_version s version P"
  "at_version (s\<lparr>sy_puts := qs\<rparr>) version P = at_version s version P"
  "at_version (s\<lparr>sy_time := t\<rparr>) version P = at_version s version P"
  "answer_ok (s\<lparr>sy_replicas := f\<rparr>) answer = answer_ok s answer"
  "answer_ok (s\<lparr>sy_next := n\<rparr>) answer = answer_ok s answer"
  "answer_ok (s\<lparr>sy_puts := qs\<rparr>) answer = answer_ok s answer"
  "answer_ok (s\<lparr>sy_time := t\<rparr>) answer = answer_ok s answer"
  "held_since skew (s\<lparr>sy_replicas := f\<rparr>) name at = held_since skew s name at"
  "held_since skew (s\<lparr>sy_next := n\<rparr>) name at = held_since skew s name at"
  "held_since skew (s\<lparr>sy_puts := qs\<rparr>) name at = held_since skew s name at"
  "held_since skew (s\<lparr>sy_time := t\<rparr>) name at = held_since skew s name at"
  by (simp_all add: at_version_def answer_ok_def held_since_def)

lemma place_ok_frame:
  "place_ok skew s name p \<Longrightarrow> place_ok skew (s\<lparr>sy_replicas := f\<rparr>) name p"
  "place_ok skew s name p \<Longrightarrow> place_ok skew (s\<lparr>sy_puts := qs\<rparr>) name p"
  "place_ok skew s name p \<Longrightarrow> sy_next s \<le> n \<Longrightarrow> place_ok skew (s\<lparr>sy_next := n\<rparr>) name p"
  "place_ok skew s name p \<Longrightarrow> sy_time s \<le> t \<Longrightarrow> place_ok skew (s\<lparr>sy_time := t\<rparr>) name p"
  by (auto simp: place_ok_def split: place.splits sum.splits)

lemma replica_ok_frame:
  "replica_ok skew s name p \<Longrightarrow> replica_ok skew (s\<lparr>sy_replicas := f\<rparr>) name p"
  "replica_ok skew s name p \<Longrightarrow> replica_ok skew (s\<lparr>sy_puts := qs\<rparr>) name p"
  "replica_ok skew s name p \<Longrightarrow> sy_next s \<le> n \<Longrightarrow> replica_ok skew (s\<lparr>sy_next := n\<rparr>) name p"
  by (auto simp: replica_ok_def intro: place_ok_frame)

lemma replica_ok_time: "replica_ok skew s name p \<Longrightarrow> sy_time s \<le> t \<Longrightarrow> replica_ok skew (s\<lparr>sy_time := t\<rparr>) name p"
  by (fastforce simp: replica_ok_def intro: place_ok_frame)

lemma lease_inv_time: "lease_inv skew s \<Longrightarrow> lease_inv skew (s\<lparr>sy_time := sy_time s + d\<rparr>)"
  by (fastforce simp: lease_inv_def put_ok_def intro: replica_ok_time)

text \<open>A replica never gains a claim by itself, and leaves the reads and writes in order.\<close>

lemma attempt_read_frame:
  assumes "attempt_read now wall current e = (plan, e')"
  shows "el_me e' = el_me e" "el_renewed_at e' = el_renewed_at e"
    "plan = Write version r \<Longrightarrow> lr_holder r = Some (el_me e) \<and> lr_duration r = LEASE_DURATION \<and>
       version = map_option snd current"
  using assms by (auto simp: attempt_read_def Let_def split: option.splits prod.splits if_splits)

lemma replica_step_claims:
  assumes "replica_step now lease number p p' sent" "el_renewed_at (rp_elector p) \<noteq> Unelected" "claims p' at"
  shows "claims p at"
  using assms
proof (cases rule: replica_step.cases)
  case (rs_run_read purpose answer wall)
  with assms(3) show ?thesis
    by (auto simp: claims_def run_read_def after_attempt_def attempt_read_frame(2) split: sum.splits prod.splits write_plan.splits purpose.splits if_splits)
next
  case (rs_run_written purpose at answer)
  with assms(2,3) show ?thesis
    by (auto simp: claims_def run_written_def after_attempt_def attempt_written_def split: sum.splits prod.splits purpose.splits if_splits)
next
  case (rs_run_release_read answer wall)
  with assms(3) show ?thesis
    by (auto simp: claims_def run_release_read_def split: sum.splits prod.splits option.splits if_splits)
qed (auto simp: claims_def contend_def wake_def lose_def run_reread_def release_def replica_new_def elector_new_def
      Let_def split: if_splits option.splits)

text \<open>Places where no answer is outstanding: nothing is to be shown of them.\<close>

definition quiet :: "place \<Rightarrow> bool" where
  "quiet place = (case place of Contending \<Rightarrow> True | Read_Sent _ \<Rightarrow> True | Reread_Sent _ \<Rightarrow> True
     | Reread_Answered _ \<Rightarrow> True | In_Tenure _ \<Rightarrow> True | Release_Sent \<Rightarrow> True | Ended \<Rightarrow> True | _ \<Rightarrow> False)"

lemma quiet_place_ok: "quiet (rp_place p) \<Longrightarrow> place_ok skew s name p"
  by (simp add: quiet_def place_ok_def split: place.splits)

lemma after_attempt_simps [simp]:
  "rp_elector (after_attempt purpose result p) = rp_elector p" "quiet (rp_place (after_attempt purpose result p))"
  by (simp_all add: after_attempt_def quiet_def split: purpose.split sum.split)

text \<open>What a step of a replica has to keep besides its claims.\<close>

lemma replica_okI:
  assumes ok: "replica_ok skew s name p" and claims: "\<And>at. claims p' at \<Longrightarrow> claims p at"
    and me: "el_me (rp_elector p') = el_me (rp_elector p)" "el_renewed_at (rp_elector p') \<noteq> Unelected"
    and seen: "\<And>version at. el_observed (rp_elector p') = Some (version, at) \<Longrightarrow> el_observed (rp_elector p) \<noteq> Some (version, at) \<Longrightarrow>
      at_version s version (\<lambda>spec. ls_holder_identity spec = Some name \<or> sy_written s + skew name \<le> at)"
    and place: "place_ok skew s' name p'"
    and s': "s' = s\<lparr>sy_next := n\<rparr>"
  shows "replica_ok skew s' name p'"
proof -
  have "at_version s version (\<lambda>spec. ls_holder_identity spec = Some name \<or> sy_written s + skew name \<le> at)"
    if "el_observed (rp_elector p') = Some (version, at)" for version at
    using that ok seen [OF that] by (cases "el_observed (rp_elector p) = Some (version, at)") (auto simp: replica_ok_def)
  with ok claims me place show ?thesis
    unfolding s' replica_ok_def by auto
qed

lemma kube_get_ok: "set_option (map_option snd (sy_lease s)) \<subseteq> sy_versions s \<Longrightarrow> answer_ok s (Inr (kube_get (sy_lease s)))"
  by (auto simp: answer_ok_def kube_get_def at_version_def)

lemma attempt_read_observed:
  assumes "attempt_read now wall current e = (plan, e')" "el_observed e' = Some (version, at)" "el_observed e \<noteq> Some (version, at)"
  shows "at = now \<and> (\<exists>r. current = Some (r, version))"
  using assms by (auto simp: attempt_read_def Let_def split: option.splits prod.splits if_splits)

lemma replica_ok_step:
  assumes inv: "lease_inv skew s" and name: "name \<noteq> []"
    and step: "replica_step (sy_time s + skew name) (sy_lease s) (sy_next s) (sy_replicas s name) p sent"
    and n: "n = (if sent = None then sy_next s else sy_next s + 1)"
  shows "replica_ok skew (s\<lparr>sy_next := n\<rparr>) name p"
proof -
  let ?p = "sy_replicas s name" and ?s = "s\<lparr>sy_next := n\<rparr>"
  have ok: "replica_ok skew s name ?p" and time: "sy_written s \<le> sy_time s"
    and versions: "set_option (map_option snd (sy_lease s)) \<subseteq> sy_versions s"
    using inv by (auto simp: lease_inv_def)
  then have elected: "el_renewed_at (rp_elector ?p) \<noteq> Unelected" and me: "el_me (rp_elector ?p) = name"
    and place: "place_ok skew s name ?p"
    by (auto simp: replica_ok_def)
  note keep = replica_okI [OF ok replica_step_claims [OF step elected] _ _ _ _ refl]
  from kube_get_ok [OF versions] have answers: "answer_ok s answer"
    if "answer = Inr (kube_get (sy_lease s)) \<or> answer = Inl (Unavailable e)" for answer e
    using that by (auto simp: answer_ok_def)
  from step show ?thesis
  proof (cases rule: replica_step.cases)
    case (rs_contend ready)
    then show ?thesis
      by (intro keep) (auto simp: contend_def elected me quiet_place_ok quiet_def split: if_splits)
  next
    case (rs_read purpose answer e)
    then show ?thesis
      using answers by (intro keep) (auto simp: elected me place_ok_def)
  next
    case (rs_run_read purpose answer wall)
    then have "answer_ok s answer"
      using place by (simp add: place_ok_def)
    show ?thesis
    proof (cases answer)
      case (Inl e)
      with rs_run_read show ?thesis
        by (intro keep) (auto simp: run_read_def elected me quiet_place_ok)
    next
      case (Inr current)
      obtain plan e where attempt: "attempt_read (sy_time s + skew name) wall current (rp_elector ?p) = (plan, e)"
        by fastforce
      have e: "el_me e = name" "el_renewed_at e \<noteq> Unelected"
        using attempt_read_frame [OF attempt] elected me by auto
      have p: "rp_elector p = e" "quiet (rp_place p) \<or> rp_place p = Write_Sent purpose (sy_time s + skew name) (sy_next s) \<and> sent \<noteq> None"
        using rs_run_read(2) Inr attempt by (auto simp: run_read_def split: write_plan.splits)
      have "place_ok skew ?s name p"
        using p(2)
      proof
        assume "rp_place p = Write_Sent purpose (sy_time s + skew name) (sy_next s) \<and> sent \<noteq> None"
        then show ?thesis
          using n by (simp add: place_ok_def)
      qed (rule quiet_place_ok)
      moreover have "at_version s version (\<lambda>spec. ls_holder_identity spec = Some name \<or> sy_written s + skew name \<le> at)"
        if "el_observed e = Some (version, at)" "el_observed (rp_elector ?p) \<noteq> Some (version, at)" for version at
        using attempt_read_observed [OF attempt that] \<open>answer_ok s answer\<close> Inr time by (auto simp: answer_ok_def at_version_def)
      ultimately show ?thesis
        by (intro keep) (auto simp: p e me)
    qed
  next
    case (rs_write_failed purpose at k e)
    then show ?thesis
      by (intro keep) (auto simp: elected me place_ok_def)
  next
    case (rs_run_written purpose at answer)
    have "at_version s version (\<lambda>spec. ls_holder_identity spec = Some name)" if "answer = Inr version" for version
      using place rs_run_written that by (simp add: place_ok_def)
    then show ?thesis
      using rs_run_written elected me
      by (intro keep) (auto simp: run_written_def attempt_written_def quiet_place_ok at_version_def split: sum.splits)
  next
    case (rs_wake failing)
    then show ?thesis
      by (intro keep) (auto simp: wake_def lose_def Let_def elected me quiet_place_ok quiet_def split: option.splits if_splits)
  next
    case (rs_release_read answer e)
    then show ?thesis
      using answers place by (intro keep) (auto simp: elected me place_ok_def)
  next
    case (rs_run_release_read answer wall)
    then show ?thesis
      by (intro keep) (auto simp: run_release_read_def elected me quiet_place_ok quiet_def split: sum.splits option.splits prod.splits if_splits)
  qed (intro keep; auto simp: run_reread_def lose_def release_def replica_new_def elector_new_def
        elected me quiet_place_ok quiet_def place_ok_def split: if_splits)+
qed

lemma replica_step_waits:
  assumes "replica_step now lease number p p' sent" "rp_place p' = Write_Sent purpose at n"
  shows "n = number \<and> sent \<noteq> None \<and> (\<forall>version r. sent = Some (version, r) \<longrightarrow> lr_holder r = Some (el_me (rp_elector p)))"
  using assms
proof (cases rule: replica_step.cases)
  case (rs_run_read purpose answer wall)
  then show ?thesis
    using assms(2) attempt_read_frame(3)
    by (fastforce simp: run_read_def after_attempt_def split: sum.splits prod.splits write_plan.splits purpose.splits if_splits)
next
  case (rs_run_written purpose at answer)
  then show ?thesis
    using assms(2) by (auto simp: run_written_def after_attempt_def split: sum.splits prod.splits purpose.splits if_splits)
next
  case (rs_run_release_read answer wall)
  then show ?thesis
    using assms(2) by (auto simp: run_release_read_def split: sum.splits prod.splits option.splits if_splits)
qed (auto simp: contend_def wake_def lose_def run_reread_def release_def replica_new_def Let_def split: if_splits option.splits)

text \<open>
  The heart of the argument: by the time a replica may write over a lease that names another, the
  claim of that other has lapsed.
\<close>

lemma takeover_lapsed:
  assumes inv: "lease_inv skew s" and name: "name \<noteq> []"
    and answer: "answer_ok s (Inr current)"
    and attempt: "attempt_read (sy_time s + skew name) wall current (rp_elector (sy_replicas s name)) = (Write version r, e)"
    and applies: "put_applies version (sy_lease s)"
    and other: "claims (sy_replicas s other) at" "active skew s other at"
  shows "other = name"
proof (rule ccontr)
  assume "other \<noteq> name"
  let ?e = "rp_elector (sy_replicas s name)" and ?now = "sy_time s + skew name"
  have ok: "\<And>n. replica_ok skew s n (sy_replicas s n)"
    using inv by (simp add: lease_inv_def)
  with other have "held_since skew s other at"
    by (auto simp: replica_ok_def)
  then obtain spec v where lease: "sy_lease s = Some (spec, v)" and other_name: "other \<noteq> []"
    and spec: "ls_holder_identity spec = Some other" "ls_duration_seconds spec = Some 10" and at: "at \<le> sy_written s + skew other"
    by (auto simp: held_since_def)
  from applies lease attempt_read_frame(3) [OF attempt, of version r] obtain held where current: "current = Some (held, v)"
    by (cases current) (auto simp: put_applies_def)
  have held: "record_of spec = held"
    using answer current lease by (auto simp: answer_ok_def at_version_def)
  then have takeable: "takeable held (el_me ?e) d \<longleftrightarrow> LEASE_DURATION \<le> d" for d
    using spec other_name \<open>other \<noteq> name\<close> ok [of name] record_of_spec_of(1) [of spec other] record_of_spec_of(2) [of spec]
    by (auto simp: takeable_def replica_ok_def)
  have "el_observed ?e = Some (v, since) \<Longrightarrow> sy_written s + skew name \<le> since" for since
    using ok [of name] lease spec \<open>other \<noteq> name\<close> by (auto simp: replica_ok_def at_version_def)
  then have "sy_written s + LEASE_DURATION \<le> sy_time s"
    using attempt current takeable
    by (fastforce simp: attempt_read_def Let_def LEASE_DURATION_def split: option.splits if_splits prod.splits)
  with at other(2) show False
    by (simp add: LEASE_DURATION_def RENEW_DEADLINE_def)
qed

lemma put_ok_sent:
  assumes inv: "lease_inv skew s" and name: "name \<noteq> []"
    and step: "replica_step (sy_time s + skew name) (sy_lease s) (sy_next s) (sy_replicas s name) p (Some (version, r))"
  shows "set_option version \<subseteq> sy_versions s" "lr_holder r = None \<or> lr_duration r = LEASE_DURATION"
    "put_applies version (sy_lease s) \<Longrightarrow> claims (sy_replicas s other) at \<Longrightarrow> active skew s other at \<Longrightarrow> lr_holder r = Some other"
proof -
  let ?p = "sy_replicas s name"
  have ok: "\<And>n. replica_ok skew s n (sy_replicas s n)"
    using inv by (simp add: lease_inv_def)
  from ok [of name] have me: "el_me (rp_elector ?p) = name" and place: "place_ok skew s name ?p"
    by (auto simp: replica_ok_def)
  from step consider (take) purpose current wall e where "rp_place ?p = Read_Answered purpose (Inr current)"
      "attempt_read (sy_time s + skew name) wall current (rp_elector ?p) = (Write version r, e)"
    | (release) held v wall where "rp_place ?p = Release_Read_Answered (Inr (Some (held, v)))" "lr_holder held = Some name"
      "version = Some v" "r = held\<lparr>lr_holder := None, lr_renewed := Some wall\<rparr>"
    by cases (auto simp: run_read_def run_release_read_def me split: sum.splits prod.splits write_plan.splits option.splits if_splits)
  then have "set_option version \<subseteq> sy_versions s \<and> (lr_holder r = None \<or> lr_duration r = LEASE_DURATION) \<and>
    (put_applies version (sy_lease s) \<and> claims (sy_replicas s other) at \<and> active skew s other at \<longrightarrow> lr_holder r = Some other)"
  proof cases
    case take
    from take(1) place have answer: "answer_ok s (Inr current)"
      by (simp add: place_ok_def)
    with attempt_read_frame(3) [OF take(2) refl] me takeover_lapsed [OF inv name answer take(2), of other at] show ?thesis
      by (auto simp: answer_ok_def at_version_def)
  next
    case release
    from release(1) place have answer: "answer_ok s (Inr (Some (held, v)))" and none: "\<not> claims ?p at" for at
      by (auto simp: place_ok_def claims_def)
    have "held_since skew s other at" if "claims (sy_replicas s other) at" "active skew s other at"
      using ok [of other] that by (auto simp: replica_ok_def)
    with answer none release show ?thesis
      by (cases "other = name") (auto simp: answer_ok_def at_version_def held_since_def put_applies_def record_of_spec_of)
  qed
  then show "set_option version \<subseteq> sy_versions s" "lr_holder r = None \<or> lr_duration r = LEASE_DURATION"
    "put_applies version (sy_lease s) \<Longrightarrow> claims (sy_replicas s other) at \<Longrightarrow> active skew s other at \<Longrightarrow> lr_holder r = Some other"
    by auto
qed

lemma put_okI:
  assumes ok: "put_ok skew s q" and same: "sy_time s' = sy_time s" "sy_lease s' = sy_lease s" "sy_versions s' = sy_versions s"
    and "sy_next s \<le> sy_next s'"
    and claims: "\<And>k at. claims (sy_replicas s' k) at \<Longrightarrow> claims (sy_replicas s k) at"
    and waits: "\<And>purpose at. rp_place (sy_replicas s' (pq_from q)) = Write_Sent purpose at (pq_number q) \<Longrightarrow>
      lr_holder (pq_record q) = Some (pq_from q) \<and> pq_from q \<noteq> []"
  shows "put_ok skew s' q"
proof -
  have "lr_holder (pq_record q) = Some k" if "put_applies (pq_version q) (sy_lease s)" "claims (sy_replicas s' k) at" "active skew s k at" for k at
    using ok that claims [OF that(2)] unfolding put_ok_def by blast
  then show ?thesis
    using ok waits \<open>sy_next s \<le> sy_next s'\<close> unfolding put_ok_def same by auto
qed

text \<open>A step of a replica keeps the invariant.\<close>

lemma lease_inv_replica:
  assumes inv: "lease_inv skew s" and name: "name \<noteq> []"
    and step: "replica_step (sy_time s + skew name) (sy_lease s) (sy_next s) (sy_replicas s name) p sent"
  shows "lease_inv skew (send_put name sent (s\<lparr>sy_replicas := (sy_replicas s)(name := p)\<rparr>))"
proof -
  let ?f = "(sy_replicas s)(name := p)"
  let ?s = "send_put name sent (s\<lparr>sy_replicas := ?f\<rparr>)"
  define n where "n = (if sent = None then sy_next s else sy_next s + 1)"
  define new where "new = (case sent of None \<Rightarrow> {} | Some (version, r) \<Rightarrow>
    {\<lparr>pq_number = sy_next s, pq_from = name, pq_version = version, pq_record = r\<rparr>})"
  have s: "?s = s\<lparr>sy_replicas := ?f, sy_puts := new \<union> sy_puts s, sy_next := n\<rparr>"
    by (auto simp: send_put_def n_def new_def split: option.split prod.split)
  have ok: "\<And>k. replica_ok skew s k (sy_replicas s k)" and puts: "\<And>q. q \<in> sy_puts s \<Longrightarrow> put_ok skew s q"
    using inv by (auto simp: lease_inv_def)
  then have me: "el_me (rp_elector (sy_replicas s name)) = name"
    and elected: "el_renewed_at (rp_elector (sy_replicas s name)) \<noteq> Unelected"
    by (auto simp: replica_ok_def)
  have claims: "claims (?f k) at \<Longrightarrow> claims (sy_replicas s k) at" for k at
    using replica_step_claims [OF step elected] by (auto split: if_splits)
  have "replica_ok skew ?s k (?f k)" for k
  proof (cases "k = name")
    case True
    have eq: "?s = s\<lparr>sy_next := n\<rparr>\<lparr>sy_replicas := ?f\<rparr>\<lparr>sy_puts := new \<union> sy_puts s\<rparr>"
      unfolding s by simp
    from True show ?thesis
      unfolding eq using replica_ok_frame(2) [OF replica_ok_frame(1) [OF replica_ok_step [OF inv name step n_def]]] by simp
  next
    case False
    have "sy_next s \<le> n"
      by (simp add: n_def)
    with False ok [of k] show ?thesis
      unfolding s by (auto intro!: replica_ok_frame)
  qed
  moreover have "put_ok skew ?s q" if "q \<in> sy_puts s" for q
  proof -
    have "lr_holder (pq_record q) = Some (pq_from q) \<and> pq_from q \<noteq> []"
      if "rp_place (?f (pq_from q)) = Write_Sent purpose at (pq_number q)" for purpose at
      using that puts [OF \<open>q \<in> sy_puts s\<close>] replica_step_waits [OF step, of purpose at "pq_number q"]
      by (auto simp: put_ok_def split: if_splits)
    with claims show ?thesis
      unfolding s by (intro put_okI [OF puts [OF that]]) (simp_all add: n_def)
  qed
  moreover have "put_ok skew ?s q" if "q \<in> new" for q
  proof -
    obtain version r where sent: "sent = Some (version, r)"
      and q: "q = \<lparr>pq_number = sy_next s, pq_from = name, pq_version = version, pq_record = r\<rparr>"
      using \<open>q \<in> new\<close> by (auto simp: new_def split: option.splits)
    have "rp_place p = Write_Sent purpose at (sy_next s) \<Longrightarrow> lr_holder r = Some name" for purpose at
      using replica_step_waits [OF step, of purpose at "sy_next s"] sent me by auto
    moreover have "lr_holder r = Some k" if "put_applies version (sy_lease s)" "claims (?f k) at" "active skew s k at" for k at
      using put_ok_sent(3) [OF inv name step [unfolded sent] that(1) claims [OF that(2)] that(3)] .
    ultimately show ?thesis
      using put_ok_sent(1,2) [OF inv name step [unfolded sent]] name
      unfolding s put_ok_def q by (auto simp: n_def sent fun_upd_same simp del: fun_upd_apply)
  qed
  ultimately show ?thesis
    using inv unfolding lease_inv_def s by auto
qed

text \<open>So does a write that reaches the store.\<close>

lemma deliver_simps [simp]: "rp_elector (deliver number answer p) = rp_elector p"
  by (simp add: deliver_def split: place.split)

lemma deliver_claims:
  "claims (deliver number answer p) at \<Longrightarrow> claims p at \<or>
     (\<exists>purpose version. rp_place p = Write_Sent purpose at number \<and> answer = Inr version)"
  by (auto simp: deliver_def claims_def split: place.splits if_splits)

lemma deliver_waits: "rp_place (deliver number answer p) = Write_Sent purpose at n \<Longrightarrow> rp_place p = Write_Sent purpose at n"
  by (auto simp: deliver_def split: place.splits if_splits)

lemma lease_inv_conflict:
  assumes inv: "lease_inv skew s" and q: "q \<in> sy_puts s" and "\<not> put_applies (pq_version q) (sy_lease s)"
  shows "lease_inv skew (land_put fresh q s)"
proof -
  define f where "f = (sy_replicas s)(pq_from q := deliver (pq_number q)
    (Inl (if sy_lease s = None then Unavailable ''not found'' else Conflict)) (sy_replicas s (pq_from q)))"
  have s: "land_put fresh q s = s\<lparr>sy_puts := sy_puts s - {q}, sy_replicas := f\<rparr>"
    using assms(3) by (simp add: land_put_def kube_put_def f_def)
  have claims: "claims (f k) at \<Longrightarrow> claims (sy_replicas s k) at" for k at
    by (auto simp: f_def dest!: deliver_claims split: if_splits)
  have waits: "rp_place (f k) = Write_Sent purpose at n \<Longrightarrow> rp_place (sy_replicas s k) = Write_Sent purpose at n" for k purpose at n
    by (auto simp: f_def dest!: deliver_waits split: if_splits)
  have elector: "rp_elector (f k) = rp_elector (sy_replicas s k)" for k
    by (simp add: f_def)
  have place: "place_ok skew s k (sy_replicas s k) \<Longrightarrow> place_ok skew s k (f k)" for k
    by (auto simp: f_def place_ok_def deliver_def split: place.splits)
  have "replica_ok skew s k (f k)" for k
    using inv place [of k] claims [of k] by (auto simp: lease_inv_def replica_ok_def elector)
  moreover have "put_ok skew (s\<lparr>sy_puts := sy_puts s - {q}, sy_replicas := f\<rparr>) q'" if "q' \<in> sy_puts s" for q'
  proof -
    have "put_ok skew s q'"
      using inv that by (auto simp: lease_inv_def)
    then show ?thesis
      by (rule put_okI) (simp_all add: claims, use \<open>put_ok skew s q'\<close> waits in \<open>auto simp: put_ok_def\<close>)
  qed
  ultimately show ?thesis
    using inv unfolding s lease_inv_def by (auto intro!: replica_ok_frame)
qed

lemma lease_inv_applied:
  assumes inv: "lease_inv skew s" and q: "q \<in> sy_puts s" and applies: "put_applies (pq_version q) (sy_lease s)"
    and fresh: "fresh \<notin> sy_versions s"
  shows "lease_inv skew (land_put fresh q s)"
proof -
  let ?r = "pq_record q"
  define f where "f = (sy_replicas s)(pq_from q := deliver (pq_number q) (Inr fresh) (sy_replicas s (pq_from q)))"
  define s' where "s' = s\<lparr>sy_lease := Some (spec_of ?r, fresh), sy_versions := insert fresh (sy_versions s),
    sy_written := sy_time s, sy_puts := sy_puts s - {q}, sy_replicas := f\<rparr>"
  have s: "land_put fresh q s = s'"
    using applies by (simp add: land_put_def kube_put_def f_def s'_def)
  have ok: "\<And>k. replica_ok skew s k (sy_replicas s k)" and puts: "\<And>q. q \<in> sy_puts s \<Longrightarrow> put_ok skew s q"
    using inv by (auto simp: lease_inv_def)
  note put = puts [OF q]
  have at_version: "at_version s version P \<Longrightarrow> at_version s' version P'" for version P P'
    using fresh by (auto simp: at_version_def s'_def)
  have answer: "answer_ok s answer \<Longrightarrow> answer_ok s' answer" for answer
    using at_version by (auto simp: answer_ok_def)
  have elector: "rp_elector (f k) = rp_elector (sy_replicas s k)" for k
    by (simp add: f_def)
  have waits: "rp_place (f k) = Write_Sent purpose at n \<Longrightarrow> rp_place (sy_replicas s k) = Write_Sent purpose at n" for k purpose at n
    by (auto simp: f_def dest!: deliver_waits split: if_splits)
  have claims: "at \<le> sy_time s + skew k \<and> (active skew s k at \<longrightarrow> lr_holder ?r = Some k \<and> k \<noteq> [])" if "claims (f k) at" for k at
  proof (cases "claims (sy_replicas s k) at")
    case True
    with ok [of k] put applies show ?thesis
      by (auto simp: put_ok_def replica_ok_def held_since_def)
  next
    case False
    with that obtain purpose where "k = pq_from q" "rp_place (sy_replicas s k) = Write_Sent purpose at (pq_number q)"
      by (auto simp: f_def dest!: deliver_claims split: if_splits)
    with put ok [of k] show ?thesis
      by (auto simp: put_ok_def replica_ok_def place_ok_def)
  qed
  have "held_since skew s' k at" if "claims (f k) at" "active skew s k at" for k at
    using claims [OF that(1)] that(2) put record_of_spec_of(3,4) [of ?r] by (auto simp: held_since_def s'_def put_ok_def)
  moreover have "place_ok skew s' k (f k)" for k
  proof (cases "k = pq_from q \<and> (\<exists>purpose at. rp_place (sy_replicas s k) = Write_Sent purpose at (pq_number q))")
    case True
    then obtain purpose at where "k = pq_from q" "rp_place (sy_replicas s k) = Write_Sent purpose at (pq_number q)"
      by blast
    with ok [of k] put show ?thesis
      by (auto simp: f_def deliver_def place_ok_def at_version_def s'_def record_of_spec_of put_ok_def replica_ok_def)
  next
    case False
    then have "f k = sy_replicas s k"
      by (auto simp: f_def deliver_def split: place.splits)
    with ok [of k] answer at_version show ?thesis
      by (auto simp: replica_ok_def place_ok_def s'_def [symmetric] split: place.splits sum.splits) (simp_all add: s'_def)
  qed
  ultimately have "replica_ok skew s' k (f k)" for k
    using ok [of k] claims at_version unfolding replica_ok_def elector by (auto simp: s'_def)
  moreover have "put_ok skew s' q'" if "q' \<in> sy_puts s" for q'
    using puts [OF that] waits fresh unfolding put_ok_def by (auto simp: s'_def put_applies_def)
  ultimately show ?thesis
    using inv unfolding s lease_inv_def by (auto simp: s'_def)
qed

lemma lease_inv_step: "lease_step skew s s' \<Longrightarrow> lease_inv skew s \<Longrightarrow> lease_inv skew s'"
  by (cases rule: lease_step.cases, assumption)
    (auto intro: lease_inv_time lease_inv_replica, metis lease_inv_applied lease_inv_conflict)

lemma lease_inv_start: "lease_start s \<Longrightarrow> lease_inv skew s"
  by (auto simp: lease_start_def lease_inv_def replica_ok_def replica_new_def elector_new_def claims_def place_ok_def)

lemma lease_inv_reachable: "lease_steps skew s s' \<Longrightarrow> lease_start s \<Longrightarrow> lease_inv skew s'"
  by (induction rule: rtranclp_induct) (auto intro: lease_inv_start lease_inv_step)

lemma leads_held: "lease_inv skew s \<Longrightarrow> leads skew s name \<Longrightarrow> \<exists>at. held_since skew s name at"
proof -
  assume inv: "lease_inv skew s" and "leads skew s name"
  then have "el_renewed_at (rp_elector (sy_replicas s name)) \<noteq> Unelected"
    by (simp add: lease_inv_def replica_ok_def)
  with \<open>leads skew s name\<close> obtain at where "claims (sy_replicas s name) at" "active skew s name at"
    by (auto simp: leads_def holds_def claims_def split: option.splits)
  with inv have "held_since skew s name at"
    unfolding lease_inv_def replica_ok_def by blast
  then show ?thesis ..
qed

subsection \<open>Properties\<close>

text \<open>
  C5. At most one leader: whatever the replicas, the network and the store do, in whatever order, and
  however far the clocks of the replicas are apart, no two replicas may act as the holder of the lease
  at the same time. Replicas crash, restart and release; reads and writes fail, are late or time out
  and land nevertheless; the lease they start from may have been written by anybody.
\<close>

theorem at_most_one_leader:
  assumes "lease_start s0" "lease_steps skew s0 s" "leads skew s a" "leads skew s b"
  shows "a = b"
  using leads_held [OF lease_inv_reachable [OF assms(2,1)] assms(3)]
    leads_held [OF lease_inv_reachable [OF assms(2,1)] assms(4)]
  by (auto simp: held_since_def)

text \<open>
  C37. The lease of a holder that died is taken over: two attempts of a candidate that find the same
  lease, the second at least its duration after the first, and a store that accepts the write, make
  the candidate the holder at once, for as long as a renewal gives; the write names the candidate and
  counts one transition more.
\<close>

theorem dead_lease_taken_over:
  assumes first: "attempt t1 wall1 (Inr (Some (r, version))) put1 e0 = (Inr False, e1)"
    and seen: "\<forall>at. el_observed e0 = Some (version, at) \<longrightarrow> at \<le> t1" and elected: "el_renewed_at e0 \<noteq> Unelected"
    and late: "t1 + lr_duration r \<le> t2" and put: "\<And>next. put2 (Some version) next = Inr written"
  shows "\<exists>e2. attempt t2 wall2 (Inr (Some (r, version))) put2 e1 = (Inr True, e2) \<and>
      attempt_read t2 wall2 (Some (r, version)) e1 = (Write (Some version) (taken wall2 e1 (Some r)), e1) \<and>
      lr_holder (taken wall2 e1 (Some r)) = Some (el_me e0) \<and>
      (lr_holder r \<noteq> Some (el_me e0) \<longrightarrow> lr_transitions (taken wall2 e1 (Some r)) = min i32_MAX (lr_transitions r + 1)) \<and>
      (\<forall>now. holds (el_renewed_at e2) now \<longleftrightarrow> now < t2 + RENEW_DEADLINE)"
proof -
  obtain t where e1: "e1 = e0\<lparr>el_observed := Some (version, t)\<rparr>" and t: "t \<le> t1"
  proof (cases "\<exists>at. el_observed e0 = Some (version, at)")
    case True
    then obtain at where at: "el_observed e0 = Some (version, at)"
      by blast
    with first have "e1 = e0"
      by (auto simp: attempt_def attempt_read_def attempt_written_def Let_def split: if_splits sum.splits)
    with at seen show ?thesis
      by (intro that [of at]) simp_all
  next
    case False
    with first have "e1 = e0\<lparr>el_observed := Some (version, t1)\<rparr>"
      by (cases "el_observed e0")
        (auto simp: attempt_def attempt_read_def attempt_written_def Let_def split: if_splits sum.splits)
    then show ?thesis
      by (rule that) simp
  qed
  have take: "takeable r (el_me e0) (t2 - t)"
    using late t by (auto simp: takeable_def split: option.split)
  then have "attempt_read t2 wall2 (Some (r, version)) e1 = (Write (Some version) (taken wall2 e1 (Some r)), e1)"
    by (simp add: e1 attempt_read_def Let_def)
  then show ?thesis
    using elected by (auto simp: attempt_def attempt_written_def put e1 holds_def taken_def Let_def)
qed

subsection \<open>Witnesses\<close>

text \<open>The replica a acquires a new lease; the clock of the replica b is seven seconds ahead.\<close>

definition ex_skew :: "string \<Rightarrow> nat" where
  "ex_skew name = (if name = ''b'' then secs 7 else 0)"

definition ex_system :: "kube_lease \<Rightarrow> string set \<Rightarrow> put_request set \<Rightarrow> nat \<Rightarrow> replica \<Rightarrow> lease_system" where
  "ex_system lease versions puts n p = \<lparr>sy_time = 0, sy_lease = lease, sy_versions = versions, sy_written = 0,
     sy_puts = puts, sy_next = n, sy_replicas = replica_new(''a'' := p)\<rparr>"

abbreviation ex_place :: "place \<Rightarrow> replica" where
  "ex_place place \<equiv> (replica_new ''a'')\<lparr>rp_place := place\<rparr>"

definition ex_put :: put_request where
  "ex_put = \<lparr>pq_number = 0, pq_from = ''a'', pq_version = None, pq_record = taken 0 (elector_new ''a'') None\<rparr>"

definition ex_leader :: lease_system where
  "ex_leader = ex_system (Some (spec_of (pq_record ex_put), ''1'')) {''1''} {} 1
     (run_written Acquiring 0 (Inr ''1'') (ex_place (Write_Answered Acquiring 0 (Inr ''1''))))"

lemma ex_system_move:
  assumes "replica_step 0 lease n p p' sent"
  shows "lease_step ex_skew (ex_system lease versions puts n p) (send_put ''a'' sent (ex_system lease versions puts n p'))"
proof -
  have "(ex_system lease versions puts n p)\<lparr>sy_replicas := (sy_replicas (ex_system lease versions puts n p))(''a'' := p')\<rparr> =
      ex_system lease versions puts n p'"
    by (simp add: ex_system_def)
  with step_replica [of "''a''" "ex_system lease versions puts n p" ex_skew p' sent] assms show ?thesis
    by (simp add: ex_system_def ex_skew_def)
qed

lemma ex_leader_steps: "lease_steps ex_skew (ex_system None {} {} 0 (replica_new ''a'')) ex_leader"
proof -
  note moves = ex_system_move [of _ _ _ _ None "{}" "{}", unfolded send_put_def option.case]
  let ?lease = "Some (spec_of (pq_record ex_put), ''1'')" and ?answered = "ex_place (Write_Answered Acquiring 0 (Inr ''1''))"
  have "replica_step 0 None 0 (replica_new ''a'') (ex_place (Read_Sent Acquiring)) None"
    using rs_contend [of "replica_new ''a''" 0 None 0 True] by (simp add: replica_new_def contend_def)
  note contend = moves [OF this]
  have "replica_step 0 None 0 (ex_place (Read_Sent Acquiring)) (ex_place (Read_Answered Acquiring (Inr None))) None"
    using rs_read [of "ex_place (Read_Sent Acquiring)" Acquiring "Inr None" None] by (simp add: replica_new_def kube_get_def)
  note read = moves [OF this]
  have "replica_step 0 None 0 (ex_place (Read_Answered Acquiring (Inr None))) (ex_place (Write_Sent Acquiring 0 0))
      (Some (None, pq_record ex_put))"
    by (rule rs_run_read [where wall = 0 and purpose = Acquiring and answer = "Inr None"]) (simp_all add: replica_new_def run_read_def attempt_read_def ex_put_def)
  from ex_system_move [OF this, of "{}" "{}"]
  have send: "lease_step ex_skew (ex_system None {} {} 0 (ex_place (Read_Answered Acquiring (Inr None))))
      (ex_system None {} {ex_put} 1 (ex_place (Write_Sent Acquiring 0 0)))"
    by (simp add: send_put_def ex_system_def ex_put_def)
  have put: "lease_step ex_skew (ex_system None {} {ex_put} 1 (ex_place (Write_Sent Acquiring 0 0)))
      (ex_system ?lease {''1''} {} 1 ?answered)"
    using step_put [of ex_put "ex_system None {} {ex_put} 1 (ex_place (Write_Sent Acquiring 0 0))" "''1''" ex_skew]
    by (simp add: land_put_def kube_put_def put_applies_def deliver_def ex_system_def ex_put_def)
  have "replica_step 0 ?lease 1 ?answered (run_written Acquiring 0 (Inr ''1'') ?answered) None"
    by (rule rs_run_written) simp
  from ex_system_move [OF this, of "{''1''}" "{}"]
  have "lease_step ex_skew (ex_system ?lease {''1''} {} 1 ?answered) ex_leader"
    by (simp add: ex_leader_def send_put_def)
  with contend read send put show ?thesis
    by (meson converse_rtranclp_into_rtranclp rtranclp.rtrancl_refl)
qed

lemma ex_leader_leads: "leads ex_skew ex_leader ''a''"
  by (simp add: leads_def ex_leader_def ex_system_def run_written_def attempt_written_def replica_new_def
      elector_new_def holds_def holding_set_def holding_last_def RENEW_DEADLINE_def ex_skew_def)

theorem at_most_one_leader_witness: "leads ex_skew ex_leader ''a'' \<and> \<not> leads ex_skew ex_leader ''b''"
proof -
  have "lease_start (ex_system None {} {} 0 (replica_new ''a''))"
    by (simp add: lease_start_def ex_system_def)
  from at_most_one_leader [OF this ex_leader_steps ex_leader_leads, of "''b''"] ex_leader_leads show ?thesis
    by auto
qed

definition ex_dead :: lease_record where
  "ex_dead = \<lparr>lr_holder = Some ''a'', lr_duration = LEASE_DURATION, lr_acquired = Some 1, lr_renewed = Some 2, lr_transitions = 3\<rparr>"

theorem dead_lease_taken_over_witness:
  "attempt (secs 5) 0 (Inr (Some (ex_dead, ''7''))) (\<lambda>_ _. Inl Conflict) (elector_new ''b'') =
     (Inr False, (elector_new ''b'')\<lparr>el_observed := Some (''7'', secs 5)\<rparr>) \<and>
   (\<exists>e. attempt (secs 15) 0 (Inr (Some (ex_dead, ''7''))) (\<lambda>_ _. Inr ''8'') ((elector_new ''b'')\<lparr>el_observed := Some (''7'', secs 5)\<rparr>) =
     (Inr True, e) \<and> holds (el_renewed_at e) (secs 22))"
proof -
  let ?e = "(elector_new ''b'')\<lparr>el_observed := Some (''7'', secs 5)\<rparr>"
  have first: "attempt (secs 5) 0 (Inr (Some (ex_dead, ''7''))) (\<lambda>_ _. Inl Conflict) (elector_new ''b'') = (Inr False, ?e)"
    by (simp add: attempt_def attempt_read_def takeable_def elector_new_def ex_dead_def LEASE_DURATION_def)
  from dead_lease_taken_over [OF first, of "secs 15" "\<lambda>_ _. Inr ''8''" "''8''" 0] first show ?thesis
    by (auto simp: elector_new_def ex_dead_def LEASE_DURATION_def RENEW_DEADLINE_def)
qed

end
