(* ===== verification/RevisionLease.thy ===== *)
theory RevisionLease
  imports StateBroadcast
begin

section \<open>Revisions and generations reserved durably\<close>

text \<open>
  The reservation of revision ranges and node generations in a \<^verbatim>\<open>ConfigMap\<close>
  (\<^verbatim>\<open>crates/operator/src/main.rs\<close>) and the allocator that hands revisions out
  (\<^verbatim>\<open>RevisionClock\<close> of \<^verbatim>\<open>swim_runtime.rs\<close>). The clock is an argument, in nanoseconds since the
  epoch, and so is what the Kubernetes API does during an attempt.
\<close>

subsection \<open>Decimal numbers\<close>

text \<open>\<^verbatim>\<open>u64::to_string\<close> and \<^verbatim>\<open>str::parse::<u64>\<close>, which accepts a leading plus sign.\<close>

definition digit_char :: "nat \<Rightarrow> char" where
  "digit_char d = char_of (48 + d)"

definition is_digit :: "char \<Rightarrow> bool" where
  "is_digit c \<longleftrightarrow> 48 \<le> (of_char c :: nat) \<and> (of_char c :: nat) \<le> 57"

definition digit_value :: "char \<Rightarrow> nat" where
  "digit_value c = of_char c - 48"

fun decimal :: "nat \<Rightarrow> string" where
  "decimal n = (if n < 10 then [digit_char n] else decimal (n div 10) @ [digit_char (n mod 10)])"

declare decimal.simps [simp del]

definition u64_to_string :: "u64 \<Rightarrow> string" where
  "u64_to_string n = decimal (unat n)"

definition digits_value :: "string \<Rightarrow> nat" where
  "digits_value s = foldl (\<lambda>n c. 10 * n + digit_value c) 0 s"

definition parse_u64 :: "string \<Rightarrow> u64 option" where
  "parse_u64 s =
     (let digits = (case s of [] \<Rightarrow> [] | c # cs \<Rightarrow> if c = CHR ''+'' then cs else s)
      in if digits = [] \<or> \<not> list_all is_digit digits \<or> digits_value digits \<ge> 2 ^ 64 then None
         else Some (word_of_nat (digits_value digits)))"

subsection \<open>Planning a lease\<close>

record revision_lease =
  rl_first_revision :: u64
  rl_last_revision :: u64
  rl_first_node_generation :: u64
  rl_last_node_generation :: u64

datatype reserve_error =
    ClockBeforeEpoch | ClockTooLarge | GenerationExhausted | GenerationRangeExhausted | RevisionRangeExhausted
  | NoData | NoRevisionMark | ReadFailed string | WriteFailed string | TooManyConflicts

definition REVISION_LEASE_SIZE :: u64 where
  "REVISION_LEASE_SIZE = REVISION_LEASE_SPAN"

definition NODE_GENERATION_LEASE_SIZE :: u64 where
  "NODE_GENERATION_LEASE_SIZE = 1048576"

definition REVISION_RESERVATION_ATTEMPTS :: nat where
  "REVISION_RESERVATION_ATTEMPTS = 8"

definition REVISION_HIGH_KEY :: string where
  "REVISION_HIGH_KEY = ''revisionHighWatermark''"

definition NODE_GENERATION_HIGH_KEY :: string where
  "NODE_GENERATION_HIGH_KEY = ''nodeGenerationHighWatermark''"

definition unix_millis :: "int \<Rightarrow> reserve_error + u64" where
  "unix_millis now = (if now < 0 then Inl ClockBeforeEpoch
     else if now div 1000000 < 2 ^ 64 then Inr (word_of_int (now div 1000000)) else Inl ClockTooLarge)"

definition unix_nanos :: "int \<Rightarrow> reserve_error + u64" where
  "unix_nanos now = (if now < 0 then Inl ClockBeforeEpoch
     else if now < 2 ^ 64 then Inr (word_of_int now) else Inl ClockTooLarge)"

definition next_revision_start :: "u64 \<Rightarrow> u64 \<Rightarrow> u64" where
  "next_revision_start current_high now_ms =
     (let next = max (saturating_add current_high 1) now_ms;
          last = saturating_add next (REVISION_LEASE_SIZE - 1)
      in if last > max_leased_revision now_ms then now_ms else next)"

definition revision_range :: "u64 \<Rightarrow> reserve_error + revision_lease" where
  "revision_range first =
     (case checked_add first (REVISION_LEASE_SIZE - 1) of
        None \<Rightarrow> Inl RevisionRangeExhausted
      | Some last_revision \<Rightarrow> Inr \<lparr>rl_first_revision = first, rl_last_revision = last_revision,
                                  rl_first_node_generation = 0, rl_last_node_generation = 0\<rparr>)"

definition lease_from_seeds :: "u64 \<Rightarrow> u64 \<Rightarrow> reserve_error + revision_lease" where
  "lease_from_seeds first_revision node_generation =
     (case checked_add node_generation (NODE_GENERATION_LEASE_SIZE - 1) of
        None \<Rightarrow> Inl GenerationRangeExhausted
      | Some last_node_generation \<Rightarrow>
          try_bind (revision_range first_revision) (\<lambda>range.
          Inr (range\<lparr>rl_first_node_generation := node_generation, rl_last_node_generation := last_node_generation\<rparr>)))"

definition plan_next_lease :: "u64 \<Rightarrow> u64 \<Rightarrow> u64 \<Rightarrow> u64 \<Rightarrow> reserve_error + revision_lease" where
  "plan_next_lease current_high current_generation_high now_ms now_nanos =
     (case checked_add current_generation_high 1 of
        None \<Rightarrow> Inl GenerationExhausted
      | Some next_generation \<Rightarrow>
          lease_from_seeds (next_revision_start current_high now_ms) (max next_generation now_nanos))"

definition next_revision_lease :: "int \<Rightarrow> u64 \<Rightarrow> u64 \<Rightarrow> reserve_error + revision_lease" where
  "next_revision_lease now current_high current_generation_high =
     try_bind (unix_millis now) (\<lambda>now_ms. try_bind (unix_nanos now) (\<lambda>now_nanos.
     plan_next_lease current_high current_generation_high now_ms now_nanos))"

definition initial_revision_lease :: "int \<Rightarrow> reserve_error + revision_lease" where
  "initial_revision_lease now =
     try_bind (unix_millis now) (\<lambda>now_ms. try_bind (unix_nanos now) (\<lambda>now_nanos. lease_from_seeds now_ms now_nanos))"

text \<open>What the reservation at startup and the renewal plan from the marks held, if any.\<close>

definition plan_reserve :: "int \<Rightarrow> (u64 \<times> u64) option \<Rightarrow> reserve_error + revision_lease" where
  "plan_reserve now held = (case held of
     Some (revision, generation) \<Rightarrow> next_revision_lease now revision generation
   | None \<Rightarrow> initial_revision_lease now)"

definition plan_renew :: "u64 \<Rightarrow> int \<Rightarrow> (u64 \<times> u64) option \<Rightarrow> reserve_error + revision_lease" where
  "plan_renew last_used now held =
     (let (revision, generation) = (case held of Some marks \<Rightarrow> marks | None \<Rightarrow> (last_used, 0))
      in try_bind (unix_millis now) (\<lambda>now_ms.
         try_bind (revision_range (next_revision_start (max revision last_used) now_ms)) (\<lambda>range.
         Inr (range\<lparr>rl_first_node_generation := generation, rl_last_node_generation := generation\<rparr>))))"

subsection \<open>Persisting it\<close>

definition revision_lease_data :: "revision_lease \<Rightarrow> (string, string) fmap" where
  "revision_lease_data lease =
     fmupd NODE_GENERATION_HIGH_KEY (u64_to_string (rl_last_node_generation lease))
       (fmupd REVISION_HIGH_KEY (u64_to_string (rl_last_revision lease)) fmempty)"

definition parse_revision_value :: "(string, string) fmap \<Rightarrow> string \<Rightarrow> u64 option" where
  "parse_revision_value data key = (case fmlookup data key of None \<Rightarrow> None | Some value \<Rightarrow> parse_u64 value)"

text \<open>
  A \<^verbatim>\<open>ConfigMap\<close>: its data and its resource version. One attempt runs against what the API server does
  meanwhile: it may fail the read, others may write between the read and the write, the write gets
  the version \<open>ae_version\<close> when it is applied, and it may fail whether it was applied or not.
\<close>

record config_map =
  cm_data :: "(string, string) fmap option"
  cm_version :: nat

record attempt_env =
  ae_clock :: int
  ae_read_error :: "string option"
  ae_meanwhile :: "config_map option \<Rightarrow> config_map option"
  ae_version :: nat
  ae_write_error :: "(string \<times> bool) option"

text \<open>The two marks, with the keys of an earlier release as a fallback.\<close>

definition marks_of :: "config_map \<Rightarrow> reserve_error + (u64 \<times> u64)" where
  "marks_of cm =
     (case cm_data cm of
        None \<Rightarrow> Inl NoData
      | Some data \<Rightarrow>
          (case (case parse_revision_value data REVISION_HIGH_KEY of
                   None \<Rightarrow> parse_revision_value data ''revision'' | Some revision \<Rightarrow> Some revision) of
             None \<Rightarrow> Inl NoRevisionMark
           | Some revision \<Rightarrow>
               Inr (revision,
                    case (case parse_revision_value data NODE_GENERATION_HIGH_KEY of
                            None \<Rightarrow> parse_revision_value data ''nodeGeneration'' | Some generation \<Rightarrow> Some generation) of
                      None \<Rightarrow> 0 | Some generation \<Rightarrow> generation)))"

definition held_marks :: "config_map option \<Rightarrow> reserve_error + (u64 \<times> u64) option" where
  "held_marks read = (case read of None \<Rightarrow> Inr None | Some cm \<Rightarrow> try_bind (marks_of cm) (\<lambda>marks. Inr (Some marks)))"

text \<open>A create or a replace: applied when the object is as it was read.\<close>

definition cm_write ::
  "attempt_env \<Rightarrow> config_map option \<Rightarrow> (string, string) fmap \<Rightarrow> config_map option \<Rightarrow>
   (string option + unit) \<times> config_map option" where
  "cm_write env read data cm =
     (let same = (map_option cm_version cm = map_option cm_version read);
          written = Some \<lparr>cm_data = Some data, cm_version = ae_version env\<rparr>
      in case ae_write_error env of
           Some (error, applied) \<Rightarrow> (Inl (Some error), if same \<and> applied then written else cm)
         | None \<Rightarrow> if same then (Inr (), written)
                   else (Inl (if cm = None then Some ''not found'' else None), cm))"

text \<open>
  The loop of \<^verbatim>\<open>cas_revision_lease\<close>, one environment per attempt: a read, the plan, a write; a conflict
  is \<open>Inl None\<close> and is tried again.
\<close>

fun cas_loop ::
  "(int \<Rightarrow> (u64 \<times> u64) option \<Rightarrow> reserve_error + revision_lease) \<Rightarrow> attempt_env list \<Rightarrow> config_map option \<Rightarrow>
   (reserve_error + revision_lease) \<times> config_map option" where
  "cas_loop plan [] cm = (Inl TooManyConflicts, cm)"
| "cas_loop plan (env # envs) cm =
     (case ae_read_error env of
        Some error \<Rightarrow> (Inl (ReadFailed error), cm)
      | None \<Rightarrow>
          (case try_bind (held_marks cm) (plan (ae_clock env)) of
             Inl error \<Rightarrow> (Inl error, cm)
           | Inr lease \<Rightarrow>
               (case cm_write env cm (revision_lease_data lease) (ae_meanwhile env cm) of
                  (Inr _, cm') \<Rightarrow> (Inr lease, cm')
                | (Inl (Some error), cm') \<Rightarrow> (Inl (WriteFailed error), cm')
                | (Inl None, cm') \<Rightarrow> cas_loop plan envs cm')))"

definition cas_revision_lease ::
  "(nat \<Rightarrow> attempt_env) \<Rightarrow> (int \<Rightarrow> (u64 \<times> u64) option \<Rightarrow> reserve_error + revision_lease) \<Rightarrow> config_map option \<Rightarrow>
   (reserve_error + revision_lease) \<times> config_map option" where
  "cas_revision_lease env plan cm = cas_loop plan (map env [0..<REVISION_RESERVATION_ATTEMPTS]) cm"

definition reserve_revision_lease ::
  "(nat \<Rightarrow> attempt_env) \<Rightarrow> config_map option \<Rightarrow> (reserve_error + revision_lease) \<times> config_map option" where
  "reserve_revision_lease env cm = cas_revision_lease env plan_reserve cm"

definition revision_renewer ::
  "u64 \<Rightarrow> (nat \<Rightarrow> attempt_env) \<Rightarrow> config_map option \<Rightarrow> (reserve_error + (u64 \<times> u64)) \<times> config_map option" where
  "revision_renewer last_used env cm =
     (case cas_revision_lease env (plan_renew last_used) cm of
        (result, cm) \<Rightarrow> (try_bind result (\<lambda>lease. Inr (rl_first_revision lease, rl_last_revision lease)), cm))"

subsection \<open>The allocator\<close>

text \<open>The channel a renewal answers on; \<open>Closed\<close> when its task stopped. Instants are in nanoseconds.\<close>

datatype renewal_reply = Pending | Sent "reserve_error + (u64 \<times> u64)" | Closed

record revision_clock =
  rc_next :: u64
  rc_last :: u64
  rc_renewer :: bool
  rc_renewal :: "renewal_reply option"
  rc_retry_at :: "nat option"

definition RENEWAL_RETRY :: nat where
  "RENEWAL_RETRY = 5000000000"

datatype clock_error = InvalidRevisionLease u64 u64

definition revision_clock_new :: "revision_lease \<Rightarrow> bool \<Rightarrow> clock_error + revision_clock" where
  "revision_clock_new lease renewer =
     (if rl_first_revision lease = 0 \<or> rl_first_revision lease > rl_last_revision lease
      then Inl (InvalidRevisionLease (rl_first_revision lease) (rl_last_revision lease))
      else Inr \<lparr>rc_next = rl_first_revision lease, rc_last = rl_last_revision lease, rc_renewer = renewer,
                rc_renewal = None, rc_retry_at = None\<rparr>)"

definition adopt_renewal :: "nat \<Rightarrow> revision_clock \<Rightarrow> revision_clock" where
  "adopt_renewal now self =
     (case rc_renewal self of
        None \<Rightarrow> self
      | Some Pending \<Rightarrow> self
      | Some (Sent (Inr (first_revision, last_revision))) \<Rightarrow>
          if first_revision \<noteq> 0 \<and> first_revision \<le> last_revision
          then self\<lparr>rc_next := first_revision, rc_last := last_revision, rc_renewal := None\<rparr>
          else self\<lparr>rc_renewal := None, rc_retry_at := Some (now + RENEWAL_RETRY)\<rparr>
      | Some (Sent (Inl _)) \<Rightarrow> self\<lparr>rc_renewal := None, rc_retry_at := Some (now + RENEWAL_RETRY)\<rparr>
      | Some Closed \<Rightarrow> self\<lparr>rc_renewal := None, rc_retry_at := Some (now + RENEWAL_RETRY)\<rparr>)"

text \<open>Starts a renewal past the last revision of the range unless one is under way or put off.\<close>

definition clock_renew :: "nat \<Rightarrow> revision_clock \<Rightarrow> revision_clock" where
  "clock_renew now self =
     (if rc_renewal self \<noteq> None \<or> (case rc_retry_at self of None \<Rightarrow> False | Some at \<Rightarrow> now < at) then self
      else if \<not> rc_renewer self then self
      else self\<lparr>rc_renewal := Some Pending\<rparr>)"

definition clock_take :: "nat \<Rightarrow> revision_clock \<Rightarrow> u64 option \<times> revision_clock" where
  "clock_take now self =
     (let self = adopt_renewal now self;
          revision = (if rc_next self \<le> rc_last self then Some (rc_next self) else None);
          self = self\<lparr>rc_next := saturating_add (rc_next self) (if revision \<noteq> None then 1 else 0)\<rparr>;
          self = (if saturating_sub (rc_last self) (rc_next self) < REVISION_LEASE_SPAN div 2
                  then clock_renew now self else self)
      in (revision, self))"

subsection \<open>Decimal round trip\<close>

lemma digit_char_simps [simp]: "d < 10 \<Longrightarrow> is_digit (digit_char d)" "d < 10 \<Longrightarrow> digit_value (digit_char d) = d"
  by (simp_all add: is_digit_def digit_char_def digit_value_def)

lemma decimal_digits: "list_all is_digit (decimal n) \<and> decimal n \<noteq> [] \<and> digits_value (decimal n) = n"
proof (induction n rule: decimal.induct)
  case (1 n)
  show ?case
  proof (cases "n < 10")
    case True
    then show ?thesis
      by (simp add: decimal.simps [of n] digits_value_def)
  next
    case False
    with 1 [OF False] show ?thesis
      by (simp add: decimal.simps [of n] digits_value_def)
  qed
qed

lemma parse_u64_to_string [simp]: "parse_u64 (u64_to_string n) = Some n"
proof -
  let ?s = "decimal (unat n)"
  obtain c cs where s: "?s = c # cs" and "is_digit c"
    using decimal_digits [of "unat n"] by (cases ?s) auto
  then have "c \<noteq> CHR ''+''"
    by (auto simp: is_digit_def)
  then have "parse_u64 ?s = Some (word_of_nat (digits_value ?s))"
    using decimal_digits [of "unat n"] unat_lt_u64 [of n] by (simp add: parse_u64_def s)
  then show ?thesis
    using decimal_digits [of "unat n"] by (simp add: u64_to_string_def)
qed

lemma marks_of_lease [simp]:
  "marks_of \<lparr>cm_data = Some (revision_lease_data lease), cm_version = v\<rparr> =
     Inr (rl_last_revision lease, rl_last_node_generation lease)"
  by (simp add: marks_of_def parse_revision_value_def revision_lease_data_def REVISION_HIGH_KEY_def NODE_GENERATION_HIGH_KEY_def)

subsection \<open>What a plan grants\<close>

lemma revision_range_Inr:
  "revision_range first_revision = Inr lease \<Longrightarrow> rl_first_revision lease = first_revision \<and>
     unat (rl_last_revision lease) = unat first_revision + 255"
  by (auto simp: revision_range_def REVISION_LEASE_SIZE_def REVISION_LEASE_SPAN_def dest!: unat_checked_add split: option.splits)

text \<open>The mark is past what peers accept: the reservation starts again at the clock.\<close>

definition reseeds :: "u64 \<Rightarrow> u64 \<Rightarrow> bool" where
  "reseeds current_high now_ms \<longleftrightarrow>
     saturating_add (max (saturating_add current_high 1) now_ms) (REVISION_LEASE_SIZE - 1) > max_leased_revision now_ms"

lemma next_revision_start_eq:
  "next_revision_start current_high now_ms =
     (if reseeds current_high now_ms then now_ms else max (saturating_add current_high 1) now_ms)"
  by (simp add: next_revision_start_def reseeds_def Let_def)

lemma unat_max_leased_revision: "unat (max_leased_revision now_ms) = min (2 ^ 64 - 1) (unat now_ms + 600256)"
  by (simp add: max_leased_revision_def Let_def unat_saturating_add REVISION_LEASE_SPAN_def MAX_LEASE_SKEW_SECS_def
      unat_u64_from_or_max)

text \<open>The revision a plan starts at, and the condition under which it starts again at the clock.\<close>

definition start_of :: "u64 option \<Rightarrow> u64 \<Rightarrow> u64" where
  "start_of mark now_ms = (case mark of None \<Rightarrow> now_ms | Some high \<Rightarrow> next_revision_start high now_ms)"

lemma plan_reserve_Inr:
  assumes "plan_reserve now held = Inr lease"
  shows "\<exists>now_ms. unix_millis now = Inr now_ms \<and> rl_first_revision lease = start_of (map_option fst held) now_ms"
    "unat (rl_last_revision lease) = unat (rl_first_revision lease) + 255"
    "unat (rl_last_node_generation lease) = unat (rl_first_node_generation lease) + 1048575"
    "held = Some (revision, generation) \<Longrightarrow> unat generation < unat (rl_first_node_generation lease)"
proof -
  have seeds: "rl_first_revision lease = r \<and> rl_first_node_generation lease = g \<and>
      unat (rl_last_revision lease) = unat r + 255 \<and> unat (rl_last_node_generation lease) = unat g + 1048575"
    if "lease_from_seeds r g = Inr lease" for r g
    using that by (auto simp: lease_from_seeds_def NODE_GENERATION_LEASE_SIZE_def dest!: revision_range_Inr unat_checked_add
        split: option.splits)
  from assms obtain now_ms now_nanos where now: "unix_millis now = Inr now_ms"
    and plan: "case held of None \<Rightarrow> lease_from_seeds now_ms now_nanos = Inr lease
      | Some (h, g) \<Rightarrow> plan_next_lease h g now_ms now_nanos = Inr lease"
    by (auto simp: plan_reserve_def next_revision_lease_def initial_revision_lease_def split: option.splits)
  have "rl_first_revision lease = start_of (map_option fst held) now_ms \<and>
    unat (rl_last_revision lease) = unat (rl_first_revision lease) + 255 \<and>
    unat (rl_last_node_generation lease) = unat (rl_first_node_generation lease) + 1048575 \<and>
    (\<forall>h g. held = Some (h, g) \<longrightarrow> unat g < unat (rl_first_node_generation lease))"
  proof (cases held)
    case None
    with plan seeds show ?thesis
      by (fastforce simp: start_of_def)
  next
    case (Some marks)
    obtain h g where marks: "marks = (h, g)"
      by fastforce
    from plan Some marks obtain g' where g': "checked_add g 1 = Some g'"
      and "lease_from_seeds (next_revision_start h now_ms) (max g' now_nanos) = Inr lease"
      by (auto simp: plan_next_lease_def split: option.splits)
    note lease = seeds [OF this(2)]
    have "unat g < unat (max g' now_nanos)"
      using unat_checked_add [OF g'] by (simp add: max_def word_le_nat_alt)
    with lease Some marks show ?thesis
      by (simp add: start_of_def)
  qed
  with now show "\<exists>now_ms. unix_millis now = Inr now_ms \<and> rl_first_revision lease = start_of (map_option fst held) now_ms"
    "unat (rl_last_revision lease) = unat (rl_first_revision lease) + 255"
    "unat (rl_last_node_generation lease) = unat (rl_first_node_generation lease) + 1048575"
    "held = Some (revision, generation) \<Longrightarrow> unat generation < unat (rl_first_node_generation lease)"
    by auto
qed

lemma plan_renew_Inr:
  assumes "plan_renew last_used now held = Inr lease"
  shows "\<exists>now_ms. unix_millis now = Inr now_ms \<and>
      rl_first_revision lease = next_revision_start (case held of None \<Rightarrow> last_used | Some (revision, _) \<Rightarrow> max revision last_used) now_ms"
    "unat (rl_last_revision lease) = unat (rl_first_revision lease) + 255"
    "held = Some (revision, generation) \<Longrightarrow> rl_last_node_generation lease = generation"
  using assms by (auto simp: plan_renew_def Let_def dest!: revision_range_Inr split: option.splits prod.splits)

text \<open>Without a reseed a range starts past the mark; with a clock of this age it ends below the largest number.\<close>

lemma start_past_mark:
  assumes "\<not> reseeds high now_ms" "unat now_ms < 2 ^ 63"
  shows "unat high < unat (next_revision_start high now_ms)" "unat (next_revision_start high now_ms) + 255 < 2 ^ 64 - 1"
proof -
  let ?next = "max (saturating_add high 1) now_ms"
  have cap: "unat (max_leased_revision now_ms) = unat now_ms + 600256"
    using assms(2) by (simp add: unat_max_leased_revision)
  have "unat (saturating_add ?next (REVISION_LEASE_SIZE - 1)) \<le> unat now_ms + 600256"
    using assms(1) cap by (simp add: reseeds_def not_less word_le_nat_alt)
  then have "unat ?next + 255 \<le> unat now_ms + 600256"
    using assms(2) by (simp add: unat_saturating_add REVISION_LEASE_SIZE_def REVISION_LEASE_SPAN_def min_def split: if_splits)
  moreover have "min (2 ^ 64 - 1) (unat high + 1) \<le> unat ?next"
    using unat_saturating_add [of high 1] by (simp add: max_def word_le_nat_alt not_le)
  moreover have "next_revision_start high now_ms = ?next"
    using assms(1) by (simp add: next_revision_start_eq)
  ultimately show "unat high < unat (next_revision_start high now_ms)" "unat (next_revision_start high now_ms) + 255 < 2 ^ 64 - 1"
    using assms(2) by (simp_all add: min_def split: if_splits)
qed

end
