(* ===== verification/RevisionSafety.thy ===== *)
theory RevisionSafety
  imports RevisionLease
begin

section \<open>No revision and no generation is used twice\<close>

text \<open>
  Operator processes start, take revisions, renew their ranges and end, in any order, all against one
  \<^verbatim>\<open>ConfigMap\<close>. The compare-and-swap loop of a reservation acts as one atomic grant, so a run is a sequence
  of grants and of local steps of the allocators.
\<close>

subsection \<open>Grants\<close>

text \<open>A lease planned from the marks held and written over them.\<close>

definition grant ::
  "(int \<Rightarrow> (u64 \<times> u64) option \<Rightarrow> reserve_error + revision_lease) \<Rightarrow> int \<Rightarrow> config_map option \<Rightarrow> revision_lease \<Rightarrow>
   config_map option \<Rightarrow> bool" where
  "grant plan now cm lease cm' \<longleftrightarrow> (\<exists>marks v. held_marks cm = Inr marks \<and> plan now marks = Inr lease \<and>
     cm' = Some \<lparr>cm_data = Some (revision_lease_data lease), cm_version = v\<rparr>)"

text \<open>An object changes its resource version with every write of others.\<close>

definition honest :: "attempt_env \<Rightarrow> bool" where
  "honest env \<longleftrightarrow> (\<forall>cm. map_option cm_version (ae_meanwhile env cm) = map_option cm_version cm \<longrightarrow> ae_meanwhile env cm = cm)"

lemma cas_loop_grant:
  assumes "cas_loop plan envs cm = (Inr lease, cm')" "\<And>env. env \<in> set envs \<Longrightarrow> honest env"
  shows "\<exists>env\<in>set envs. \<exists>cm0. grant plan (ae_clock env) cm0 lease cm'"
  using assms
proof (induction plan envs cm rule: cas_loop.induct)
  case (2 plan env envs cm)
  from "2.prems"(1) obtain read lease' where read: "held_marks cm = Inr read" "plan (ae_clock env) read = Inr lease'"
    "ae_read_error env = None"
    by (auto split: option.splits sum.splits simp: try_bind_def)
  show ?case
  proof (cases "ae_write_error env = None \<and> map_option cm_version (ae_meanwhile env cm) = map_option cm_version cm")
    case True
    then have "ae_meanwhile env cm = cm"
      using "2.prems"(2) [of env] by (simp add: honest_def)
    with True "2.prems"(1) read have "grant plan (ae_clock env) cm lease cm'"
      by (auto simp: cm_write_def grant_def)
    then show ?thesis
      by auto
  next
    case False
    with "2.prems" read "2.IH" [OF read(3)] show ?thesis
      by (auto simp: cm_write_def Let_def split: option.splits if_splits)
  qed
qed simp

text \<open>Runs in which no reservation starts again at the clock, before the year 292 million.\<close>

definition in_order :: "config_map option \<Rightarrow> int \<Rightarrow> bool" where
  "in_order cm now \<longleftrightarrow> (\<forall>now_ms. unix_millis now = Inr now_ms \<longrightarrow> unat now_ms < 2 ^ 63 \<and>
     (\<forall>revision generation. held_marks cm = Inr (Some (revision, generation)) \<longrightarrow> \<not> reseeds revision now_ms))"

subsection \<open>Runs\<close>

record reservation =
  rv_cm :: "config_map option"
  rv_clocks :: "nat \<Rightarrow> revision_clock option"
  rv_taken :: "(nat \<times> u64) list"
  rv_generations :: "(u64 \<times> u64) list"

text \<open>
  \<open>ok\<close> restricts when a grant may happen. A grant may be wasted: its answer is lost, or the process
  that asked for it ended.
\<close>

inductive rv_step :: "(config_map option \<Rightarrow> int \<Rightarrow> bool) \<Rightarrow> reservation \<Rightarrow> reservation \<Rightarrow> bool" for ok where
  rv_start: "grant plan_reserve now (rv_cm s) lease cm \<Longrightarrow> ok (rv_cm s) now \<Longrightarrow> rv_clocks s pid = None \<Longrightarrow>
    revision_clock_new lease True = Inr c \<Longrightarrow>
    rv_step ok s (s\<lparr>rv_cm := cm, rv_clocks := (rv_clocks s)(pid \<mapsto> c),
      rv_generations := rv_generations s @ [(rl_first_node_generation lease, rl_last_node_generation lease)]\<rparr>)"
| rv_take: "rv_clocks s pid = Some c \<Longrightarrow> clock_take now c = (revision, c') \<Longrightarrow>
    rv_step ok s (s\<lparr>rv_clocks := (rv_clocks s)(pid \<mapsto> c'),
      rv_taken := rv_taken s @ (case revision of None \<Rightarrow> [] | Some r \<Rightarrow> [(pid, r)])\<rparr>)"
| rv_renewed: "rv_clocks s pid = Some c \<Longrightarrow> rc_renewal c = Some Pending \<Longrightarrow>
    grant (plan_renew (rc_last c)) now (rv_cm s) lease cm \<Longrightarrow> ok (rv_cm s) now \<Longrightarrow>
    rv_step ok s (s\<lparr>rv_cm := cm, rv_clocks := (rv_clocks s)(pid \<mapsto>
      c\<lparr>rc_renewal := Some (Sent (Inr (rl_first_revision lease, rl_last_revision lease)))\<rparr>)\<rparr>)"
| rv_renew_failed: "rv_clocks s pid = Some c \<Longrightarrow> rc_renewal c = Some Pending \<Longrightarrow> answer = Sent (Inl e) \<or> answer = Closed \<Longrightarrow>
    rv_step ok s (s\<lparr>rv_clocks := (rv_clocks s)(pid \<mapsto> c\<lparr>rc_renewal := Some answer\<rparr>)\<rparr>)"
| rv_wasted_start: "grant plan_reserve now (rv_cm s) lease cm \<Longrightarrow> ok (rv_cm s) now \<Longrightarrow> rv_step ok s (s\<lparr>rv_cm := cm\<rparr>)"
| rv_wasted_renewal: "held_marks (rv_cm s) = Inr (Some (high, generation)) \<Longrightarrow> last_used \<le> high \<Longrightarrow>
    grant (plan_renew last_used) now (rv_cm s) lease cm \<Longrightarrow> ok (rv_cm s) now \<Longrightarrow> rv_step ok s (s\<lparr>rv_cm := cm\<rparr>)"
| rv_end: "rv_step ok s (s\<lparr>rv_clocks := (rv_clocks s)(pid := None)\<rparr>)"

abbreviation rv_steps :: "(config_map option \<Rightarrow> int \<Rightarrow> bool) \<Rightarrow> reservation \<Rightarrow> reservation \<Rightarrow> bool" where
  "rv_steps ok \<equiv> (rv_step ok)\<^sup>*\<^sup>*"

text \<open>No process runs; the marks, if any, were left by earlier ones.\<close>

definition rv_init :: "config_map option \<Rightarrow> reservation" where
  "rv_init cm = \<lparr>rv_cm = cm, rv_clocks = (\<lambda>_. None), rv_taken = [], rv_generations = []\<rparr>"

subsection \<open>The allocators\<close>

text \<open>The revisions an allocator can still hand out, and those of a renewal it has not adopted.\<close>

definition renewed_range :: "revision_clock \<Rightarrow> (u64 \<times> u64) option" where
  "renewed_range c = (case rc_renewal c of Some (Sent (Inr bounds)) \<Rightarrow> Some bounds | _ \<Rightarrow> None)"

definition available :: "revision_clock \<Rightarrow> nat set" where
  "available c = {unat (rc_next c)..unat (rc_last c)} \<union>
     (case renewed_range c of None \<Rightarrow> {} | Some (a, b) \<Rightarrow> {unat a..unat b})"

definition clock_ok :: "nat \<Rightarrow> revision_clock \<Rightarrow> bool" where
  "clock_ok mark c \<longleftrightarrow> unat (rc_last c) \<le> mark \<and> unat (rc_last c) < 2 ^ 64 - 1 \<and> unat (rc_next c) \<le> unat (rc_last c) + 1 \<and>
     (\<forall>a b. renewed_range c = Some (a, b) \<longrightarrow> unat (rc_last c) < unat a \<and> a \<le> b \<and> unat b \<le> mark \<and> unat b < 2 ^ 64 - 1)"

text \<open>A revision lies behind an allocator that will only hand out larger ones.\<close>

definition behind :: "nat \<Rightarrow> revision_clock \<Rightarrow> bool" where
  "behind r c \<longleftrightarrow> r < unat (rc_next c) \<and> (\<forall>a b. renewed_range c = Some (a, b) \<longrightarrow> r < unat a)"

lemma clock_renew_frame [simp]: "rc_next (clock_renew now c) = rc_next c" "rc_last (clock_renew now c) = rc_last c"
  "renewed_range c = None \<Longrightarrow> renewed_range (clock_renew now c) = None"
  "renewed_range (c\<lparr>rc_next := r\<rparr>) = renewed_range c"
  by (simp_all add: clock_renew_def renewed_range_def)

lemma adopt_renewal_facts:
  assumes "clock_ok mark c"
  shows "clock_ok mark (adopt_renewal now c)" "renewed_range (adopt_renewal now c) = None"
    "available (adopt_renewal now c) \<subseteq> available c" "behind r c \<Longrightarrow> behind r (adopt_renewal now c)"
proof -
  let ?c = "adopt_renewal now c"
  have "clock_ok mark ?c \<and> renewed_range ?c = None \<and> available ?c \<subseteq> available c \<and> (behind r c \<longrightarrow> behind r ?c)"
  proof (cases "renewed_range c")
    case None
    then have "rc_next ?c = rc_next c \<and> rc_last ?c = rc_last c \<and> renewed_range ?c = None"
      by (auto simp: adopt_renewal_def renewed_range_def split: option.splits renewal_reply.splits sum.splits)
    with None assms show ?thesis
      by (simp add: clock_ok_def available_def behind_def)
  next
    case (Some bounds)
    obtain a b where range: "bounds = (a, b)" "unat (rc_last c) < unat a" "a \<le> b" "unat b \<le> mark" "unat b < 2 ^ 64 - 1"
      using assms Some by (cases bounds) (auto simp: clock_ok_def)
    then have "a \<noteq> 0"
      by auto
    with Some range have "?c = c\<lparr>rc_next := a, rc_last := b, rc_renewal := None\<rparr>"
      by (auto simp: adopt_renewal_def renewed_range_def split: option.splits renewal_reply.splits sum.splits)
    with Some range show ?thesis
      by (auto simp: clock_ok_def available_def behind_def renewed_range_def word_le_nat_alt)
  qed
  then show "clock_ok mark ?c" "renewed_range ?c = None" "available ?c \<subseteq> available c" "behind r c \<Longrightarrow> behind r ?c"
    by auto
qed

lemma clock_take_facts:
  assumes "clock_ok mark c" "clock_take now c = (revision, c')"
  shows "clock_ok mark c'" "available c' \<subseteq> available c" "behind r c \<Longrightarrow> behind r c'"
    "revision = Some x \<Longrightarrow> unat x \<in> available c \<and> unat x \<notin> available c' \<and> behind (unat x) c' \<and> (behind r c \<longrightarrow> r < unat x)"
proof -
  let ?c = "adopt_renewal now c"
  note adopted = adopt_renewal_facts [OF assms(1), where now = now]
  have c': "renewed_range c' = None" "rc_last c' = rc_last ?c"
    "rc_next c' = saturating_add (rc_next ?c) (if revision \<noteq> None then 1 else 0)"
    "revision = (if rc_next ?c \<le> rc_last ?c then Some (rc_next ?c) else None)"
    using assms(2) adopted(2) by (auto simp: clock_take_def Let_def split: if_splits)
  have next': "unat (rc_next c') = unat (rc_next ?c) + (if revision \<noteq> None then 1 else 0)"
    using c'(3,4) adopted(1) by (auto simp: unat_saturating_add clock_ok_def word_le_nat_alt split: if_splits)
  then have "available c' \<subseteq> available ?c"
    using c' adopted(2) by (auto simp: available_def)
  then show "available c' \<subseteq> available c"
    using adopted(3) by blast
  show "clock_ok mark c'"
    using adopted(1) next' c' by (auto simp: clock_ok_def word_le_nat_alt split: if_splits)
  show "behind r c \<Longrightarrow> behind r c'"
    using adopted(4) [of r] next' c'(1) by (auto simp: behind_def)
  show "unat x \<in> available c \<and> unat x \<notin> available c' \<and> behind (unat x) c' \<and> (behind r c \<longrightarrow> r < unat x)"
    if "revision = Some x"
  proof -
    have x: "x = rc_next ?c" "rc_next ?c \<le> rc_last ?c"
      using that c'(4) by (auto split: if_splits)
    then have "unat x \<in> available ?c"
      by (simp add: available_def word_le_nat_alt)
    with x next' that c' adopted(2,3) adopted(4) [of r] show ?thesis
      by (auto simp: available_def behind_def)
  qed
qed

subsection \<open>The invariant\<close>

abbreviation revisions_of :: "nat \<Rightarrow> reservation \<Rightarrow> u64 list" where
  "revisions_of pid s \<equiv> map snd (filter (\<lambda>t. fst t = pid) (rv_taken s))"

definition rv_ok :: "nat \<Rightarrow> reservation \<Rightarrow> bool" where
  "rv_ok mark s \<longleftrightarrow>
     (\<forall>pid c. rv_clocks s pid = Some c \<longrightarrow> clock_ok mark c) \<and>
     (\<forall>pid pid' c c'. rv_clocks s pid = Some c \<and> rv_clocks s pid' = Some c' \<and> pid \<noteq> pid' \<longrightarrow> available c \<inter> available c' = {}) \<and>
     (\<forall>pid r. (pid, r) \<in> set (rv_taken s) \<longrightarrow> unat r \<le> mark \<and>
        (\<forall>pid' c. rv_clocks s pid' = Some c \<longrightarrow> unat r \<notin> available c) \<and>
        (\<forall>c. rv_clocks s pid = Some c \<longrightarrow> behind (unat r) c)) \<and>
     distinct (map snd (rv_taken s)) \<and> (\<forall>pid. sorted_wrt (<) (revisions_of pid s))"

definition idle :: "reservation \<Rightarrow> bool" where
  "idle s \<longleftrightarrow> rv_clocks s = (\<lambda>_. None) \<and> rv_taken s = []"

definition rv_inv :: "reservation \<Rightarrow> bool" where
  "rv_inv s \<longleftrightarrow> idle s \<or> (\<exists>revision generation. held_marks (rv_cm s) = Inr (Some (revision, generation)) \<and> rv_ok (unat revision) s)"

lemma rv_ok_idle: "idle s \<Longrightarrow> rv_ok mark s"
  by (simp add: idle_def rv_ok_def)

lemma rv_ok_cong: "rv_clocks s' = rv_clocks s \<Longrightarrow> rv_taken s' = rv_taken s \<Longrightarrow> rv_ok mark s' = rv_ok mark s"
  by (simp add: rv_ok_def)

lemma rv_ok_cm [simp]: "rv_ok mark (s\<lparr>rv_cm := cm\<rparr>) = rv_ok mark s" "rv_ok mark (s\<lparr>rv_generations := gs\<rparr>) = rv_ok mark s"
  by (simp_all add: rv_ok_def)

lemma clock_ok_mono: "clock_ok mark c \<Longrightarrow> mark \<le> mark' \<Longrightarrow> clock_ok mark' c"
  by (auto simp: clock_ok_def)

lemma rv_ok_mono: "rv_ok mark s \<Longrightarrow> mark \<le> mark' \<Longrightarrow> rv_ok mark' s"
  unfolding rv_ok_def by (meson clock_ok_mono order.trans)

lemma available_bound: "clock_ok mark c \<Longrightarrow> r \<in> available c \<Longrightarrow> r \<le> mark"
  by (auto simp: clock_ok_def available_def split: option.splits)

lemma rv_okD:
  assumes "rv_ok mark s"
  shows "rv_clocks s pid = Some c \<Longrightarrow> clock_ok mark c"
    "rv_clocks s pid = Some c \<Longrightarrow> rv_clocks s pid' = Some c' \<Longrightarrow> pid \<noteq> pid' \<Longrightarrow> available c \<inter> available c' = {}"
    "(pid, r) \<in> set (rv_taken s) \<Longrightarrow> unat r \<le> mark"
    "(pid, r) \<in> set (rv_taken s) \<Longrightarrow> rv_clocks s pid' = Some c' \<Longrightarrow> unat r \<notin> available c'"
    "(pid, r) \<in> set (rv_taken s) \<Longrightarrow> rv_clocks s pid = Some c \<Longrightarrow> behind (unat r) c"
  using assms unfolding rv_ok_def by blast+

text \<open>One allocator is replaced by one that can hand out less, or only revisions past the mark.\<close>

lemma rv_ok_update:
  assumes ok: "rv_ok mark s" and mark: "mark \<le> mark'" and c': "clock_ok mark' c'"
    and avail: "\<And>r. r \<in> available c' \<Longrightarrow> mark < r \<or> (\<exists>c. rv_clocks s pid = Some c \<and> r \<in> available c)"
    and behind: "\<And>r. r \<le> mark \<Longrightarrow> (\<forall>c. rv_clocks s pid = Some c \<longrightarrow> behind r c) \<Longrightarrow> behind r c'"
  shows "rv_ok mark' (s\<lparr>rv_clocks := (rv_clocks s)(pid \<mapsto> c')\<rparr>)"
proof -
  have other: "available c' \<inter> available c = {}" if "rv_clocks s pid' = Some c" "pid' \<noteq> pid" for pid' c
  proof -
    have "\<And>r. r \<in> available c \<Longrightarrow> r \<le> mark"
      by (rule available_bound [OF rv_okD(1) [OF ok that(1)]])
    moreover have "\<And>c0. rv_clocks s pid = Some c0 \<Longrightarrow> available c0 \<inter> available c = {}"
      using rv_okD(2) [OF ok _ that(1)] that(2) by blast
    ultimately show ?thesis
      using avail by fastforce
  qed
  have taken: "unat r \<le> mark' \<and> unat r \<notin> available c' \<and> (p = pid \<longrightarrow> behind (unat r) c')" if "(p, r) \<in> set (rv_taken s)" for p r
  proof -
    have r: "unat r \<le> mark" "\<And>c. rv_clocks s pid = Some c \<Longrightarrow> unat r \<notin> available c"
      "p = pid \<Longrightarrow> \<forall>c. rv_clocks s pid = Some c \<longrightarrow> behind (unat r) c"
      using rv_okD(3-5) [OF ok that] by blast+
    with avail [of "unat r"] behind [of "unat r"] mark show ?thesis
      by auto
  qed
  have "rv_ok mark' s"
    using ok mark by (rule rv_ok_mono)
  then show ?thesis
    unfolding rv_ok_def using other taken c' by (auto simp: Int_commute)
qed

lemma rv_ok_take:
  assumes ok: "rv_ok mark s" and c: "rv_clocks s pid = Some c" and take: "clock_take now c = (revision, c')"
  shows "rv_ok mark (s\<lparr>rv_clocks := (rv_clocks s)(pid \<mapsto> c'),
    rv_taken := rv_taken s @ (case revision of None \<Rightarrow> [] | Some r \<Rightarrow> [(pid, r)])\<rparr>)"
proof -
  let ?s = "s\<lparr>rv_clocks := (rv_clocks s)(pid \<mapsto> c')\<rparr>"
  have clock: "clock_ok mark c"
    using ok c by (simp add: rv_ok_def)
  note facts = clock_take_facts [OF clock take]
  have s: "rv_ok mark ?s"
    by (rule rv_ok_update [OF ok]) (use facts c in auto)
  show ?thesis
  proof (cases revision)
    case None
    with s show ?thesis
      by simp
  next
    case (Some x)
    note x = facts(4) [OF Some]
    have "unat x \<le> mark"
      using available_bound [OF clock] x by blast
    moreover have "unat x \<notin> available d" if "(rv_clocks ?s) p = Some d" for p d
    proof (cases "p = pid")
      case False
      with that have "rv_clocks s p = Some d"
        by simp
      with rv_okD(2) [OF ok c this] False x show ?thesis
        by blast
    qed (use that x in auto)
    moreover have "x \<notin> snd ` set (rv_taken s)"
      using rv_okD(4) [OF ok _ c] x by auto
    moreover have "r < x" if "(pid, r) \<in> set (rv_taken s)" for r
      using rv_okD(5) [OF ok that c] facts(4) [OF Some, of "unat r"] by (simp add: word_less_nat_alt)
    ultimately show ?thesis
      using s x Some unfolding rv_ok_def by (auto simp: sorted_wrt_append)
  qed
qed

text \<open>A grant moves the mark, to past its range, which lies past the mark it was planned from.\<close>

lemma grant_marks: "grant plan now cm lease cm' \<Longrightarrow> held_marks cm' = Inr (Some (rl_last_revision lease, rl_last_node_generation lease))"
  by (auto simp: grant_def held_marks_def)

lemma grant_past_mark:
  assumes "grant plan now cm lease cm'" "in_order cm now"
    and "plan = plan_reserve \<or> plan = plan_renew last_used \<and> held_marks cm = Inr (Some (high, generation)) \<and> last_used \<le> high"
  shows "unat (rl_last_revision lease) = unat (rl_first_revision lease) + 255" "unat (rl_last_revision lease) < 2 ^ 64 - 1"
    "held_marks cm = Inr (Some (revision, generation')) \<Longrightarrow> unat revision < unat (rl_first_revision lease)"
proof -
  obtain marks where marks: "held_marks cm = Inr marks" and plan: "plan now marks = Inr lease"
    using assms(1) by (auto simp: grant_def)
  have "unat (rl_last_revision lease) = unat (rl_first_revision lease) + 255 \<and>
      (\<exists>now_ms. unix_millis now = Inr now_ms \<and> rl_first_revision lease = start_of (map_option fst marks) now_ms)"
    using assms(3)
  proof
    assume "plan = plan_reserve"
    with plan plan_reserve_Inr(1,2) [of now marks lease] show ?thesis
      by simp
  next
    assume renew: "plan = plan_renew last_used \<and> held_marks cm = Inr (Some (high, generation)) \<and> last_used \<le> high"
    with marks have "marks = Some (high, generation)"
      by simp
    with renew plan plan_renew_Inr(1,2) [of last_used now marks lease] show ?thesis
      by (auto simp: start_of_def max_def)
  qed
  then obtain now_ms where last: "unat (rl_last_revision lease) = unat (rl_first_revision lease) + 255"
    and now: "unix_millis now = Inr now_ms" and start: "rl_first_revision lease = start_of (map_option fst marks) now_ms"
    by blast
  have plausible: "unat now_ms < 2 ^ 63" "\<And>r g. marks = Some (r, g) \<Longrightarrow> \<not> reseeds r now_ms"
    using assms(2) now marks by (auto simp: in_order_def)
  show "unat (rl_last_revision lease) = unat (rl_first_revision lease) + 255"
    by (rule last)
  show "unat (rl_last_revision lease) < 2 ^ 64 - 1"
    using last start plausible start_past_mark(2) [of _ now_ms] by (cases marks) (auto simp: start_of_def)
  show "unat revision < unat (rl_first_revision lease)" if "held_marks cm = Inr (Some (revision, generation'))"
    using that marks start plausible start_past_mark(1) [of revision now_ms] by (auto simp: start_of_def)
qed

lemma rv_inv_marks:
  assumes "rv_inv s"
  obtains (idle) "idle s" | (marks) revision generation where "held_marks (rv_cm s) = Inr (Some (revision, generation))" "rv_ok (unat revision) s"
  using assms unfolding rv_inv_def by blast

lemma rv_inv_grant:
  assumes inv: "rv_inv s" and order: "in_order (rv_cm s) now" and grant: "grant plan now (rv_cm s) lease cm"
    and plan: "plan = plan_reserve \<or> plan = plan_renew last_used \<and> held_marks (rv_cm s) = Inr (Some (high, generation)) \<and> last_used \<le> high"
  obtains mark where "rv_ok mark s" "mark < unat (rl_first_revision lease) \<or> idle s" "mark \<le> unat (rl_last_revision lease)"
proof (rule rv_inv_marks [OF inv])
  assume "idle s"
  then show thesis
    using that [of 0] rv_ok_idle by auto
next
  fix revision generation'
  assume marks: "held_marks (rv_cm s) = Inr (Some (revision, generation'))" and ok: "rv_ok (unat revision) s"
  note past = grant_past_mark [OF grant order plan]
  show thesis
    using that [OF ok] past(3) [OF marks] past(1) by auto
qed

lemma rv_inv_start:
  assumes inv: "rv_inv s" and grant: "grant plan_reserve now (rv_cm s) lease cm" and order: "in_order (rv_cm s) now"
    and new: "revision_clock_new lease True = Inr c"
  shows "rv_inv (s\<lparr>rv_cm := cm, rv_clocks := (rv_clocks s)(pid \<mapsto> c), rv_generations := gs\<rparr>)"
proof -
  obtain mark where mark: "rv_ok mark s" "mark < unat (rl_first_revision lease) \<or> idle s" "mark \<le> unat (rl_last_revision lease)"
    by (rule rv_inv_grant [OF inv order grant]) auto
  note past = grant_past_mark(1,2) [OF grant order, of undefined undefined undefined]
  have c: "rc_next c = rl_first_revision lease" "rc_last c = rl_last_revision lease" "renewed_range c = None"
    using new by (auto simp: revision_clock_new_def renewed_range_def split: if_splits)
  have "rv_ok (unat (rl_last_revision lease)) (s\<lparr>rv_clocks := (rv_clocks s)(pid \<mapsto> c)\<rparr>)"
  proof (cases "idle s")
    case True
    with c past show ?thesis
      by (auto simp: idle_def rv_ok_def clock_ok_def)
  next
    case False
    with mark have "mark < unat (rl_first_revision lease)"
      by blast
    with mark c past show ?thesis
      by (intro rv_ok_update [OF mark(1)]) (auto simp: clock_ok_def available_def behind_def)
  qed
  then have "rv_ok (unat (rl_last_revision lease)) (s\<lparr>rv_cm := cm, rv_clocks := (rv_clocks s)(pid \<mapsto> c), rv_generations := gs\<rparr>)"
    by (rule rv_ok_cong [THEN iffD1, rotated 2]) simp_all
  then show ?thesis
    using grant_marks [OF grant] unfolding rv_inv_def by simp
qed

lemma rv_inv_busy:
  assumes "rv_inv s" "rv_clocks s pid = Some c"
  obtains high generation where "held_marks (rv_cm s) = Inr (Some (high, generation))" "rv_ok (unat high) s"
  using assms by (auto simp: rv_inv_def idle_def)

lemma rv_inv_renewed:
  assumes inv: "rv_inv s" and clock: "rv_clocks s pid = Some c" "rc_renewal c = Some Pending"
    and grant: "grant (plan_renew (rc_last c)) now (rv_cm s) lease cm" and order: "in_order (rv_cm s) now"
  shows "rv_inv (s\<lparr>rv_cm := cm, rv_clocks := (rv_clocks s)(pid \<mapsto>
      c\<lparr>rc_renewal := Some (Sent (Inr (rl_first_revision lease, rl_last_revision lease)))\<rparr>)\<rparr>)" (is "rv_inv ?s'")
proof -
  obtain high generation where marks: "held_marks (rv_cm s) = Inr (Some (high, generation))" "rv_ok (unat high) s"
    by (rule rv_inv_busy [OF inv clock(1)])
  have c: "clock_ok (unat high) c"
    using marks(2) clock(1) by (rule rv_okD)
  then have "plan_renew (rc_last c) = plan_renew (rc_last c) \<and> held_marks (rv_cm s) = Inr (Some (high, generation)) \<and> rc_last c \<le> high"
    using marks by (simp add: clock_ok_def word_le_nat_alt)
  note past = grant_past_mark [OF grant order disjI2 [OF this]]
  let ?c = "c\<lparr>rc_renewal := Some (Sent (Inr (rl_first_revision lease, rl_last_revision lease)))\<rparr>"
  have range: "renewed_range c = None" "renewed_range ?c = Some (rl_first_revision lease, rl_last_revision lease)"
    using clock(2) by (simp_all add: renewed_range_def)
  have "rv_ok (unat (rl_last_revision lease)) (s\<lparr>rv_clocks := (rv_clocks s)(pid \<mapsto> ?c)\<rparr>)"
    using past past(3) [OF marks(1)] c clock(1) range
    by (intro rv_ok_update [OF marks(2)]) (auto simp: clock_ok_def available_def behind_def word_le_nat_alt)
  then have "rv_ok (unat (rl_last_revision lease)) ?s'"
    by (rule rv_ok_cong [THEN iffD1, rotated 2]) simp_all
  then show ?thesis
    using grant_marks [OF grant] unfolding rv_inv_def by simp
qed

lemma rv_inv_step:
  assumes "rv_step in_order s s'" "rv_inv s"
  shows "rv_inv s'"
  using assms(1)
proof cases
  case (rv_start now lease cm pid c)
  with assms(2) show ?thesis
    by (simp add: rv_inv_start)
next
  case (rv_take pid c now revision c')
  obtain mark generation where "held_marks (rv_cm s) = Inr (Some (mark, generation))" "rv_ok (unat mark) s"
    by (rule rv_inv_busy [OF assms(2) rv_take(2)])
  with rv_ok_take [OF this(2) rv_take(2,3)] show ?thesis
    unfolding rv_take(1) rv_inv_def by auto
next
  case (rv_renewed pid c now lease cm)
  with assms(2) show ?thesis
    by (simp add: rv_inv_renewed)
next
  case (rv_renew_failed pid c answer e)
  have range: "renewed_range c = None" "renewed_range (c\<lparr>rc_renewal := Some answer\<rparr>) = None"
    using rv_renew_failed(3,4) by (auto simp: renewed_range_def)
  have "rv_ok mark (s\<lparr>rv_clocks := (rv_clocks s)(pid \<mapsto> c\<lparr>rc_renewal := Some answer\<rparr>)\<rparr>)" if "rv_ok mark s" for mark
    using rv_okD(1) [OF that rv_renew_failed(2)] range rv_renew_failed(2)
    by (intro rv_ok_update [OF that]) (auto simp: clock_ok_def available_def behind_def)
  with assms(2) rv_renew_failed(2) show ?thesis
    unfolding rv_renew_failed(1) by (auto simp: rv_inv_def idle_def)
next
  case (rv_wasted_start now lease cm)
  obtain mark where "rv_ok mark s" "mark \<le> unat (rl_last_revision lease)"
    by (rule rv_inv_grant [OF assms(2) rv_wasted_start(3,2)]) auto
  with grant_marks [OF rv_wasted_start(2)] show ?thesis
    unfolding rv_wasted_start(1) rv_inv_def by (auto intro: rv_ok_mono)
next
  case (rv_wasted_renewal high generation last_used now lease cm)
  obtain mark where "rv_ok mark s" "mark \<le> unat (rl_last_revision lease)"
    by (rule rv_inv_grant [OF assms(2) rv_wasted_renewal(5,4)]) (use rv_wasted_renewal(2,3) in auto)
  with grant_marks [OF rv_wasted_renewal(4)] show ?thesis
    unfolding rv_wasted_renewal(1) rv_inv_def by (auto intro: rv_ok_mono)
next
  case (rv_end pid)
  have "rv_ok mark (s\<lparr>rv_clocks := (rv_clocks s)(pid := None)\<rparr>)" if "rv_ok mark s" for mark
    using that unfolding rv_ok_def by auto
  with assms(2) show ?thesis
    unfolding rv_end by (auto simp: rv_inv_def idle_def)
qed

subsection \<open>Properties\<close>

text \<open>
  C6. However operator processes start, crash, renew and overlap, no revision is handed out twice, by
  one process or by two, and each process, also over its restarts, hands out its revisions in strictly
  increasing order, as long as no reservation finds the durable mark past what peers accept.
\<close>

theorem revisions_never_reused:
  assumes "rv_steps in_order (rv_init cm) s"
  shows "distinct (map snd (rv_taken s)) \<and> sorted_wrt (<) (revisions_of pid s)"
proof -
  have "rv_inv s"
    using assms
  proof (induction rule: rtranclp_induct)
    case base
    show ?case
      by (simp add: rv_inv_def idle_def rv_init_def)
  qed (rule rv_inv_step)
  then show ?thesis
    by (auto simp: rv_inv_def rv_ok_def idle_def)
qed

text \<open>The ranges reserved so far, below the mark in the store.\<close>

definition generations_ok :: "reservation \<Rightarrow> bool" where
  "generations_ok s \<longleftrightarrow> sorted_wrt (\<lambda>a b. snd a < fst b) (rv_generations s) \<and>
     (rv_generations s = [] \<or> (\<exists>revision generation. held_marks (rv_cm s) = Inr (Some (revision, generation)) \<and>
        (\<forall>(a, b)\<in>set (rv_generations s). a \<le> b \<and> b \<le> generation)))"

lemma generations_ok_renewal:
  assumes "generations_ok s" "grant (plan_renew last_used) now (rv_cm s) lease cm"
  shows "generations_ok (s\<lparr>rv_cm := cm, rv_clocks := clocks\<rparr>)"
proof -
  have "rl_last_node_generation lease = generation" if "held_marks (rv_cm s) = Inr (Some (revision, generation))" for revision generation
    using assms(2) that plan_renew_Inr(3) [of last_used now _ lease] by (auto simp: grant_def)
  with assms grant_marks [OF assms(2)] show ?thesis
    by (auto simp: generations_ok_def)
qed

lemma grant_generations:
  assumes "grant plan_reserve now (rv_cm s) lease cm" "held_marks (rv_cm s) = Inr (Some (revision, generation))"
  shows "generation < rl_first_node_generation lease" "rl_first_node_generation lease \<le> rl_last_node_generation lease"
proof -
  from assms have "plan_reserve now (Some (revision, generation)) = Inr lease"
    by (auto simp: grant_def)
  from plan_reserve_Inr(3,4) [OF this] show "generation < rl_first_node_generation lease"
    "rl_first_node_generation lease \<le> rl_last_node_generation lease"
    by (simp_all add: word_less_nat_alt word_le_nat_alt)
qed

lemma generations_ok_step: "rv_step ok s s' \<Longrightarrow> generations_ok s \<Longrightarrow> generations_ok s'"
proof (induction rule: rv_step.induct)
  case (rv_start now s lease cm pid c)
  have le: "rl_first_node_generation lease \<le> rl_last_node_generation lease"
    using rv_start(1) plan_reserve_Inr(3) by (fastforce simp: grant_def word_le_nat_alt)
  show ?case
  proof (cases "rv_generations s = []")
    case True
    with le grant_marks [OF rv_start(1)] show ?thesis
      by (simp add: generations_ok_def)
  next
    case False
    then obtain revision generation where marks: "held_marks (rv_cm s) = Inr (Some (revision, generation))"
      and bound: "\<forall>(a, b)\<in>set (rv_generations s). a \<le> b \<and> b \<le> generation"
      using rv_start.prems by (auto simp: generations_ok_def)
    note past = grant_generations [OF rv_start(1) marks]
    have "\<forall>(a, b)\<in>set (rv_generations s). a \<le> b \<and> b < rl_first_node_generation lease \<and> b \<le> rl_last_node_generation lease"
      using bound past by fastforce
    with rv_start.prems grant_marks [OF rv_start(1)] le show ?thesis
      by (auto simp: generations_ok_def sorted_wrt_append)
  qed
next
  case (rv_wasted_start now s lease cm)
  have "\<forall>(a, b)\<in>set (rv_generations s). a \<le> b \<and> b \<le> rl_last_node_generation lease"
    if "held_marks (rv_cm s) = Inr (Some (revision, generation))" "\<forall>(a, b)\<in>set (rv_generations s). a \<le> b \<and> b \<le> generation" for revision generation
    using that(2) grant_generations [OF rv_wasted_start(1) that(1)] by fastforce
  with rv_wasted_start.prems grant_marks [OF rv_wasted_start(1)] show ?case
    by (auto simp: generations_ok_def)
next
  case (rv_renewed s pid c now lease cm)
  then show ?case
    by (intro generations_ok_renewal)
next
  case (rv_wasted_renewal s high generation last_used now lease cm)
  then show ?case
    using generations_ok_renewal [of s last_used now lease cm "rv_clocks s"] by simp
qed (simp_all add: generations_ok_def)

text \<open>
  C38. The node generations reserved by different processes never overlap and only increase, with no
  condition on the clock: a reservation past the largest generation fails, and a renewal of revisions
  keeps the mark.
\<close>

theorem generations_disjoint:
  assumes "rv_steps (\<lambda>_ _. True) (rv_init cm) s"
  shows "sorted_wrt (\<lambda>a b. snd a < fst b) (rv_generations s) \<and> (\<forall>(a, b)\<in>set (rv_generations s). a \<le> b)"
proof -
  have "generations_ok s"
    using assms
  proof (induction rule: rtranclp_induct)
    case base
    show ?case
      by (simp add: generations_ok_def rv_init_def)
  qed (rule generations_ok_step)
  then show ?thesis
    by (auto simp: generations_ok_def)
qed

text \<open>
  Every range reserved, at startup or by a renewal, lies within what peers accept at that time: it
  starts no earlier than the clock, ends at most at the cap of a peer with the same clock, and has 256
  revisions.
\<close>

theorem leased_revisions_acceptable:
  assumes "unix_millis now = Inr now_ms"
    and "plan_reserve now held = Inr lease \<or> plan_renew last_used now held = Inr lease"
  shows "now_ms \<le> rl_first_revision lease \<and> rl_last_revision lease \<le> max_leased_revision now_ms \<and>
    unat (rl_last_revision lease) = unat (rl_first_revision lease) + 255"
proof -
  have start: "now_ms \<le> next_revision_start high now_ms \<and>
      (unat (next_revision_start high now_ms) + 255 < 2 ^ 64 \<longrightarrow>
       unat (next_revision_start high now_ms) + 255 \<le> unat (max_leased_revision now_ms))" for high
  proof (cases "reseeds high now_ms")
    case True
    then show ?thesis
      by (simp add: next_revision_start_eq unat_max_leased_revision)
  next
    case False
    then have "unat (saturating_add (max (saturating_add high 1) now_ms) (REVISION_LEASE_SIZE - 1)) \<le> unat (max_leased_revision now_ms)"
      by (simp add: reseeds_def not_less word_le_nat_alt)
    with False show ?thesis
      by (simp add: next_revision_start_eq unat_saturating_add REVISION_LEASE_SIZE_def REVISION_LEASE_SPAN_def min_def split: if_splits)
  qed
  have last: "unat (rl_last_revision lease) = unat (rl_first_revision lease) + 255"
    using assms(2) plan_reserve_Inr(2) plan_renew_Inr(2) by blast
  have "rl_first_revision lease = now_ms \<or> (\<exists>high. rl_first_revision lease = next_revision_start high now_ms)"
    using assms plan_reserve_Inr(1) [of now held lease] plan_renew_Inr(1) [of last_used now held lease]
    by (auto simp: start_of_def split: option.splits)
  with start last unat_lt_u64 [of "rl_last_revision lease"] show ?thesis
    by (auto simp: word_le_nat_alt unat_max_leased_revision)
qed

text \<open>
  The condition on the mark is needed: when the clock is set back by more than ten minutes, the third
  of three reservations gets the range of the first again.
\<close>

definition ex_lease :: "u64 \<Rightarrow> u64 \<Rightarrow> revision_lease" where
  "ex_lease revision generation = \<lparr>rl_first_revision = revision, rl_last_revision = revision + 255,
     rl_first_node_generation = generation, rl_last_node_generation = generation + 1048575\<rparr>"

theorem reseed_repeats_range:
  "plan_reserve 5000000000 None = Inr (ex_lease 5000 5000000000)"
  "plan_reserve 705000000000 (Some (5255, 5001048575)) = Inr (ex_lease 705000 705000000000)"
  "plan_reserve 5000000000 (Some (705255, 705001048575)) = Inr (ex_lease 5000 705001048576)"
  by (simp_all add: plan_reserve_def initial_revision_lease_def next_revision_lease_def plan_next_lease_def unix_millis_def
      unix_nanos_def lease_from_seeds_def revision_range_def next_revision_start_def checked_add_def saturating_add_def
      max_leased_revision_def u64_from_or_max_def REVISION_LEASE_SIZE_def REVISION_LEASE_SPAN_def
      NODE_GENERATION_LEASE_SIZE_def MAX_LEASE_SKEW_SECS_def ex_lease_def max_def)

subsection \<open>Witnesses\<close>

definition ex_clock :: "u64 \<Rightarrow> revision_clock" where
  "ex_clock n = \<lparr>rc_next = n, rc_last = 5255, rc_renewer = True, rc_renewal = None, rc_retry_at = None\<rparr>"

definition ex_reservation :: "u64 \<Rightarrow> (nat \<times> u64) list \<Rightarrow> reservation" where
  "ex_reservation n taken = \<lparr>rv_cm = Some \<lparr>cm_data = Some (revision_lease_data (ex_lease 5000 5000000000)), cm_version = 1\<rparr>,
     rv_clocks = [7 \<mapsto> ex_clock n], rv_taken = taken, rv_generations = [(5000000000, 5001048575)]\<rparr>"

lemma ex_clock_take:
  "clock_take 0 (ex_clock 5000) = (Some 5000, ex_clock 5001)" "clock_take 0 (ex_clock 5001) = (Some 5001, ex_clock 5002)"
  by (simp_all add: clock_take_def adopt_renewal_def ex_clock_def saturating_add_def saturating_sub_def REVISION_LEASE_SPAN_def)

lemma ex_reservation_steps:
  assumes "ok None 5000000000"
  shows "rv_steps ok (rv_init None) (ex_reservation 5002 [(7, 5000), (7, 5001)])"
proof -
  have "grant plan_reserve 5000000000 None (ex_lease 5000 5000000000)
      (Some \<lparr>cm_data = Some (revision_lease_data (ex_lease 5000 5000000000)), cm_version = 1\<rparr>)"
    unfolding grant_def by (intro exI [of _ None] exI [of _ 1]) (simp add: held_marks_def reseed_repeats_range)
  moreover have "revision_clock_new (ex_lease 5000 5000000000) True = Inr (ex_clock 5000)"
    by code_simp
  ultimately have start: "rv_step ok (rv_init None) (ex_reservation 5000 [])"
    using rv_start [of 5000000000 "rv_init None" "ex_lease 5000 5000000000" _ ok 7 "ex_clock 5000"] assms
    by (simp add: rv_init_def ex_reservation_def ex_lease_def)
  have "rv_step ok (ex_reservation 5000 []) (ex_reservation 5001 [(7, 5000)])"
    using rv_take [of "ex_reservation 5000 []" 7 "ex_clock 5000" 0 "Some 5000" "ex_clock 5001" ok] ex_clock_take
    by (simp add: ex_reservation_def)
  moreover have "rv_step ok (ex_reservation 5001 [(7, 5000)]) (ex_reservation 5002 [(7, 5000), (7, 5001)])"
    using rv_take [of "ex_reservation 5001 [(7, 5000)]" 7 "ex_clock 5001" 0 "Some 5001" "ex_clock 5002" ok] ex_clock_take
    by (simp add: ex_reservation_def)
  ultimately show ?thesis
    using start by (meson converse_rtranclp_into_rtranclp rtranclp.rtrancl_refl)
qed

theorem revisions_never_reused_witness:
  "rv_taken (ex_reservation 5002 [(7, 5000), (7, 5001)]) = [(7, 5000), (7, 5001)] \<and>
   distinct (map snd (rv_taken (ex_reservation 5002 [(7, 5000), (7, 5001)]))) \<and>
   sorted_wrt (<) (revisions_of 7 (ex_reservation 5002 [(7, 5000), (7, 5001)]))"
proof -
  have "in_order None 5000000000"
    by (simp add: in_order_def held_marks_def unix_millis_def)
  from revisions_never_reused [OF ex_reservation_steps [of in_order, OF this], of 7] show ?thesis
    by (simp add: ex_reservation_def)
qed

theorem generations_disjoint_witness:
  "rv_generations (ex_reservation 5002 [(7, 5000), (7, 5001)]) = [(5000000000, 5001048575)] \<and> (5000000000 :: u64) \<le> 5001048575"
  using generations_disjoint [OF ex_reservation_steps [of "\<lambda>_ _. True", OF TrueI]] by (simp add: ex_reservation_def)

end
