(* ===== verification/MemberMirror.thy ===== *)
theory MemberMirror
  imports SwimNode
begin

section \<open>The operator's mirror of the membership\<close>

text \<open>
  The membership records of \<^verbatim>\<open>crates/operator/src/swim.rs\<close> and the mirror that
  \<^verbatim>\<open>crates/operator/src/swim_runtime.rs\<close> keeps of the identities the membership protocol reports: a
  site is Alive while one of its identities is up. Instants and durations count nanoseconds. The
  node's events carry an address as text; \<open>addr_of\<close> reads it as a socket address, a type with the order
  the identities of a site are kept in, and \<open>show_addr\<close> writes it.
\<close>

subsection \<open>Membership records\<close>

datatype member_status = Alive | Suspect | Dead

record member_record =
  mr_site_id :: string
  mr_endpoint :: string
  mr_incarnation :: u64
  mr_status :: member_status
  mr_age_secs :: u64
  mr_gateway_address :: "string option"
  mr_site_cert_pem :: "string option"
  mr_signals_address :: "string option"

definition is_stale :: "u64 \<Rightarrow> member_record \<Rightarrow> bool" where
  "is_stale threshold_secs self \<longleftrightarrow> mr_age_secs self \<ge> threshold_secs"

type_synonym membership_snapshot = "member_record list"

definition connected_count :: "membership_snapshot \<Rightarrow> u32" where
  "connected_count members =
     (let n = length (filter (\<lambda>m. mr_status m = Alive) members)
      in if n < 2 ^ 32 then word_of_nat n else - 1)"

datatype grid_network_phase = NetworkActive | NetworkDegraded

definition phase_hint :: "membership_snapshot \<Rightarrow> grid_network_phase option" where
  "phase_hint members =
     (if members = [] then None
      else if list_ex (\<lambda>m. mr_status m = Alive) members then Some NetworkActive
      else Some NetworkDegraded)"

subsection \<open>One site\<close>

definition MAX_TRACKED_MEMBERS :: nat where
  "MAX_TRACKED_MEMBERS = 1024"

definition MAX_NON_ALIVE_MEMBERS :: nat where
  "MAX_NON_ALIVE_MEMBERS = 512"

definition MAX_IDENTITIES_PER_SITE :: nat where
  "MAX_IDENTITIES_PER_SITE = 16"

record 'a tracked_member =
  tm_site_id :: string
  tm_identities :: "(u64 \<times> 'a, nat option) fmap"
  tm_status_changed_at :: "nat option"
  tm_gateway_address :: "string option"
  tm_site_cert_pem :: "string option"

definition tracked_new :: "string \<Rightarrow> 'a tracked_member" where
  "tracked_new site_id = \<lparr>tm_site_id = site_id, tm_identities = fmempty, tm_status_changed_at = None,
     tm_gateway_address = None, tm_site_cert_pem = None\<rparr>"

definition is_alive :: "'a::linorder tracked_member \<Rightarrow> bool" where
  "is_alive self \<longleftrightarrow> list_ex (\<lambda>down. down = None) (fmvalues (tm_identities self))"

definition member_status_of :: "'a::linorder tracked_member \<Rightarrow> member_status" where
  "member_status_of self = (if is_alive self then Alive else Dead)"

definition current_identity :: "'a::linorder tracked_member \<Rightarrow> (u64 \<times> 'a) option" where
  "current_identity self =
     (let entries = rev (fmentries (tm_identities self))
      in case find (\<lambda>(_, down). down = None) entries of
           Some (identity, _) \<Rightarrow> Some identity
         | None \<Rightarrow> (case entries of [] \<Rightarrow> None | (identity, _) # _ \<Rightarrow> Some identity))"

definition refresh_status :: "nat \<Rightarrow> 'a::linorder tracked_member \<Rightarrow> 'a tracked_member" where
  "refresh_status now self =
     (if is_alive self then self\<lparr>tm_status_changed_at := None\<rparr>
      else if tm_status_changed_at self = None then self\<lparr>tm_status_changed_at := Some now\<rparr>
      else self)"

text \<open>The identity that went down first, with its instant.\<close>

definition oldest_down :: "'a::linorder tracked_member \<Rightarrow> (nat \<times> u64 \<times> 'a) option" where
  "oldest_down self =
     (case List.map_filter (\<lambda>(held, down). map_option (\<lambda>at. (at, held)) down) (fmentries (tm_identities self)) of
        [] \<Rightarrow> None
      | x # xs \<Rightarrow> Some (fold min xs x))"

definition record_identity ::
  "u64 \<times> 'a::linorder \<Rightarrow> bool \<Rightarrow> nat \<Rightarrow> 'a tracked_member \<Rightarrow> bool \<times> 'a tracked_member" where
  "record_identity identity up now self =
     (let full = (fmlookup (tm_identities self) identity = None \<and> fmcount (tm_identities self) \<ge> MAX_IDENTITIES_PER_SITE)
      in if full \<and> oldest_down self = None then (False, self)
         else
         let self = (if full then (case oldest_down self of None \<Rightarrow> self
                       | Some (_, held) \<Rightarrow> self\<lparr>tm_identities := fmdrop held (tm_identities self)\<rparr>) else self);
             down = (case fmlookup (tm_identities self) identity of None \<Rightarrow> Some now | Some down \<Rightarrow> down);
             down = (if up then None else if down = None then Some now else down)
         in (True, refresh_status now (self\<lparr>tm_identities := fmupd identity down (tm_identities self)\<rparr>)))"

definition age_secs :: "nat \<Rightarrow> nat \<Rightarrow> u64" where
  "age_secs now since = word_of_nat ((now - since) div 1000000000)"

definition to_member_record :: "('a::linorder \<Rightarrow> string) \<Rightarrow> nat \<Rightarrow> 'a tracked_member \<Rightarrow> member_record" where
  "to_member_record show_addr now self =
     \<lparr>mr_site_id = tm_site_id self,
      mr_endpoint = (case current_identity self of None \<Rightarrow> [] | Some (_, addr) \<Rightarrow> show_addr addr),
      mr_incarnation = 0, mr_status = member_status_of self,
      mr_age_secs = (case tm_status_changed_at self of None \<Rightarrow> 0 | Some t \<Rightarrow> age_secs now t),
      mr_gateway_address = tm_gateway_address self, mr_site_cert_pem = tm_site_cert_pem self,
      mr_signals_address = None\<rparr>"

subsection \<open>All sites\<close>

type_synonym 'a mirror = "(string, 'a tracked_member) fmap"

record peer_metadata =
  pm_gateway_addrs :: "(string, string) fmap"
  pm_cert_pems :: "(string, string) fmap"
  pm_signals_addrs :: "(string, string) fmap"

definition members_snapshot ::
  "('a::linorder \<Rightarrow> string) \<Rightarrow> 'a mirror \<Rightarrow> nat \<Rightarrow> peer_metadata \<Rightarrow> membership_snapshot" where
  "members_snapshot show_addr tracked now metadata =
     sort_key mr_site_id (map (\<lambda>t. (to_member_record show_addr now t)
       \<lparr>mr_gateway_address := fmlookup (pm_gateway_addrs metadata) (tm_site_id t),
        mr_site_cert_pem := fmlookup (pm_cert_pems metadata) (tm_site_id t),
        mr_signals_address := fmlookup (pm_signals_addrs metadata) (tm_site_id t)\<rparr>) (fmvalues tracked))"

definition has_aging_members :: "'a mirror \<Rightarrow> bool" where
  "has_aging_members tracked \<longleftrightarrow> list_ex (\<lambda>t. tm_status_changed_at t \<noteq> None) (fmvalues tracked)"

definition into_identity :: "(socket_addr \<Rightarrow> 'a) \<Rightarrow> member_event \<Rightarrow> bool \<times> string \<times> 'a \<times> u64" where
  "into_identity addr_of event = (case event of
     Joined site_name addr generation \<Rightarrow> (True, site_name, addr_of addr, generation)
   | Left site_name addr generation \<Rightarrow> (False, site_name, addr_of addr, generation))"

text \<open>\<open>clock\<close> is the wall clock the generation is compared with, \<open>now\<close> the instant.\<close>

definition unix_nanos_now :: "clock \<Rightarrow> u64" where
  "unix_nanos_now clock = (if clock < 0 then 0 else u64_from_or_max (nat clock))"

definition apply_member_event ::
  "(socket_addr \<Rightarrow> 'a::linorder) \<Rightarrow> clock \<Rightarrow> nat \<Rightarrow> member_event \<Rightarrow> 'a mirror \<Rightarrow> 'a mirror" where
  "apply_member_event addr_of clock now event tracked =
     (let (up, site, addr, generation) = into_identity addr_of event
      in if is_future_generation generation (unix_nanos_now clock) then tracked
         else case fmlookup tracked site of
           Some member \<Rightarrow>
             if \<not> up \<and> fmlookup (tm_identities member) (generation, addr) = None then tracked
             else fmupd site (snd (record_identity (generation, addr) up now member)) tracked
         | None \<Rightarrow> fmupd site (snd (record_identity (generation, addr) up now (tracked_new site))) tracked)"

definition apply_member_event_bounded ::
  "(socket_addr \<Rightarrow> 'a::linorder) \<Rightarrow> clock \<Rightarrow> nat \<Rightarrow> member_event \<Rightarrow> 'a mirror \<Rightarrow> 'a mirror" where
  "apply_member_event_bounded addr_of clock now event tracked =
     (if fmlookup tracked (me_site_name event) = None \<and> fmcount tracked \<ge> MAX_TRACKED_MEMBERS then tracked
      else apply_member_event addr_of clock now event tracked)"

text \<open>Pruning: first the identities that have been down for long, then whole sites.\<close>

definition retain_recent :: "nat \<Rightarrow> nat \<Rightarrow> 'a tracked_member \<Rightarrow> 'a tracked_member" where
  "retain_recent now dead_ttl member = member\<lparr>tm_identities :=
     fmretain (\<lambda>_ down. case down of None \<Rightarrow> True | Some at \<Rightarrow> now - at < dead_ttl) (tm_identities member)\<rparr>"

definition aged_sites :: "('a::linorder tracked_member \<Rightarrow> bool) \<Rightarrow> nat \<Rightarrow> 'a mirror \<Rightarrow> (nat \<times> string) list" where
  "aged_sites P now tracked = List.map_filter (\<lambda>(site, member). if P member
     then Some (case tm_status_changed_at member of None \<Rightarrow> now | Some at \<Rightarrow> at, site) else None) (fmentries tracked)"

definition prune_tracked_members :: "'a::linorder mirror \<Rightarrow> nat \<Rightarrow> nat \<Rightarrow> string list \<times> 'a mirror" where
  "prune_tracked_members tracked now dead_ttl =
     (let tracked = fmmap (retain_recent now dead_ttl) tracked;
          emptied = aged_sites (\<lambda>member. tm_identities member = fmempty) now tracked;
          dead = aged_sites (\<lambda>member. tm_identities member \<noteq> fmempty \<and> \<not> is_alive member) now tracked;
          excess = length dead - MAX_NON_ALIVE_MEMBERS;
          emptied = (if excess > 0 then emptied @ take excess (sort dead) else emptied);
          evicted = map snd (sort emptied)
      in (evicted, fold fmdrop evicted tracked))"

definition live_identity :: "(socket_addr \<Rightarrow> 'a) \<Rightarrow> node_id \<Rightarrow> u64 \<times> 'a" where
  "live_identity addr_of i = (nid_generation i, addr_of (nid_addr i))"

definition rebuilt ::
  "(socket_addr \<Rightarrow> 'a::linorder) \<Rightarrow> clock \<Rightarrow> nat \<Rightarrow> node_id list \<Rightarrow> string \<Rightarrow> 'a tracked_member" where
  "rebuilt addr_of clock now live site =
     fold (\<lambda>i member. if is_future_generation (nid_generation i) (unix_nanos_now clock) then member
                      else snd (record_identity (live_identity addr_of i) True now member))
       (filter (\<lambda>i. nid_site_name i = site) live) (tracked_new site)"

definition restore_from_foca ::
  "(socket_addr \<Rightarrow> 'a::linorder) \<Rightarrow> clock \<Rightarrow> nat \<Rightarrow> string list \<Rightarrow> node_id list \<Rightarrow> 'a mirror \<Rightarrow> string list \<times> 'a mirror" where
  "restore_from_foca addr_of clock now evicted live tracked =
     (filter (\<lambda>site. tm_identities (rebuilt addr_of clock now live site) = fmempty) evicted,
      fold (\<lambda>site tracked. if tm_identities (rebuilt addr_of clock now live site) = fmempty then tracked
                           else fmupd site (rebuilt addr_of clock now live site) tracked) evicted tracked)"

definition adopt_live_identity ::
  "(socket_addr \<Rightarrow> 'a::linorder) \<Rightarrow> clock \<Rightarrow> nat \<Rightarrow> node_id \<Rightarrow> bool \<times> 'a mirror \<Rightarrow> bool \<times> 'a mirror" where
  "adopt_live_identity addr_of clock now i state =
     (let (adopted, tracked) = state;
          identity = live_identity addr_of i;
          known = fmlookup tracked (nid_site_name i)
      in if is_future_generation (fst identity) (unix_nanos_now clock) \<or>
            (case known of None \<Rightarrow> False | Some member \<Rightarrow> fmlookup (tm_identities member) identity \<noteq> None) \<or>
            (known = None \<and> fmcount tracked \<ge> MAX_TRACKED_MEMBERS)
         then (adopted, tracked)
         else
         let member = (case known of None \<Rightarrow> tracked_new (nid_site_name i) | Some member \<Rightarrow> member);
             (done, member) = record_identity identity True now member
         in (adopted \<or> done, fmupd (nid_site_name i) member tracked))"

definition adopt_live_identities ::
  "(socket_addr \<Rightarrow> 'a::linorder) \<Rightarrow> clock \<Rightarrow> nat \<Rightarrow> node_id list \<Rightarrow> 'a mirror \<Rightarrow> bool \<times> 'a mirror" where
  "adopt_live_identities addr_of clock now live tracked = fold (adopt_live_identity addr_of clock now) live (False, tracked)"

text \<open>
  The membership part of the runtime's tick: prune, rebuild what the protocol still holds live, adopt
  what the mirror missed. The sites returned are gone for good; the flag is whether readers see a
  change.
\<close>

definition tick_members ::
  "(socket_addr \<Rightarrow> 'a::linorder) \<Rightarrow> clock \<Rightarrow> nat \<Rightarrow> nat \<Rightarrow> node_id list \<Rightarrow> 'a mirror \<Rightarrow> string list \<times> bool \<times> 'a mirror" where
  "tick_members addr_of clock now dead_ttl live tracked =
     (let (evicted, tracked) = prune_tracked_members tracked now dead_ttl;
          changed = (evicted \<noteq> []);
          (gone, tracked) = restore_from_foca addr_of clock now evicted live tracked;
          (adopted, tracked) = adopt_live_identities addr_of clock now live tracked
      in (gone, has_aging_members tracked \<or> changed \<or> adopted, tracked))"

subsection \<open>One site: recording an identity\<close>

lemma is_alive_iff: "is_alive m \<longleftrightarrow> (\<exists>k. fmlookup (tm_identities m) k = Some None)"
  by (auto simp: is_alive_def list_ex_iff)

lemma is_aliveI: "fmlookup (tm_identities m) k = Some None \<Longrightarrow> is_alive m"
  unfolding is_alive_iff by blast

lemma is_alive_changed [simp]: "is_alive (m\<lparr>tm_status_changed_at := t\<rparr>) = is_alive m"
  by (simp add: is_alive_def)

lemma refresh_status_simps [simp]:
  "tm_identities (refresh_status now m) = tm_identities m" "tm_site_id (refresh_status now m) = tm_site_id m"
  "is_alive (refresh_status now m) = is_alive m"
  "tm_status_changed_at (refresh_status now m) = None \<longleftrightarrow> is_alive m"
  by (simp_all add: refresh_status_def)

lemma fold_min_mem: "fold min xs x \<in> set (x # xs)"
  by (induction xs arbitrary: x) (auto simp: min_def split: if_splits)

lemma oldest_down_Some:
  assumes "oldest_down m = Some (at, held)"
  shows "fmlookup (tm_identities m) held = Some (Some at)"
proof -
  let ?downs = "List.map_filter (\<lambda>(held, down). map_option (\<lambda>at. (at, held)) down) (fmentries (tm_identities m))"
  from assms obtain x xs where "?downs = x # xs" "(at, held) = fold min xs x"
    by (auto simp: oldest_down_def split: list.splits)
  with fold_min_mem [of xs x] have "(at, held) \<in> set ?downs"
    by simp
  then show ?thesis
    by (auto simp: in_map_filter)
qed

lemma oldest_down_None: "oldest_down m = None \<Longrightarrow> fmlookup (tm_identities m) k = Some d \<Longrightarrow> d = None"
  by (cases d; cases k) (auto simp: oldest_down_def List.map_filter_def filter_empty_conv set_fmentries split: list.splits)

lemma fmcount_drop: "fmlookup m k = Some v \<Longrightarrow> fmcount (fmdrop k m) = fmcount m - 1"
  by (simp add: fmcount_def fcard_fminus_fsingleton fmlookup_dom_iff)

text \<open>A full site makes room by forgetting an identity that is down, never one that is up.\<close>

lemma record_identity_cases:
  fixes m :: "'a::linorder tracked_member"
  assumes "record_identity identity up now m = (done, m')" and bound: "fmcount (tm_identities m) \<le> MAX_IDENTITIES_PER_SITE"
  obtains (refused) "\<not> done" "m' = m" "\<And>k d. fmlookup (tm_identities m) k = Some d \<Longrightarrow> d = None"
      "fmcount (tm_identities m) \<ge> MAX_IDENTITIES_PER_SITE"
    | (recorded) ids down where "done" "m' = refresh_status now (m\<lparr>tm_identities := fmupd identity down ids\<rparr>)"
      "\<And>k. fmlookup (tm_identities m) k = Some None \<Longrightarrow> fmlookup ids k = Some None"
      "\<And>k d. fmlookup ids k = Some d \<Longrightarrow> fmlookup (tm_identities m) k = Some d" "up \<longleftrightarrow> down = None"
      "identity |\<in>| fmdom ids \<or> fmcount ids < MAX_IDENTITIES_PER_SITE" "fmcount ids \<le> fmcount (tm_identities m)"
proof -
  let ?ids = "tm_identities m"
  let ?full = "fmlookup ?ids identity = None \<and> fmcount ?ids \<ge> MAX_IDENTITIES_PER_SITE"
  define down where "down ids = (if up then None else case fmlookup ids identity of Some (Some at) \<Rightarrow> Some at | _ \<Rightarrow> Some now)" for ids
  have up: "down ids = None \<longleftrightarrow> up" for ids
    by (auto simp: down_def split: option.split)
  show thesis
  proof (cases ?full)
    case False
    have "done" "m' = refresh_status now (m\<lparr>tm_identities := fmupd identity (down ?ids) ?ids\<rparr>)"
      using assms(1) False by (auto simp: record_identity_def Let_def down_def split: option.splits)
    then show thesis
      by (rule recorded) (use False up in \<open>auto simp: fmlookup_dom_iff\<close>)
  next
    case full: True
    show thesis
    proof (cases "oldest_down m")
      case None
      then show thesis
        using assms full oldest_down_None [OF None] by (intro refused) (auto simp: record_identity_def Let_def)
    next
      case (Some oldest)
      obtain at held where oldest: "oldest = (at, held)"
        by (cases oldest)
      have held: "fmlookup ?ids held = Some (Some at)"
        using Some oldest by (simp add: oldest_down_Some)
      have "done" "m' = refresh_status now (m\<lparr>tm_identities := fmupd identity (down (fmdrop held ?ids)) (fmdrop held ?ids)\<rparr>)"
        using assms(1) full Some oldest by (auto simp: record_identity_def Let_def down_def split: option.splits)
      then show thesis
      proof (rule recorded)
        show "identity |\<in>| fmdom (fmdrop held ?ids) \<or> fmcount (fmdrop held ?ids) < MAX_IDENTITIES_PER_SITE"
          using bound by (auto simp: fmcount_drop [OF held] MAX_IDENTITIES_PER_SITE_def)
        show "fmcount (fmdrop held ?ids) \<le> fmcount ?ids"
          by (simp add: fmcount_drop [OF held])
      qed (use held up in \<open>auto split: if_splits\<close>)
    qed
  qed
qed

subsection \<open>The invariant\<close>

definition member_ok :: "string \<Rightarrow> 'a::linorder tracked_member \<Rightarrow> bool" where
  "member_ok site m \<longleftrightarrow> tm_site_id m = site \<and> fmcount (tm_identities m) \<le> MAX_IDENTITIES_PER_SITE \<and>
     tm_identities m \<noteq> fmempty \<and> (is_alive m \<longleftrightarrow> tm_status_changed_at m = None)"

definition mirror_ok :: "'a::linorder mirror \<Rightarrow> bool" where
  "mirror_ok tracked \<longleftrightarrow> fmcount tracked \<le> MAX_TRACKED_MEMBERS \<and>
     (\<forall>site m. fmlookup tracked site = Some m \<longrightarrow> member_ok site m)"

definition up_at :: "'a::linorder mirror \<Rightarrow> string \<Rightarrow> u64 \<times> 'a \<Rightarrow> bool" where
  "up_at tracked site k \<longleftrightarrow> (\<exists>m. fmlookup tracked site = Some m \<and> fmlookup (tm_identities m) k = Some None)"

definition non_alive :: "'a::linorder mirror \<Rightarrow> string set" where
  "non_alive tracked = {site. \<exists>m. fmlookup tracked site = Some m \<and> \<not> is_alive m}"

lemma fmupd_not_empty [simp]: "fmupd k v m \<noteq> fmempty"
  by (metis fmempty_lookup fmupd_lookup option.distinct(1))

lemma record_identity_ok:
  assumes "fmcount (tm_identities m) \<le> MAX_IDENTITIES_PER_SITE" "tm_site_id m = site"
    and "member_ok site m \<or> tm_identities m = fmempty"
  shows "member_ok site (snd (record_identity identity up now m))"
proof -
  obtain ok m' where r: "record_identity identity up now m = (ok, m')"
    by (cases "record_identity identity up now m")
  from r assms(1) show ?thesis
  proof (cases rule: record_identity_cases)
    case refused
    then have "tm_identities m \<noteq> fmempty"
      by (auto simp: MAX_IDENTITIES_PER_SITE_def)
    with assms refused show ?thesis
      by (simp add: r)
  next
    case (recorded ids down)
    from recorded(6,7) have "fmcount (fmupd identity down ids) \<le> MAX_IDENTITIES_PER_SITE"
      using assms(1) by (auto simp: fmcount_fmupd)
    with assms(2) recorded(2) show ?thesis
      by (simp add: r member_ok_def)
  qed
qed

lemma record_identity_new: "member_ok site (snd (record_identity identity up now (tracked_new site)))"
  by (rule record_identity_ok) (simp_all add: tracked_new_def)

lemma record_identity_keeps_up:
  assumes "fmcount (tm_identities m) \<le> MAX_IDENTITIES_PER_SITE" "fmlookup (tm_identities m) k = Some None" "up \<or> k \<noteq> identity"
  shows "fmlookup (tm_identities (snd (record_identity identity up now m))) k = Some None"
proof -
  obtain ok m' where r: "record_identity identity up now m = (ok, m')"
    by (cases "record_identity identity up now m")
  from r assms(1) show ?thesis
  proof (cases rule: record_identity_cases)
    case (recorded ids down)
    from recorded(3) [OF assms(2)] recorded(5) assms(3) show ?thesis
      unfolding r recorded(2) by auto
  next
    case refused
    from refused(2) assms(2) show ?thesis
      by (simp add: r)
  qed
qed

text \<open>Recorded as up, a site is Alive, unless it holds as many identities as it may, all of them up.\<close>

lemma record_identity_up_alive:
  assumes "fmcount (tm_identities m) \<le> MAX_IDENTITIES_PER_SITE"
  shows "is_alive (snd (record_identity identity True now m))"
proof -
  obtain ok m' where r: "record_identity identity True now m = (ok, m')"
    by (cases "record_identity identity True now m")
  from r assms show ?thesis
  proof (cases rule: record_identity_cases)
    case refused
    then have "tm_identities m \<noteq> fmempty"
      by (auto simp: MAX_IDENTITIES_PER_SITE_def)
    then obtain k d where "fmlookup (tm_identities m) k = Some d"
      by (metis fmap_eqI fmempty_lookup not_None_eq)
    then have "fmlookup (tm_identities m) k = Some None"
      using refused(3) [of k d] by simp
    then show ?thesis
      using refused(2) unfolding r is_alive_iff by (intro exI [of _ k]) simp
  next
    case (recorded ids down)
    from recorded(5) show ?thesis
      unfolding r recorded(2) is_alive_iff by (intro exI [of _ identity]) simp
  qed
qed

lemma mirror_ok_upd:
  assumes "mirror_ok tracked" "member_ok site m" "fmlookup tracked site \<noteq> None \<or> fmcount tracked < MAX_TRACKED_MEMBERS"
  shows "mirror_ok (fmupd site m tracked)"
  using assms by (auto simp: mirror_ok_def fmcount_fmupd fmlookup_dom_iff)

lemma mirror_okD: "mirror_ok tracked \<Longrightarrow> fmlookup tracked site = Some m \<Longrightarrow>
    member_ok site m \<and> fmcount (tm_identities m) \<le> MAX_IDENTITIES_PER_SITE \<and> tm_site_id m = site"
  by (auto simp: mirror_ok_def member_ok_def)

lemma mirror_ok_event: "mirror_ok tracked \<Longrightarrow> mirror_ok (apply_member_event_bounded addr_of clock now event tracked)"
proof -
  assume ok: "mirror_ok tracked"
  obtain up site addr generation where event: "into_identity addr_of event = (up, site, addr, generation)"
    by (cases "into_identity addr_of event")
  then have site: "me_site_name event = site"
    by (auto simp: into_identity_def split: member_event.splits)
  show ?thesis
  proof (cases "fmlookup tracked site")
    case None
    with ok event site show ?thesis
      by (auto simp: apply_member_event_bounded_def apply_member_event_def intro!: mirror_ok_upd record_identity_new)
  next
    case (Some m)
    with ok event site mirror_okD [OF ok Some] show ?thesis
      by (auto simp: apply_member_event_bounded_def apply_member_event_def intro!: mirror_ok_upd record_identity_ok)
  qed
qed

subsection \<open>Pruning\<close>

lemma retain_recent_up: "fmlookup (tm_identities (retain_recent now ttl m)) k = Some None \<longleftrightarrow> fmlookup (tm_identities m) k = Some None"
  by (auto simp: retain_recent_def split: option.splits)

lemma retain_recent_alive [simp]: "is_alive (retain_recent now ttl m) = is_alive m"
  by (simp add: is_alive_iff retain_recent_up)

lemma retain_recent_ok:
  "member_ok site m \<Longrightarrow> tm_identities (retain_recent now ttl m) \<noteq> fmempty \<Longrightarrow> member_ok site (retain_recent now ttl m)"
  unfolding member_ok_def retain_recent_alive
  by (auto simp: retain_recent_def intro: order.trans [OF fmcount_retain])

lemma fold_fmdrop_lookup [simp]: "fmlookup (fold fmdrop ks m) k = (if k \<in> set ks then None else fmlookup m k)"
  by (induction ks arbitrary: m) auto

lemma in_aged_sites: "site \<in> snd ` set (aged_sites P now t) \<longleftrightarrow> (\<exists>m. fmlookup t site = Some m \<and> P m)"
proof -
  have "(at, site) \<in> set (aged_sites P now t) \<longleftrightarrow>
      (\<exists>m. fmlookup t site = Some m \<and> P m \<and> at = (case tm_status_changed_at m of None \<Rightarrow> now | Some at \<Rightarrow> at))" for at
    unfolding aged_sites_def in_map_filter set_fmentries by (auto split: if_splits)
  then show ?thesis
    by (simp add: image_iff Bex_def)
qed

text \<open>What pruning evicts is not Alive, and what it leaves holds identities, with few dead sites.\<close>

lemma prune_facts:
  assumes "prune_tracked_members tracked now ttl = (evicted, tracked')"
  shows "site \<in> set evicted \<Longrightarrow> \<exists>m. fmlookup tracked site = Some m \<and> \<not> is_alive m"
    "fmlookup tracked' site = Some m' \<Longrightarrow> \<exists>m. fmlookup tracked site = Some m \<and> m' = retain_recent now ttl m \<and> tm_identities m' \<noteq> fmempty"
    "fmlookup tracked site = Some m \<Longrightarrow> site \<notin> set evicted \<Longrightarrow> fmlookup tracked' site = Some (retain_recent now ttl m)"
    "card (non_alive tracked') \<le> MAX_NON_ALIVE_MEMBERS"
proof -
  let ?t = "fmmap (retain_recent now ttl) tracked"
  let ?empty = "\<lambda>member. tm_identities member = fmempty"
  let ?emptied = "aged_sites ?empty now ?t"
  define dead where "dead = aged_sites (\<lambda>member. tm_identities member \<noteq> fmempty \<and> \<not> is_alive member) now ?t"
  define excess where "excess = length dead - MAX_NON_ALIVE_MEMBERS"
  have "evicted = map snd (sort (?emptied @ take excess (sort dead)))" and tracked': "tracked' = fold fmdrop evicted ?t"
    using assms by (auto simp: prune_tracked_members_def Let_def dead_def excess_def split: if_splits)
  then have evicted: "set evicted = snd ` set ?emptied \<union> snd ` set (take excess (sort dead))"
    by (simp add: image_Un)
  have not_alive: "?empty (retain_recent now ttl m) \<Longrightarrow> \<not> is_alive m" for m :: "'a tracked_member"
    using retain_recent_alive [of now ttl m] by (simp add: is_alive_iff)
  have dead: "snd ` set (sort dead) = {site. \<exists>m. fmlookup ?t site = Some m \<and> \<not> ?empty m \<and> \<not> is_alive m}"
    unfolding dead_def set_sort by (rule set_eqI) (simp only: in_aged_sites mem_Collect_eq)
  have "snd ` set (take excess (sort dead)) \<subseteq> snd ` set (sort dead)"
    by (intro image_mono set_take_subset)
  then show "\<exists>m. fmlookup tracked site = Some m \<and> \<not> is_alive m" if "site \<in> set evicted" for site
    using that evicted dead not_alive by (auto simp: in_aged_sites)
  show "\<exists>m. fmlookup tracked site = Some m \<and> m' = retain_recent now ttl m \<and> tm_identities m' \<noteq> fmempty"
    if "fmlookup tracked' site = Some m'" for site m'
    using that evicted by (auto simp: tracked' in_aged_sites split: if_splits)
  show "fmlookup tracked' site = Some (retain_recent now ttl m)" if "fmlookup tracked site = Some m" "site \<notin> set evicted" for site m
    using that by (simp add: tracked')
  have "non_alive tracked' \<subseteq> snd ` set (drop excess (sort dead))"
  proof
    fix site
    assume "site \<in> non_alive tracked'"
    then obtain m where m: "fmlookup ?t site = Some m" "\<not> is_alive m" "site \<notin> set evicted"
      by (auto simp: non_alive_def tracked' split: if_splits)
    then have "site \<in> snd ` set (sort dead)" "site \<notin> snd ` set (take excess (sort dead))"
      using evicted dead by (auto simp: in_aged_sites)
    moreover have "set (sort dead) = set (take excess (sort dead)) \<union> set (drop excess (sort dead))"
      by (metis append_take_drop_id set_append)
    ultimately show "site \<in> snd ` set (drop excess (sort dead))"
      by auto
  qed
  then have "card (non_alive tracked') \<le> card (snd ` set (drop excess (sort dead)))"
    by (intro card_mono) simp_all
  also have "\<dots> \<le> length (drop excess (sort dead))"
    by (metis card_image_le card_length finite_set order.trans)
  also have "\<dots> \<le> MAX_NON_ALIVE_MEMBERS"
    by (simp add: excess_def)
  finally show "card (non_alive tracked') \<le> MAX_NON_ALIVE_MEMBERS" .
qed

subsection \<open>Following the membership protocol\<close>

definition plausible :: "clock \<Rightarrow> node_id \<Rightarrow> bool" where
  "plausible clock i \<longleftrightarrow> \<not> is_future_generation (nid_generation i) (unix_nanos_now clock)"

definition alive_ok :: "string \<Rightarrow> 'a::linorder tracked_member \<Rightarrow> bool" where
  "alive_ok site m \<longleftrightarrow> member_ok site m \<and> is_alive m"

lemma record_up_alive_ok:
  "m = tracked_new site \<or> alive_ok site m \<Longrightarrow> alive_ok site (snd (record_identity identity True now m))"
  unfolding alive_ok_def
  by (auto simp: record_identity_new intro!: record_identity_ok record_identity_up_alive)
    (auto simp: member_ok_def tracked_new_def)

lemma rebuilt_facts:
  "rebuilt addr_of clock now live site = tracked_new site \<and> (\<forall>i\<in>set live. nid_site_name i = site \<longrightarrow> \<not> plausible clock i) \<or>
   alive_ok site (rebuilt addr_of clock now live site)"
proof (induction live rule: rev_induct)
  case Nil
  show ?case
    by (simp add: rebuilt_def)
next
  case (snoc i live)
  then show ?case
    using record_up_alive_ok [of "rebuilt addr_of clock now live site" site "live_identity addr_of i" now]
    by (auto simp: rebuilt_def plausible_def)
qed

lemma rebuilt_empty:
  assumes "tm_identities (rebuilt addr_of clock now live site) = fmempty" "i \<in> set live" "nid_site_name i = site"
  shows "\<not> plausible clock i"
  using rebuilt_facts [of addr_of clock now live site] assms by (auto simp: alive_ok_def member_ok_def)

lemma rebuilt_alive: "tm_identities (rebuilt addr_of clock now live site) \<noteq> fmempty \<Longrightarrow> alive_ok site (rebuilt addr_of clock now live site)"
  using rebuilt_facts [of addr_of clock now live site] by (auto simp: tracked_new_def)

lemma restore_lookup:
  "fmlookup (snd (restore_from_foca addr_of clock now evicted live tracked)) site =
     (if site \<in> set evicted \<and> tm_identities (rebuilt addr_of clock now live site) \<noteq> fmempty
      then Some (rebuilt addr_of clock now live site) else fmlookup tracked site)"
  by (induction evicted arbitrary: tracked) (auto simp: restore_from_foca_def)

text \<open>One live identity adopted.\<close>

lemma adopt_facts:
  assumes ok: "mirror_ok tracked" and adopt: "adopt_live_identity addr_of clock now i (b, tracked) = (b', tracked')"
  shows "mirror_ok tracked'" "up_at tracked site k \<Longrightarrow> up_at tracked' site k" "non_alive tracked' \<subseteq> non_alive tracked"
    "fmlookup tracked site \<noteq> None \<Longrightarrow> fmlookup tracked' site \<noteq> None"
proof -
  let ?site = "nid_site_name i" and ?identity = "live_identity addr_of i"
  let ?known = "case fmlookup tracked ?site of None \<Rightarrow> tracked_new ?site | Some member \<Rightarrow> member"
  let ?m = "snd (record_identity ?identity True now ?known)"
  consider (same) "tracked' = tracked"
    | (new) "tracked' = fmupd ?site ?m tracked" "fmlookup tracked ?site \<noteq> None \<or> fmcount tracked < MAX_TRACKED_MEMBERS"
    using adopt by (auto simp: adopt_live_identity_def Let_def case_prod_unfold split: if_splits)
  then have "mirror_ok tracked' \<and> (up_at tracked site k \<longrightarrow> up_at tracked' site k) \<and> non_alive tracked' \<subseteq> non_alive tracked \<and>
    (fmlookup tracked site \<noteq> None \<longrightarrow> fmlookup tracked' site \<noteq> None)"
  proof cases
    case new
    have known: "fmcount (tm_identities ?known) \<le> MAX_IDENTITIES_PER_SITE" "tm_site_id ?known = ?site"
      "member_ok ?site ?known \<or> tm_identities ?known = fmempty"
      using mirror_okD [OF ok, of ?site] by (auto simp: tracked_new_def split: option.split)
    have m: "member_ok ?site ?m" "is_alive ?m"
      by (rule record_identity_ok [OF known], rule record_identity_up_alive [OF known(1)])
    have "up_at tracked site k \<longrightarrow> up_at tracked' site k"
      using record_identity_keeps_up [OF known(1), of k True ?identity now] by (auto simp: new up_at_def)
    with m new ok show ?thesis
      by (auto simp: non_alive_def intro!: mirror_ok_upd)
  qed (use ok in simp)
  then show "mirror_ok tracked'" "up_at tracked site k \<Longrightarrow> up_at tracked' site k" "non_alive tracked' \<subseteq> non_alive tracked"
    "fmlookup tracked site \<noteq> None \<Longrightarrow> fmlookup tracked' site \<noteq> None"
    by blast+
qed

lemma adopt_all_facts:
  assumes "mirror_ok tracked" "fold (adopt_live_identity addr_of clock now) live (b, tracked) = (b', tracked')"
  shows "mirror_ok tracked' \<and> (up_at tracked site k \<longrightarrow> up_at tracked' site k) \<and> non_alive tracked' \<subseteq> non_alive tracked \<and>
    (fmlookup tracked site \<noteq> None \<longrightarrow> fmlookup tracked' site \<noteq> None)"
  using assms
proof (induction live arbitrary: b tracked)
  case (Cons i live)
  obtain b1 t1 where adopt: "adopt_live_identity addr_of clock now i (b, tracked) = (b1, t1)"
    by (cases "adopt_live_identity addr_of clock now i (b, tracked)")
  note facts = adopt_facts [OF Cons.prems(1) adopt]
  from Cons.IH [OF facts(1), of b1] Cons.prems(2) adopt facts show ?case
    by auto
qed simp

text \<open>Pruning followed by the restoration of what the membership protocol holds live.\<close>

lemma restored_ok:
  fixes tracked :: "'a::linorder mirror"
  assumes ok: "mirror_ok tracked" and prune: "prune_tracked_members tracked now ttl = (evicted, pruned)"
    and restored: "restored = snd (restore_from_foca addr_of clock now evicted live pruned)"
  shows "mirror_ok restored"
proof -
  let ?r = "\<lambda>site. rebuilt addr_of clock now live site"
  note facts = prune_facts [OF prune]
  have member: "member_ok site m" if "fmlookup restored site = Some m" for site m
  proof (cases "site \<in> set evicted \<and> tm_identities (?r site) \<noteq> fmempty")
    case True
    then show ?thesis
      using that rebuilt_alive [of addr_of clock now live site] by (auto simp: alive_ok_def restored restore_lookup)
  next
    case False
    then have "fmlookup pruned site = Some m"
      using that unfolding restored restore_lookup by presburger
    then obtain m0 where "fmlookup tracked site = Some m0" "m = retain_recent now ttl m0" "tm_identities m \<noteq> fmempty"
      using facts(2) by blast
    with mirror_okD [OF ok] show ?thesis
      using retain_recent_ok by blast
  qed
  have "fmlookup restored site = Some m \<Longrightarrow> fmlookup tracked site \<noteq> None" for site m
    using facts(1,2) by (fastforce simp: restored restore_lookup split: if_splits)
  then have "fmdom restored |\<subseteq>| fmdom tracked"
    by (auto simp: fmlookup_dom_iff)
  then show ?thesis
    using ok member fmcount_mono [of restored tracked] by (auto simp: mirror_ok_def)
qed

lemma restored_facts:
  fixes tracked :: "'a::linorder mirror"
  assumes prune: "prune_tracked_members tracked now ttl = (evicted, pruned)"
    and restored: "restored = snd (restore_from_foca addr_of clock now evicted live pruned)"
    and gone: "gone = fst (restore_from_foca addr_of clock now evicted live pruned)"
  shows "card (non_alive restored) \<le> MAX_NON_ALIVE_MEMBERS" "up_at tracked site k \<Longrightarrow> up_at restored site k"
    "site \<in> set gone \<Longrightarrow> i \<in> set live \<Longrightarrow> nid_site_name i = site \<Longrightarrow> \<not> plausible clock i"
    "fmlookup tracked site \<noteq> None \<Longrightarrow> site \<notin> set gone \<Longrightarrow> fmlookup restored site \<noteq> None"
    "site \<in> set gone \<Longrightarrow> \<exists>m. fmlookup tracked site = Some m \<and> \<not> is_alive m"
proof -
  note facts = prune_facts [OF prune]
  have gone: "gone = filter (\<lambda>site. tm_identities (rebuilt addr_of clock now live site) = fmempty) evicted"
    by (simp add: gone restore_from_foca_def)
  have "non_alive restored \<subseteq> non_alive pruned"
    using rebuilt_alive [of addr_of clock now live] by (auto simp: non_alive_def alive_ok_def restored restore_lookup split: if_splits)
  moreover have "finite (non_alive pruned)"
    by (rule finite_subset [of _ "fset (fmdom pruned)"]) (auto simp: non_alive_def fmlookup_dom_iff)
  ultimately show "card (non_alive restored) \<le> MAX_NON_ALIVE_MEMBERS"
    using facts(4) card_mono [of "non_alive pruned" "non_alive restored"] by simp
  show "up_at restored site k" if "up_at tracked site k" for site k
  proof -
    obtain m where m: "fmlookup tracked site = Some m" "fmlookup (tm_identities m) k = Some None"
      using \<open>up_at tracked site k\<close> by (auto simp: up_at_def)
    then have "site \<notin> set evicted"
      using is_aliveI [OF m(2)] facts(1) [of site] by auto
    then show ?thesis
      using m facts(3) by (simp add: up_at_def restored restore_lookup retain_recent_up)
  qed
  show "\<not> plausible clock i" if "site \<in> set gone" "i \<in> set live" "nid_site_name i = site" for site i
    using that(1) rebuilt_empty [of addr_of clock now live site, OF _ that(2,3)] by (simp add: gone)
  show "fmlookup restored site \<noteq> None" if "fmlookup tracked site \<noteq> None" "site \<notin> set gone" for site
    using that facts(3) by (auto simp: gone restored restore_lookup)
  show "\<exists>m. fmlookup tracked site = Some m \<and> \<not> is_alive m" if "site \<in> set gone" for site
    using that facts(1) by (auto simp: gone)
qed

text \<open>The whole tick.\<close>

lemma tick_facts:
  fixes tracked :: "'a::linorder mirror"
  assumes ok: "mirror_ok tracked" and tick: "tick_members addr_of clock now ttl live tracked = (gone, changed, tracked')"
  shows "mirror_ok tracked'" "card (non_alive tracked') \<le> MAX_NON_ALIVE_MEMBERS" "up_at tracked site k \<Longrightarrow> up_at tracked' site k"
    "site \<in> set gone \<Longrightarrow> i \<in> set live \<Longrightarrow> nid_site_name i = site \<Longrightarrow> \<not> plausible clock i"
    "fmlookup tracked site \<noteq> None \<Longrightarrow> site \<notin> set gone \<Longrightarrow> fmlookup tracked' site \<noteq> None"
    "site \<in> set gone \<Longrightarrow> \<exists>m. fmlookup tracked site = Some m \<and> \<not> is_alive m"
proof -
  obtain evicted pruned where prune: "prune_tracked_members tracked now ttl = (evicted, pruned)"
    by (cases "prune_tracked_members tracked now ttl")
  define restored where "restored = snd (restore_from_foca addr_of clock now evicted live pruned)"
  have gone: "gone = fst (restore_from_foca addr_of clock now evicted live pruned)"
    and "tracked' = snd (adopt_live_identities addr_of clock now live restored)"
    using tick by (auto simp: tick_members_def prune restored_def case_prod_unfold Let_def)
  then obtain b where "fold (adopt_live_identity addr_of clock now) live (False, restored) = (b, tracked')"
    by (cases "adopt_live_identities addr_of clock now live restored") (simp add: adopt_live_identities_def)
  note adopted = adopt_all_facts [OF restored_ok [OF ok prune restored_def] this]
  note facts = restored_facts [OF prune restored_def gone]
  have "finite (non_alive restored)"
    by (rule finite_subset [of _ "fset (fmdom restored)"]) (auto simp: non_alive_def fmlookup_dom_iff)
  then show "card (non_alive tracked') \<le> MAX_NON_ALIVE_MEMBERS"
    using facts(1) adopted card_mono [of "non_alive restored" "non_alive tracked'"] by fastforce
  show "mirror_ok tracked'" "up_at tracked site k \<Longrightarrow> up_at tracked' site k"
    "fmlookup tracked site \<noteq> None \<Longrightarrow> site \<notin> set gone \<Longrightarrow> fmlookup tracked' site \<noteq> None"
    using adopted facts(2,4) by blast+
  show "site \<in> set gone \<Longrightarrow> i \<in> set live \<Longrightarrow> nid_site_name i = site \<Longrightarrow> \<not> plausible clock i"
    by (rule facts(3))
  show "site \<in> set gone \<Longrightarrow> \<exists>m. fmlookup tracked site = Some m \<and> \<not> is_alive m"
    by (rule facts(5))
qed

text \<open>The steps the runtime takes with its mirror.\<close>

inductive mirror_step :: "(socket_addr \<Rightarrow> 'a::linorder) \<Rightarrow> 'a mirror \<Rightarrow> 'a mirror \<Rightarrow> bool" for addr_of where
  mirror_event: "mirror_step addr_of tracked (apply_member_event_bounded addr_of clock now event tracked)"
| mirror_tick: "mirror_step addr_of tracked (snd (snd (tick_members addr_of clock now ttl live tracked)))"

lemma mirror_ok_step: "mirror_step addr_of tracked tracked' \<Longrightarrow> mirror_ok tracked \<Longrightarrow> mirror_ok tracked'"
proof (induction rule: mirror_step.induct)
  case (mirror_tick tracked clock now ttl live)
  then show ?case
    using tick_facts(1) [of tracked addr_of clock now ttl live] by (metis prod.collapse)
qed (rule mirror_ok_event)

lemma mirror_ok_reachable: "(mirror_step addr_of)\<^sup>*\<^sup>* fmempty tracked \<Longrightarrow> mirror_ok tracked"
  by (induction rule: rtranclp_induct) (auto simp: mirror_ok_def [of fmempty] intro: mirror_ok_step)

subsection \<open>Properties\<close>

text \<open>
  C39. In every reachable state the mirror holds at most 1,024 sites with at most 16 identities each, every
  site has an identity, and a site's dead clock runs exactly while none of them is up; after a tick at
  most 512 sites are not Alive.
\<close>

theorem mirror_bounded:
  assumes "(mirror_step addr_of)\<^sup>*\<^sup>* fmempty tracked"
  shows "fmcount tracked \<le> 1024 \<and> card (non_alive (snd (snd (tick_members addr_of clock now ttl live tracked)))) \<le> 512 \<and>
    (\<forall>site m. fmlookup tracked site = Some m \<longrightarrow> tm_site_id m = site \<and> tm_identities m \<noteq> fmempty \<and>
       fmcount (tm_identities m) \<le> 16 \<and> (is_alive m \<longleftrightarrow> tm_status_changed_at m = None))"
proof -
  note ok = mirror_ok_reachable [OF assms]
  obtain gone changed tracked' where "tick_members addr_of clock now ttl live tracked = (gone, changed, tracked')"
    by (cases "tick_members addr_of clock now ttl live tracked")
  with tick_facts(2) [OF ok this] ok show ?thesis
    by (simp add: mirror_ok_def member_ok_def MAX_TRACKED_MEMBERS_def MAX_NON_ALIVE_MEMBERS_def MAX_IDENTITIES_PER_SITE_def)
qed

text \<open>
  C40. An identity that is up stays up, and its site Alive, through every tick and every event but the
  departure of that very identity: a late departure of an older identity never takes a site down.
\<close>

theorem live_identity_kept:
  assumes "(mirror_step addr_of)\<^sup>*\<^sup>* fmempty tracked" "up_at tracked site (generation, addr)"
    and "tracked' = snd (snd (tick_members addr_of clock now ttl live tracked)) \<or>
      (tracked' = apply_member_event_bounded addr_of clock now event tracked \<and>
       into_identity addr_of event \<noteq> (False, site, addr, generation))"
  shows "up_at tracked' site (generation, addr) \<and> member_status_of (the (fmlookup tracked' site)) = Alive"
proof -
  note ok = mirror_ok_reachable [OF assms(1)]
  have "up_at tracked' site (generation, addr)"
    using assms(3)
  proof
    assume "tracked' = snd (snd (tick_members addr_of clock now ttl live tracked))"
    then show ?thesis
      using tick_facts(3) [OF ok _ assms(2)] by (metis prod.collapse)
  next
    assume event: "tracked' = apply_member_event_bounded addr_of clock now event tracked \<and>
       into_identity addr_of event \<noteq> (False, site, addr, generation)"
    obtain up site' addr' generation' where id: "into_identity addr_of event = (up, site', addr', generation')"
      by (cases "into_identity addr_of event")
    obtain m where m: "fmlookup tracked site = Some m" "fmlookup (tm_identities m) (generation, addr) = Some None"
      using assms(2) by (auto simp: up_at_def)
    have "fmcount (tm_identities m) \<le> MAX_IDENTITIES_PER_SITE"
      using mirror_okD [OF ok m(1)] by simp
    from record_identity_keeps_up [OF this m(2)] event id m show ?thesis
      by (auto simp: up_at_def apply_member_event_bounded_def apply_member_event_def split: option.splits)
  qed
  then show ?thesis
    by (auto simp: up_at_def member_status_of_def dest: is_aliveI)
qed

text \<open>
  A tick evicts for good only sites with no identity up, and none that the membership protocol
  still holds live under a generation that is not from the future; every other site stays in the mirror.
\<close>

theorem live_site_kept:
  assumes "(mirror_step addr_of)\<^sup>*\<^sup>* fmempty tracked"
    and "tick_members addr_of clock now ttl live tracked = (gone, changed, tracked')" "fmlookup tracked (nid_site_name i) = Some m"
    and "is_alive m \<or> i \<in> set live \<and> \<not> is_future_generation (nid_generation i) (unix_nanos_now clock)"
  shows "nid_site_name i \<notin> set gone \<and> fmlookup tracked' (nid_site_name i) \<noteq> None"
proof -
  note facts = tick_facts [OF mirror_ok_reachable [OF assms(1)] assms(2)]
  have "nid_site_name i \<notin> set gone"
    using facts(4) [of "nid_site_name i" i] facts(6) [of "nid_site_name i"] assms(3,4) by (auto simp: plausible_def)
  with facts(5) [of "nid_site_name i"] assms(3) show ?thesis
    by simp
qed

subsection \<open>Witnesses\<close>

text \<open>A site joins under a new generation after an old one; then the old identity departs.\<close>

definition ex_mirror :: "string mirror" where
  "ex_mirror = apply_member_event_bounded id 9 2 (Joined ''west'' ''w:2'' 7)
     (apply_member_event_bounded id 9 1 (Joined ''west'' ''w:1'' 5) fmempty)"

lemma ex_mirror_steps: "(mirror_step id)\<^sup>*\<^sup>* fmempty ex_mirror"
  unfolding ex_mirror_def by (meson mirror_event rtranclp.rtrancl_into_rtrancl rtranclp.rtrancl_refl)

definition ex_west :: "string tracked_member" where
  "ex_west = \<lparr>tm_site_id = ''west'', tm_identities = fmupd (7, ''w:2'') None (fmupd (5, ''w:1'') None fmempty),
     tm_status_changed_at = None, tm_gateway_address = None, tm_site_cert_pem = None\<rparr>"

lemma ex_record_west: "record_identity (g, a) True now m =
    (True, m\<lparr>tm_identities := fmupd (g, a) None (tm_identities m), tm_status_changed_at := None\<rparr>)"
  if "fmcount (tm_identities m) < 16"
proof -
  have "is_alive (m\<lparr>tm_identities := fmupd (g, a) None (tm_identities m)\<rparr>)"
    by (rule is_aliveI [of _ "(g, a)"]) simp
  with that show ?thesis
    by (simp add: record_identity_def Let_def MAX_IDENTITIES_PER_SITE_def refresh_status_def)
qed

lemma ex_mirror_eq: "ex_mirror = fmupd ''west'' ex_west fmempty"
  by (rule fmap_eqI)
    (simp add: ex_mirror_def apply_member_event_bounded_def apply_member_event_def into_identity_def unix_nanos_now_def
      is_future_generation_def saturating_add_def skew_nanos_def u64_from_or_max_def MAX_LEASE_SKEW_SECS_def
      tracked_new_def ex_record_west MAX_TRACKED_MEMBERS_def ex_west_def fmcount_fmupd)

lemma ex_mirror_up: "up_at ex_mirror ''west'' (7, ''w:2'')"
  by (simp add: up_at_def ex_mirror_eq ex_west_def)

theorem mirror_bounded_witness: "fmcount ex_mirror \<le> 1024 \<and> fmlookup ex_mirror ''west'' = Some ex_west \<and> fmcount (tm_identities ex_west) \<le> 16"
  using mirror_bounded [OF ex_mirror_steps] by (simp add: ex_mirror_eq)

theorem live_identity_kept_witness:
  "up_at (apply_member_event_bounded id 9 3 (Left ''west'' ''w:1'' 5) ex_mirror) ''west'' (7, ''w:2'')"
proof -
  let ?event = "Left ''west'' ''w:1'' 5"
  have "apply_member_event_bounded id 9 3 ?event ex_mirror = snd (snd (tick_members id 9 3 0 [] ex_mirror)) \<or>
      (apply_member_event_bounded id 9 3 ?event ex_mirror = apply_member_event_bounded id 9 3 ?event ex_mirror \<and>
       into_identity id ?event \<noteq> (False, ''west'', ''w:2'', 7))"
    by (simp add: into_identity_def)
  from live_identity_kept [OF ex_mirror_steps ex_mirror_up this] show ?thesis
    by blast
qed

end
