(* ===== verification/GridTrust.thy ===== *)
theory GridTrust
  imports NodeTrust
begin

section \<open>The grids an operator enforces\<close>

text \<open>
  \<^verbatim>\<open>GridTrust\<close> and \<^verbatim>\<open>EnforcedGrid\<close> of \<^verbatim>\<open>crates/operator/src/swim_runtime.rs\<close>: the trust snapshots of the
  controllers become pins of the node, and the local key signs what the site publishes. The invariant
  ties the two together: the grids enforced are the strict ones of the node, with the pins of the last
  snapshot and no others.
\<close>

subsection \<open>Updates and state\<close>

type_synonym peer_pins = "(string, bytes list) fmap"

record grid_trust_snapshot =
  gts_grid_id :: string
  gts_network_name :: string
  gts_local_signing_key :: "bytes option"
  gts_peer_pins :: "peer_pins option"

datatype grid_trust_update = Enforce grid_trust_snapshot | Off string | AllowStateAdmission

record enforced_grid =
  eg_network_name :: "string option"
  eg_signing_key :: "bytes option"
  eg_peer_sites :: "string fset"

definition enforced_grid_default :: enforced_grid where
  "enforced_grid_default = \<lparr>eg_network_name = None, eg_signing_key = None, eg_peer_sites = {||}\<rparr>"

type_synonym grid_trust = "(string, enforced_grid) fmap"

text \<open>The signing primitives of \<^verbatim>\<open>swim::signing\<close>: the public key of a private key, and a signature.\<close>

record signer =
  sg_public_key :: "bytes \<Rightarrow> string + bytes"
  sg_sign :: "bytes \<Rightarrow> bytes \<Rightarrow> string + bytes"

text \<open>What is documented of them: a signature verifies under the public key.\<close>

definition signer_lawful :: "handler_env \<Rightarrow> signer \<Rightarrow> bool" where
  "signer_lawful env sg \<longleftrightarrow> (\<forall>key public data signature. sg_public_key sg key = Inr public \<longrightarrow>
     sg_sign sg key data = Inr signature \<longrightarrow> he_verify env public data signature)"

subsection \<open>Installing a snapshot\<close>

definition install_signer ::
  "signer \<Rightarrow> string \<Rightarrow> string \<Rightarrow> bytes option \<Rightarrow> enforced_grid \<Rightarrow> ('f, 't) swim_node \<Rightarrow> enforced_grid \<times> ('f, 't) swim_node" where
  "install_signer sg site_name grid_id key self node =
     (if eg_signing_key self = key then (self, node)
      else
      let self = self\<lparr>eg_signing_key := None\<rparr>
      in case key of
           None \<Rightarrow> (self, unpin_origin_for_grid grid_id site_name node)
         | Some key \<Rightarrow>
             (case sg_public_key sg key of
                Inl _ \<Rightarrow> (self, unpin_origin_for_grid grid_id site_name node)
              | Inr public_key \<Rightarrow>
                  (case pin_origin_for_grid grid_id site_name [public_key] node of
                     (Inl _, node) \<Rightarrow> (self, node)
                   | (Inr _, node) \<Rightarrow> (self\<lparr>eg_signing_key := Some key\<rparr>, node))))"

text \<open>One peer of the snapshot, and the pins of all of them; the code iterates in any order over a set.\<close>

definition install_peer_pin ::
  "string \<Rightarrow> string \<times> bytes list \<Rightarrow> string fset \<times> ('f, 't) swim_node \<Rightarrow> string fset \<times> ('f, 't) swim_node" where
  "install_peer_pin grid_id peer state =
     (let (origin, keys) = peer; (installed, node) = state
      in case pin_origin_for_grid grid_id origin keys node of
           (Inr _, node) \<Rightarrow> (finsert origin installed, node)
         | (Inl _, node) \<Rightarrow> (installed, unpin_origin_for_grid grid_id origin node))"

definition install_peer_pins ::
  "string \<Rightarrow> peer_pins \<Rightarrow> enforced_grid \<Rightarrow> ('f, 't) swim_node \<Rightarrow> enforced_grid \<times> ('f, 't) swim_node" where
  "install_peer_pins grid_id peer_pins self node =
     (let current = fmdom peer_pins;
          node = fold (clear_origin_pin_for_grid grid_id) (sorted_list_of_fset (eg_peer_sites self |-| current)) node;
          (installed, node) = fold (install_peer_pin grid_id) (fmentries peer_pins) ({||}, node)
      in (self\<lparr>eg_peer_sites := installed\<rparr>, node))"

definition trust_relax :: "string \<Rightarrow> grid_trust \<times> ('f, 't) swim_node \<Rightarrow> grid_trust \<times> ('f, 't) swim_node" where
  "trust_relax grid_id state =
     (let (self, node) = state
      in if fmlookup self grid_id \<noteq> None then (fmdrop grid_id self, relax_signed_grid grid_id node) else (self, node))"

text \<open>The grid's entry, with signer and peers dropped when it is bound to another network.\<close>

definition enforced_entry :: "string \<Rightarrow> string \<Rightarrow> grid_trust \<Rightarrow> enforced_grid" where
  "enforced_entry grid_id network_name self =
     (let grid = (case fmlookup self grid_id of None \<Rightarrow> enforced_grid_default | Some grid \<Rightarrow> grid)
      in if eg_network_name grid \<noteq> Some network_name
         then grid\<lparr>eg_network_name := Some network_name, eg_signing_key := None, eg_peer_sites := {||}\<rparr>
         else grid)"

definition trust_enforce ::
  "signer \<Rightarrow> string \<Rightarrow> grid_trust_snapshot \<Rightarrow> grid_trust \<times> ('f, 't) swim_node \<Rightarrow> grid_trust \<times> ('f, 't) swim_node" where
  "trust_enforce sg site_name snapshot state =
     (let (self, node) = state;
          grid_id = gts_grid_id snapshot;
          node = enforce_signed_grid grid_id (gts_network_name snapshot) node;
          grid = enforced_entry grid_id (gts_network_name snapshot) self;
          (grid, node) = install_signer sg site_name grid_id (gts_local_signing_key snapshot) grid node;
          (grid, node) = (case gts_peer_pins snapshot of
             None \<Rightarrow> (grid, node) | Some peer_pins \<Rightarrow> install_peer_pins grid_id peer_pins grid node)
      in (fmupd grid_id grid self, node))"

definition trust_apply ::
  "signer \<Rightarrow> string \<Rightarrow> grid_trust_update \<Rightarrow> grid_trust \<times> ('f, 't) swim_node \<Rightarrow> grid_trust \<times> ('f, 't) swim_node" where
  "trust_apply sg site_name update state =
     (let (self, node) = (case update of
            Off grid_id \<Rightarrow> trust_relax grid_id state
          | Enforce snapshot \<Rightarrow> trust_enforce sg site_name snapshot state
          | AllowStateAdmission \<Rightarrow> state)
      in (self, open_state_admission node))"

subsection \<open>Signing\<close>

definition trust_sign :: "codec \<Rightarrow> signer \<Rightarrow> clock \<Rightarrow> grid_trust \<Rightarrow> state_broadcast \<Rightarrow> string + state_broadcast" where
  "trust_sign c sg now self broadcast =
     (let broadcast = broadcast\<lparr>sb_signature := None, sb_signed_at_ms := None\<rparr>
      in case sb_grid_id broadcast of
           None \<Rightarrow> Inr broadcast
         | Some grid_id \<Rightarrow>
             (case fmlookup self grid_id of
                None \<Rightarrow> Inr broadcast
              | Some grid \<Rightarrow>
                  (case eg_signing_key grid of
                     None \<Rightarrow> Inl (''local signing identity is unavailable for grid '' @ grid_id)
                   | Some key \<Rightarrow>
                       let broadcast = broadcast\<lparr>sb_signed_at_ms := Some (wall_ms now)\<rparr>
                       in try_bind (signable_bytes c broadcast) (\<lambda>bytes.
                          try_bind (sg_sign sg key bytes) (\<lambda>signature.
                          Inr (broadcast\<lparr>sb_signature := Some signature\<rparr>))))))"

definition per_strict_grid ::
  "codec \<Rightarrow> signer \<Rightarrow> clock \<Rightarrow> grid_trust \<Rightarrow> state_broadcast \<Rightarrow> (string + state_broadcast) list" where
  "per_strict_grid c sg now self broadcast =
     (if self = fmempty then [Inr broadcast]
      else map (\<lambda>grid_id. trust_sign c sg now self (with_grid_id (Some grid_id) broadcast)) (fmkeys self))"

subsection \<open>What the updates do to the trust store\<close>

lemma trust_of_ops [simp]:
  "trust_of (unpin_origin_for_grid grid site n) = set_pin (PinGrid grid site) [] (trust_of n)"
  "trust_of (clear_origin_pin_for_grid grid site n) = remove_pin (PinGrid grid site) (trust_of n)"
  "trust_of (relax_signed_grid grid n) = forget_grid grid (trust_of n)"
  "trust_of (open_state_admission n) = store_open_admission (trust_of n)"
  "trust_of (hold_state_admission n) = store_hold_admission (trust_of n)"
  "trust_of (enforce_signed_grid grid network n) =
     (if is_strict (trust_of n) grid \<and> provider_network (trust_of n) grid = Some network then trust_of n
      else bind_provider_network grid network (enforce grid (forget_grid grid (trust_of n))))"
  by (simp_all add: unpin_origin_for_grid_def clear_origin_pin_for_grid_def relax_signed_grid_def open_state_admission_def
      hold_state_admission_def enforce_signed_grid_def send_modify_def Let_def)

lemma pin_origin_for_grid_store:
  "fst (pin_origin_for_grid grid site keys n) =
     (if length keys > MAX_PINNED_KEYS_PER_ORIGIN then Inl (TooManyPinnedKeys site (length keys)) else Inr ())"
  "trust_of (snd (pin_origin_for_grid grid site keys n)) =
     (if length keys > MAX_PINNED_KEYS_PER_ORIGIN then trust_of n else set_pin (PinGrid grid site) keys (trust_of n))"
  by (simp_all add: pin_origin_for_grid_def send_modify_def Let_def)

text \<open>The keys a site is pinned to in a grid; a revoked site and one without a pin have none.\<close>

definition pinned :: "trust_store \<Rightarrow> string \<Rightarrow> string \<Rightarrow> bytes list" where
  "pinned store grid site = (case trust_pin store (PinGrid grid site) of None \<Rightarrow> [] | Some keys \<Rightarrow> keys)"

lemma pinned_simps [simp]:
  "pinned (set_pin (PinGrid grid site) keys store) grid' site' =
     (if grid' = grid \<and> site' = site then keys else pinned store grid' site')"
  "pinned (remove_pin (PinGrid grid site) store) grid' site' =
     (if grid' = grid \<and> site' = site then [] else pinned store grid' site')"
  "pinned (forget_grid grid store) grid' site' = (if grid' = grid then [] else pinned store grid' site')"
  "pinned (enforce grid store) grid' site' = pinned store grid' site'"
  "pinned (bind_provider_network grid network store) grid' site' = pinned store grid' site'"
  "pinned (store_open_admission store) grid' site' = pinned store grid' site'"
  "pinned (store_hold_admission store) grid' site' = pinned store grid' site'"
  by (simp_all add: pinned_def)

text \<open>The keys of a snapshot that are accepted for a peer: a set of more than two is refused.\<close>

definition accepted_keys :: "peer_pins \<Rightarrow> string \<Rightarrow> bytes list" where
  "accepted_keys pins site = (case fmlookup pins site of None \<Rightarrow> []
     | Some keys \<Rightarrow> if length keys > MAX_PINNED_KEYS_PER_ORIGIN then [] else keys)"

definition own_keys :: "signer \<Rightarrow> bytes option \<Rightarrow> bytes list" where
  "own_keys sg key = (case key of None \<Rightarrow> [] | Some key \<Rightarrow> (case sg_public_key sg key of Inl _ \<Rightarrow> [] | Inr public \<Rightarrow> [public]))"

text \<open>Two trust stores that differ in the pins of one grid at most.\<close>

definition same_but :: "string \<Rightarrow> trust_store \<Rightarrow> trust_store \<Rightarrow> bool" where
  "same_but grid store store' \<longleftrightarrow> (\<forall>g. is_strict store' g = is_strict store g \<and> provider_network store' g = provider_network store g) \<and>
     (\<forall>key. (\<forall>site. key \<noteq> PinGrid grid site) \<longrightarrow> trust_pin store' key = trust_pin store key)"

lemma same_but_refl [simp]: "same_but grid store store"
  by (simp add: same_but_def)

lemma same_but_trans: "same_but grid a b \<Longrightarrow> same_but grid b c \<Longrightarrow> same_but grid a c"
  by (simp add: same_but_def)

lemma same_but_pin [simp]:
  "same_but grid store (set_pin (PinGrid grid site) keys store)" "same_but grid store (remove_pin (PinGrid grid site) store)"
  by (simp_all add: same_but_def)

lemma same_butD:
  assumes "same_but grid store store'"
  shows "is_strict store' g = is_strict store g" "provider_network store' g = provider_network store g"
    and "g \<noteq> grid \<Longrightarrow> trust_pin store' (PinGrid g site) = trust_pin store (PinGrid g site)"
    and "g \<noteq> grid \<Longrightarrow> pinned store' g site = pinned store g site"
  using assms by (auto simp: same_but_def pinned_def)

lemma install_signer_facts:
  assumes "install_signer sg site grid_id key grid n = (grid', n')"
    and "pinned (trust_of n) grid_id site = own_keys sg (eg_signing_key grid)"
    and "eg_signing_key grid \<noteq> None \<Longrightarrow> own_keys sg (eg_signing_key grid) \<noteq> []"
  shows "same_but grid_id (trust_of n) (trust_of n')"
    and "pinned (trust_of n') grid_id origin = (if origin = site then own_keys sg key else pinned (trust_of n) grid_id origin)"
    and "eg_network_name grid' = eg_network_name grid" "eg_peer_sites grid' = eg_peer_sites grid"
    and "eg_signing_key grid' = (if own_keys sg key = [] then None else key)"
  using assms
  by (auto simp: install_signer_def own_keys_def pin_origin_for_grid_store MAX_PINNED_KEYS_PER_ORIGIN_def Let_def
      pin_origin_for_grid_def send_modify_def split: if_splits option.splits sum.splits)

lemma clear_pins_facts:
  "same_but grid_id (trust_of n) (trust_of (fold (clear_origin_pin_for_grid grid_id) sites n)) \<and>
   pinned (trust_of (fold (clear_origin_pin_for_grid grid_id) sites n)) grid_id origin =
     (if origin \<in> set sites then [] else pinned (trust_of n) grid_id origin)"
proof (induction sites arbitrary: n)
  case (Cons site sites)
  from Cons.IH [of "clear_origin_pin_for_grid grid_id site n"]
    same_but_trans [OF same_but_pin(2) [of grid_id "trust_of n" site]] show ?case
    by auto
qed simp

lemma install_peer_pin_facts:
  assumes "install_peer_pin grid_id (origin, keys) (installed, n) = (installed', n')"
  shows "same_but grid_id (trust_of n) (trust_of n')"
    and "pinned (trust_of n') grid_id site = (if site \<noteq> origin then pinned (trust_of n) grid_id site
      else if length keys > MAX_PINNED_KEYS_PER_ORIGIN then [] else keys)"
    and "installed' = (if length keys > MAX_PINNED_KEYS_PER_ORIGIN then installed else finsert origin installed)"
  using assms pin_origin_for_grid_store [of grid_id origin keys n]
  by (auto simp: install_peer_pin_def split: prod.splits sum.splits if_splits)

lemma install_pins_fold:
  assumes "fold (install_peer_pin grid_id) peers (installed, n) = (installed', n')" "distinct (map fst peers)"
  shows "same_but grid_id (trust_of n) (trust_of n') \<and>
    pinned (trust_of n') grid_id site = (case map_of peers site of None \<Rightarrow> pinned (trust_of n) grid_id site
      | Some keys \<Rightarrow> if length keys > MAX_PINNED_KEYS_PER_ORIGIN then [] else keys) \<and>
    (site |\<in>| installed' \<longleftrightarrow> site |\<in>| installed \<or>
      (\<exists>keys. map_of peers site = Some keys \<and> length keys \<le> MAX_PINNED_KEYS_PER_ORIGIN))"
  using assms
proof (induction peers arbitrary: installed n)
  case (Cons peer peers)
  obtain origin keys where peer: "peer = (origin, keys)"
    by (cases peer)
  obtain installed1 n1 where one: "install_peer_pin grid_id (origin, keys) (installed, n) = (installed1, n1)"
    by (cases "install_peer_pin grid_id (origin, keys) (installed, n)")
  have fresh: "map_of peers origin = None"
    using Cons.prems(2) by (simp add: peer map_of_eq_None_iff)
  have rest: "fold (install_peer_pin grid_id) peers (installed1, n1) = (installed', n')" "distinct (map fst peers)"
    using Cons.prems one by (simp_all add: peer)
  note facts = install_peer_pin_facts [OF one]
  note rest = Cons.IH [OF rest]
  from rest facts(2,3) same_but_trans [OF facts(1)] fresh show ?case
    by (cases "site = origin"; cases "length keys > MAX_PINNED_KEYS_PER_ORIGIN") (auto simp: peer split: option.splits)
qed simp

lemma install_peer_pins_facts:
  assumes "install_peer_pins grid_id pins grid n = (grid', n')"
    and "\<And>origin. origin |\<notin>| eg_peer_sites grid \<Longrightarrow> origin \<noteq> site \<Longrightarrow> pinned (trust_of n) grid_id origin = []"
    and "site |\<notin>| eg_peer_sites grid" "site |\<notin>| fmdom pins"
  shows "same_but grid_id (trust_of n) (trust_of n')"
    and "pinned (trust_of n') grid_id origin = (if origin = site then pinned (trust_of n) grid_id site else accepted_keys pins origin)"
    and "eg_network_name grid' = eg_network_name grid" "eg_signing_key grid' = eg_signing_key grid"
    and "origin |\<in>| eg_peer_sites grid' \<longleftrightarrow> (\<exists>keys. fmlookup pins origin = Some keys \<and> length keys \<le> MAX_PINNED_KEYS_PER_ORIGIN)"
proof -
  let ?n = "fold (clear_origin_pin_for_grid grid_id) (sorted_list_of_fset (eg_peer_sites grid |-| fmdom pins)) n"
  obtain installed where fold: "fold (install_peer_pin grid_id) (fmentries pins) ({||}, ?n) = (installed, n')"
    and grid': "grid' = grid\<lparr>eg_peer_sites := installed\<rparr>"
    using assms(1) by (auto simp: install_peer_pins_def Let_def split: prod.splits)
  note cleared = clear_pins_facts [of grid_id n "sorted_list_of_fset (eg_peer_sites grid |-| fmdom pins)"]
  note facts = install_pins_fold [OF fold distinct_fmentries_keys, unfolded map_of_fmentries]
  show "same_but grid_id (trust_of n) (trust_of n')"
    using facts cleared by (blast intro: same_but_trans)
  show "eg_network_name grid' = eg_network_name grid" "eg_signing_key grid' = eg_signing_key grid"
    by (simp_all add: grid')
  show "origin |\<in>| eg_peer_sites grid' \<longleftrightarrow> (\<exists>keys. fmlookup pins origin = Some keys \<and> length keys \<le> MAX_PINNED_KEYS_PER_ORIGIN)"
    using facts [of origin] by (simp add: grid')
  show "pinned (trust_of n') grid_id origin = (if origin = site then pinned (trust_of n) grid_id site else accepted_keys pins origin)"
  proof (cases "fmlookup pins origin")
    case None
    with facts [of origin] cleared [of origin] assms(2-4) show ?thesis
      by (auto simp: accepted_keys_def fmdom_notI)
  next
    case (Some keys)
    with facts [of origin] assms(4) show ?thesis
      by (auto simp: accepted_keys_def fmdomI)
  qed
qed

subsection \<open>The invariant and the contract\<close>

text \<open>
  An enforced grid is strict and bound to its network; this site is pinned to the public key of its
  signer, and the other sites with keys are the peers recorded.
\<close>

definition grid_ok :: "signer \<Rightarrow> string \<Rightarrow> trust_store \<Rightarrow> string \<Rightarrow> enforced_grid \<Rightarrow> bool" where
  "grid_ok sg site store grid_id grid \<longleftrightarrow> is_strict store grid_id \<and>
     eg_network_name grid \<noteq> None \<and> provider_network store grid_id = eg_network_name grid \<and>
     pinned store grid_id site = own_keys sg (eg_signing_key grid) \<and>
     (eg_signing_key grid \<noteq> None \<longrightarrow> own_keys sg (eg_signing_key grid) \<noteq> []) \<and>
     (\<forall>origin. origin |\<notin>| eg_peer_sites grid \<longrightarrow> origin \<noteq> site \<longrightarrow> pinned store grid_id origin = []) \<and>
     site |\<notin>| eg_peer_sites grid"

definition trust_ok :: "signer \<Rightarrow> string \<Rightarrow> grid_trust \<Rightarrow> trust_store \<Rightarrow> bool" where
  "trust_ok sg site self store \<longleftrightarrow>
     (\<forall>grid_id. is_strict store grid_id \<longleftrightarrow> fmlookup self grid_id \<noteq> None) \<and>
     (\<forall>grid_id grid. fmlookup self grid_id = Some grid \<longrightarrow> grid_ok sg site store grid_id grid)"

lemma trust_okD:
  assumes "trust_ok sg site self store"
  shows "is_strict store grid_id \<longleftrightarrow> fmlookup self grid_id \<noteq> None"
    and "fmlookup self grid_id = Some grid \<Longrightarrow> grid_ok sg site store grid_id grid"
  using assms by (simp_all add: trust_ok_def)

lemma grid_ok_cong:
  assumes "is_strict store' g = is_strict store g" "provider_network store' g = provider_network store g"
    and "\<And>origin. pinned store' g origin = pinned store g origin"
  shows "grid_ok sg site store' g grid \<longleftrightarrow> grid_ok sg site store g grid"
  by (simp add: grid_ok_def assms)

text \<open>Pins of this site come from its signer only: the snapshots carry the keys of peers.\<close>

definition update_ok :: "string \<Rightarrow> grid_trust_update \<Rightarrow> bool" where
  "update_ok site update = (case update of
     Enforce snapshot \<Rightarrow> (case gts_peer_pins snapshot of None \<Rightarrow> True | Some pins \<Rightarrow> site |\<notin>| fmdom pins)
   | _ \<Rightarrow> True)"

text \<open>
  The contract: a policy gives every enforced grid its network and the keys of each site. An update
  replaces the policy of its grid; without peer pins, those of the same network are kept.
\<close>

record grid_policy =
  gp_network :: string
  gp_keys :: "string \<Rightarrow> bytes list"

definition policy :: "trust_store \<Rightarrow> string \<Rightarrow> grid_policy option" where
  "policy store grid_id = (if is_strict store grid_id
     then Some \<lparr>gp_network = the (provider_network store grid_id), gp_keys = pinned store grid_id\<rparr> else None)"

definition peer_keys :: "grid_trust_snapshot \<Rightarrow> grid_policy option \<Rightarrow> string \<Rightarrow> bytes list" where
  "peer_keys snapshot held origin = (case gts_peer_pins snapshot of
     Some pins \<Rightarrow> accepted_keys pins origin
   | None \<Rightarrow> (case held of
       None \<Rightarrow> []
     | Some p \<Rightarrow> if gp_network p = gts_network_name snapshot then gp_keys p origin else []))"

definition policy_update ::
  "signer \<Rightarrow> string \<Rightarrow> grid_trust_update \<Rightarrow> (string \<Rightarrow> grid_policy option) \<Rightarrow> string \<Rightarrow> grid_policy option" where
  "policy_update sg site update P = (case update of
     Enforce snapshot \<Rightarrow> P(gts_grid_id snapshot \<mapsto> \<lparr>gp_network = gts_network_name snapshot,
       gp_keys = (\<lambda>origin. if origin = site then own_keys sg (gts_local_signing_key snapshot)
                           else peer_keys snapshot (P (gts_grid_id snapshot)) origin)\<rparr>)
   | Off grid_id \<Rightarrow> P(grid_id := None)
   | AllowStateAdmission \<Rightarrow> P)"

lemma policy_cong:
  assumes "is_strict store' g = is_strict store g" "provider_network store' g = provider_network store g"
    and "\<And>origin. pinned store' g origin = pinned store g origin"
  shows "policy store' g = policy store g"
proof -
  have "pinned store' g = pinned store g"
    using assms(3) by (rule ext)
  with assms(1,2) show ?thesis
    by (simp add: policy_def)
qed

text \<open>After the node enforced the grid, the entry fits it, with the peers of the same network kept.\<close>

lemma enforced_entry_ok:
  assumes "trust_ok sg site self (trust_of n)"
  shows "grid_ok sg site (trust_of (enforce_signed_grid grid_id network n)) grid_id (enforced_entry grid_id network self)"
    and "provider_network (trust_of (enforce_signed_grid grid_id network n)) grid_id = Some network"
    and "pinned (trust_of (enforce_signed_grid grid_id network n)) grid_id origin =
      (case policy (trust_of n) grid_id of None \<Rightarrow> [] | Some p \<Rightarrow> if gp_network p = network then gp_keys p origin else [])"
proof -
  let ?store = "trust_of (enforce_signed_grid grid_id network n)"
  have "grid_ok sg site ?store grid_id (enforced_entry grid_id network self) \<and>
    pinned ?store grid_id origin = (case policy (trust_of n) grid_id of None \<Rightarrow> []
      | Some p \<Rightarrow> if gp_network p = network then gp_keys p origin else [])"
  proof (cases "fmlookup self grid_id")
    case None
    with trust_okD(1) [OF assms, of grid_id] show ?thesis
      by (simp add: grid_ok_def enforced_entry_def enforced_grid_default_def own_keys_def policy_def)
  next
    case (Some grid)
    then have strict: "is_strict (trust_of n) grid_id"
      using trust_okD(1) [OF assms] by simp
    show ?thesis
    proof (cases "eg_network_name grid = Some network")
      case True
      with Some strict trust_okD(2) [OF assms Some] show ?thesis
        by (auto simp: grid_ok_def enforced_entry_def policy_def)
    next
      case False
      with Some strict trust_okD(2) [OF assms Some] show ?thesis
        by (auto simp: grid_ok_def enforced_entry_def policy_def own_keys_def)
    qed
  qed
  then show "grid_ok sg site ?store grid_id (enforced_entry grid_id network self)"
    "pinned ?store grid_id origin = (case policy (trust_of n) grid_id of None \<Rightarrow> []
      | Some p \<Rightarrow> if gp_network p = network then gp_keys p origin else [])"
    by simp_all
  show "provider_network ?store grid_id = Some network"
    by simp
qed

text \<open>The signer and the peers, over an entry that fits the node.\<close>

lemma install_snapshot_ok:
  assumes ok: "grid_ok sg site (trust_of n) grid_id grid"
    and "install_signer sg site grid_id (gts_local_signing_key snapshot) grid n = (grid1, n1)"
    and "(case gts_peer_pins snapshot of None \<Rightarrow> (grid1, n1) | Some pins \<Rightarrow> install_peer_pins grid_id pins grid1 n1) = (grid2, n2)"
    and "update_ok site (Enforce snapshot)"
  shows "same_but grid_id (trust_of n) (trust_of n2)" "grid_ok sg site (trust_of n2) grid_id grid2"
    and "pinned (trust_of n2) grid_id origin = (if origin = site then own_keys sg (gts_local_signing_key snapshot)
      else case gts_peer_pins snapshot of None \<Rightarrow> pinned (trust_of n) grid_id origin | Some pins \<Rightarrow> accepted_keys pins origin)"
proof -
  have own: "pinned (trust_of n) grid_id site = own_keys sg (eg_signing_key grid)"
    "eg_signing_key grid \<noteq> None \<Longrightarrow> own_keys sg (eg_signing_key grid) \<noteq> []"
    using ok by (simp_all add: grid_ok_def)
  note signed = install_signer_facts [OF assms(2) own]
  have key: "own_keys sg (if own_keys sg key = [] then None else key) = own_keys sg key" for key
    by (simp add: own_keys_def)
  have one: "grid_ok sg site (trust_of n1) grid_id grid1"
    using ok key by (simp add: grid_ok_def same_butD [OF signed(1)] signed)
  have "same_but grid_id (trust_of n) (trust_of n2) \<and> grid_ok sg site (trust_of n2) grid_id grid2 \<and>
    pinned (trust_of n2) grid_id origin = (if origin = site then own_keys sg (gts_local_signing_key snapshot)
      else case gts_peer_pins snapshot of None \<Rightarrow> pinned (trust_of n) grid_id origin | Some pins \<Rightarrow> accepted_keys pins origin)"
  proof (cases "gts_peer_pins snapshot")
    case None
    with assms(3) one signed show ?thesis
      by simp
  next
    case (Some pins)
    with assms(3,4) have pins: "install_peer_pins grid_id pins grid1 n1 = (grid2, n2)" "site |\<notin>| fmdom pins"
      by (simp_all add: update_ok_def)
    have peers: "pinned (trust_of n1) grid_id o' = []" if "o' |\<notin>| eg_peer_sites grid1" "o' \<noteq> site" for o'
      using one that by (simp add: grid_ok_def)
    have "site |\<notin>| eg_peer_sites grid1"
      using one by (simp add: grid_ok_def)
    note facts = install_peer_pins_facts [OF pins(1) peers this pins(2)]
    have none: "fmlookup pins site = None"
      using pins(2) by (rule fmdom_notD)
    have "grid_ok sg site (trust_of n2) grid_id grid2"
      using one none by (auto simp: grid_ok_def same_butD [OF facts(1)] facts accepted_keys_def split: option.split)
    with Some signed facts same_but_trans [OF signed(1) facts(1)] show ?thesis
      by simp
  qed
  then show "same_but grid_id (trust_of n) (trust_of n2)" "grid_ok sg site (trust_of n2) grid_id grid2"
    "pinned (trust_of n2) grid_id origin = (if origin = site then own_keys sg (gts_local_signing_key snapshot)
      else case gts_peer_pins snapshot of None \<Rightarrow> pinned (trust_of n) grid_id origin | Some pins \<Rightarrow> accepted_keys pins origin)"
    by blast+
qed

lemma enforce_other_grid:
  assumes "g \<noteq> grid_id"
  shows "is_strict (trust_of (enforce_signed_grid grid_id network n)) g = is_strict (trust_of n) g"
    "provider_network (trust_of (enforce_signed_grid grid_id network n)) g = provider_network (trust_of n) g"
    "pinned (trust_of (enforce_signed_grid grid_id network n)) g origin = pinned (trust_of n) g origin"
  using assms by simp_all

lemma trust_enforce_ok:
  assumes "trust_ok sg site self (trust_of n)" "update_ok site (Enforce snapshot)"
    and "trust_enforce sg site snapshot (self, n) = (self', n')"
  shows "trust_ok sg site self' (trust_of n')"
    and "policy (trust_of n') = policy_update sg site (Enforce snapshot) (policy (trust_of n))"
proof -
  let ?g = "gts_grid_id snapshot" and ?network = "gts_network_name snapshot"
  note entry = enforced_entry_ok [OF assms(1), where grid_id = ?g and network = ?network]
  obtain grid1 n1 where signer: "install_signer sg site ?g (gts_local_signing_key snapshot) (enforced_entry ?g ?network self)
      (enforce_signed_grid ?g ?network n) = (grid1, n1)"
    by (cases "install_signer sg site ?g (gts_local_signing_key snapshot) (enforced_entry ?g ?network self)
      (enforce_signed_grid ?g ?network n)")
  obtain grid2 where peers: "(case gts_peer_pins snapshot of None \<Rightarrow> (grid1, n1) | Some pins \<Rightarrow> install_peer_pins ?g pins grid1 n1) = (grid2, n')"
    and self': "self' = fmupd ?g grid2 self"
    using assms(3) signer by (auto simp: trust_enforce_def Let_def split: prod.splits)
  note facts = install_snapshot_ok [OF entry(1) signer peers assms(2)]
  have same: "is_strict (trust_of n') g = is_strict (trust_of n) g" "provider_network (trust_of n') g = provider_network (trust_of n) g"
    "pinned (trust_of n') g origin = pinned (trust_of n) g origin" if "g \<noteq> ?g" for g origin
    using enforce_other_grid [OF that] same_butD [OF facts(1)] that by metis+
  have here: "is_strict (trust_of n') ?g" "provider_network (trust_of n') ?g = Some ?network"
    using facts(2) same_butD(2) [OF facts(1)] entry(2) by (simp_all add: grid_ok_def)
  show "trust_ok sg site self' (trust_of n')"
    using trust_okD [OF assms(1)] facts(2) here(1) same grid_ok_cong [OF same]
    by (auto simp: trust_ok_def self' split: if_splits)
  show "policy (trust_of n') = policy_update sg site (Enforce snapshot) (policy (trust_of n))"
  proof
    fix g
    show "policy (trust_of n') g = policy_update sg site (Enforce snapshot) (policy (trust_of n)) g"
    proof (cases "g = ?g")
      case True
      have "pinned (trust_of n') ?g = (\<lambda>origin. if origin = site then own_keys sg (gts_local_signing_key snapshot)
          else peer_keys snapshot (policy (trust_of n) ?g) origin)"
        by (rule ext) (unfold facts(3) entry(3) peer_keys_def, rule refl)
      with True here show ?thesis
        by (simp add: policy_def policy_update_def)
    next
      case False
      with policy_cong [OF same] show ?thesis
        by (simp add: policy_update_def)
    qed
  qed
qed

lemma trust_apply_ok:
  assumes "trust_ok sg site self (trust_of n)" "update_ok site update" "trust_apply sg site update (self, n) = (self', n')"
  shows "trust_ok sg site self' (trust_of n')" "policy (trust_of n') = policy_update sg site update (policy (trust_of n))"
proof -
  obtain n1 where step: "(case update of Off grid_id \<Rightarrow> trust_relax grid_id (self, n)
      | Enforce snapshot \<Rightarrow> trust_enforce sg site snapshot (self, n) | AllowStateAdmission \<Rightarrow> (self, n)) = (self', n1)"
    and n': "n' = open_state_admission n1"
    using assms(3) by (auto simp: trust_apply_def Let_def split: prod.splits)
  have opened: "policy (trust_of n') = policy (trust_of n1)" "trust_ok sg site self' (trust_of n') \<longleftrightarrow> trust_ok sg site self' (trust_of n1)"
    by (simp_all add: n' trust_ok_def grid_ok_def policy_def fun_eq_iff)
  have "trust_ok sg site self' (trust_of n1) \<and> policy (trust_of n1) = policy_update sg site update (policy (trust_of n))"
  proof (cases update)
    case (Enforce snapshot)
    with trust_enforce_ok [OF assms(1), of snapshot self' n1] assms(2) step show ?thesis
      by simp
  next
    case (Off grid_id)
    show ?thesis
    proof (cases "fmlookup self grid_id")
      case None
      with Off step assms(1) trust_okD(1) [OF assms(1), of grid_id] show ?thesis
        by (auto simp: trust_relax_def policy_update_def policy_def fun_eq_iff)
    next
      case (Some grid)
      with Off step have n1: "self' = fmdrop grid_id self" "trust_of n1 = forget_grid grid_id (trust_of n)"
        by (auto simp: trust_relax_def)
      have "grid_ok sg site (trust_of n1) g grid' \<longleftrightarrow> grid_ok sg site (trust_of n) g grid'" if "g \<noteq> grid_id" for g grid'
        using that by (intro grid_ok_cong) (simp_all add: n1)
      with trust_okD [OF assms(1)] have "trust_ok sg site self' (trust_of n1)"
        by (auto simp: trust_ok_def n1(1)) (simp_all add: n1(2))
      moreover have "policy (trust_of n1) g = policy_update sg site update (policy (trust_of n)) g" for g
      proof (cases "g = grid_id")
        case False
        then have "policy (trust_of n1) g = policy (trust_of n) g"
          by (intro policy_cong) (simp_all add: n1)
        with False Off show ?thesis
          by (simp add: policy_update_def)
      qed (simp add: Off policy_update_def policy_def n1)
      ultimately show ?thesis
        by blast
    qed
  next
    case AllowStateAdmission
    with step assms(1) show ?thesis
      by (simp add: policy_update_def)
  qed
  with opened show "trust_ok sg site self' (trust_of n')" "policy (trust_of n') = policy_update sg site update (policy (trust_of n))"
    by simp_all
qed

text \<open>The updates are operations of the node.\<close>

lemma fold_node_steps:
  assumes "\<And>x n. x \<in> set xs \<Longrightarrow> node_steps env api n (f x n)"
  shows "node_steps env api n (fold f xs n)"
  using assms
proof (induction xs arbitrary: n)
  case (Cons x xs)
  have "node_steps env api (f x n) (fold f xs (f x n))"
    by (rule Cons.IH) (simp add: Cons.prems)
  with Cons.prems [of x n] show ?case
    by (simp add: rtranclp_trans)
qed simp

lemma install_signer_steps:
  "node_steps env api n (snd (install_signer sg site grid_id key grid n))"
  using node_unpin_grid [of env api n grid_id site] node_pin_grid [of env api n grid_id site]
  by (auto simp: install_signer_def Let_def r_into_rtranclp case_prod_unfold split: option.split sum.split)

lemma install_peer_pin_steps:
  "node_steps env api (snd state) (snd (install_peer_pin grid_id peer state))"
proof -
  obtain origin keys installed n where eq: "peer = (origin, keys)" "state = (installed, n)"
    by (cases peer; cases state)
  have pin: "node_steps env api n (snd (pin_origin_for_grid grid_id origin keys n))"
    by (rule r_into_rtranclp) (rule node_pin_grid)
  then have "node_steps env api n (unpin_origin_for_grid grid_id origin (snd (pin_origin_for_grid grid_id origin keys n)))"
    by (rule rtranclp.rtrancl_into_rtrancl) (rule node_unpin_grid)
  with pin show ?thesis
    by (simp add: eq install_peer_pin_def Let_def case_prod_unfold split: sum.split)
qed

lemma install_peer_pins_steps:
  "node_steps env api n (snd (install_peer_pins grid_id pins grid n))"
proof -
  let ?n = "fold (clear_origin_pin_for_grid grid_id) (sorted_list_of_fset (eg_peer_sites grid |-| fmdom pins)) n"
  have clear: "node_steps env api n ?n"
    by (rule fold_node_steps) (rule r_into_rtranclp, rule node_clear_pin)
  have "node_steps env api (snd state) (snd (fold (install_peer_pin grid_id) peers state))" for peers state
  proof (induction peers arbitrary: state)
    case (Cons peer peers)
    with install_peer_pin_steps [of env api state grid_id peer] show ?case
      by (metis fold_simps(2) rtranclp_trans)
  qed simp
  from this [of "({||}, ?n)" "fmentries pins"] clear show ?thesis
    by (simp add: install_peer_pins_def Let_def case_prod_unfold)
qed

lemma trust_apply_steps: "node_steps env api (snd state) (snd (trust_apply sg site update state))"
proof -
  obtain self n where state: "state = (self, n)"
    by (cases state)
  have "node_steps env api n (snd (trust_enforce sg site snapshot (self, n)))" for snapshot
  proof -
    let ?g = "gts_grid_id snapshot"
    let ?n = "enforce_signed_grid ?g (gts_network_name snapshot) n"
    let ?r = "install_signer sg site ?g (gts_local_signing_key snapshot) (enforced_entry ?g (gts_network_name snapshot) self) ?n"
    have "node_steps env api n (snd ?r)"
      using node_enforce [of env api n ?g "gts_network_name snapshot"] install_signer_steps
      by (rule converse_rtranclp_into_rtranclp)
    moreover have "node_steps env api (snd ?r) (snd (install_peer_pins ?g pins (fst ?r) (snd ?r)))" for pins
      by (rule install_peer_pins_steps)
    ultimately show ?thesis
      by (auto simp: trust_enforce_def Let_def case_prod_unfold split: option.split intro: rtranclp_trans)
  qed
  moreover have "node_steps env api n (snd (trust_relax grid_id (self, n)))" for grid_id
    using node_relax [of env api n grid_id] by (simp add: trust_relax_def r_into_rtranclp)
  ultimately have "node_steps env api n (snd (case update of Off grid_id \<Rightarrow> trust_relax grid_id (self, n)
      | Enforce snapshot \<Rightarrow> trust_enforce sg site snapshot (self, n) | AllowStateAdmission \<Rightarrow> (self, n)))"
    by (simp split: grid_trust_update.split)
  then show ?thesis
    unfolding trust_apply_def state by (auto simp: Let_def case_prod_unfold intro: rtranclp.rtrancl_into_rtrancl node_open)
qed

subsection \<open>What is signed\<close>

lemma trust_sign_Inr:
  assumes "trust_sign c sg now self b = Inr b'"
  shows "sb_grid_id b' = sb_grid_id b" "sb_revision b' = sb_revision b" "sb_origin_site b' = sb_origin_site b"
    "sb_snapshot b' = sb_snapshot b" "sb_authoritative_provider_state b' = sb_authoritative_provider_state b"
    and "sb_grid_id b = Some grid_id \<Longrightarrow> fmlookup self grid_id = Some grid \<Longrightarrow>
      \<exists>key signable signature. eg_signing_key grid = Some key \<and> signable_bytes c b' = Inr signable \<and>
        sg_sign sg key signable = Inr signature \<and> sb_signature b' = Some signature \<and> sb_signed_at_ms b' = Some (wall_ms now)"
  using assms
  by (auto simp: trust_sign_def Let_def signable_bytes_def split: option.splits)

end
