(* ===== verification/SwimRuntime.thy ===== *)
theory SwimRuntime
  imports GridTrust RevisionLease MemberMirror
begin

section \<open>The SWIM loop of the operator\<close>

text \<open>
  \<^verbatim>\<open>run_loop\<close> of \<^verbatim>\<open>crates/operator/src/swim_runtime.rs\<close> and what it calls: packets are opened and sealed,
  state is retained and published with revisions of its own and the signature of its grid, grids are
  withdrawn, members mirrored. Each arm of the loop is a function on the state of the loop; a turn brings
  the instant, the wall clock, the nonces of the packets it seals and the requests that were dropped.
  The channels into the loop are its arguments, except for the trust updates, which another arm drains.
\<close>

subsection \<open>Packets\<close>

datatype key_state = KeyPending | KeyPlain | KeyLoaded bytes

datatype rejected = RejectedPending | Unauthenticated | EncryptedWithoutKey

definition wire_payload :: "aead \<Rightarrow> crypto_error + bytes \<Rightarrow> key_state \<Rightarrow> bytes \<Rightarrow> bytes option" where
  "wire_payload a nonce key data = (case key of
     KeyLoaded key \<Rightarrow> (case encrypt a nonce key data of Inr frame \<Rightarrow> Some frame | Inl _ \<Rightarrow> None)
   | KeyPlain \<Rightarrow> Some data
   | KeyPending \<Rightarrow> None)"

definition wire_plaintext :: "aead \<Rightarrow> key_state \<Rightarrow> bytes \<Rightarrow> rejected + bytes" where
  "wire_plaintext a key data = (case key of
     KeyLoaded key \<Rightarrow> (case decrypt a key data of Inr plaintext \<Rightarrow> Inr plaintext | Inl _ \<Rightarrow> Inl Unauthenticated)
   | KeyPlain \<Rightarrow> if take (length MAGIC) data = MAGIC then Inl EncryptedWithoutKey else Inr data
   | KeyPending \<Rightarrow> Inl RejectedPending)"

subsection \<open>Retained state and withdrawals\<close>

record retained_state_broadcast =
  rs_canonical_payload :: bytes
  rs_broadcast :: state_broadcast
  rs_last_revision :: u64

type_synonym retained_state_broadcasts = "(string option, retained_state_broadcast) fmap"

text \<open>The requests waiting for a withdrawal, by grid; a request is a number.\<close>

type_synonym pending_withdrawals = "(string, nat list) fmap"

definition canonical_state_payload :: "codec \<Rightarrow> state_broadcast \<Rightarrow> string + bytes" where
  "canonical_state_payload c broadcast = broadcast_encode c (broadcast\<lparr>sb_revision := 0\<rparr>)"

definition retained_update ::
  "codec \<Rightarrow> retained_state_broadcast option \<Rightarrow> state_broadcast \<Rightarrow> u64 \<Rightarrow>
   string + retained_state_broadcast \<times> state_broadcast option" where
  "retained_update c current broadcast revision =
     try_bind (canonical_state_payload c broadcast) (\<lambda>canonical_payload.
       case current of
         Some retained \<Rightarrow>
           if rs_canonical_payload retained = canonical_payload then Inr (retained, None)
           else Inr (\<lparr>rs_canonical_payload = canonical_payload, rs_broadcast = broadcast\<lparr>sb_revision := revision\<rparr>,
                      rs_last_revision = revision\<rparr>, Some (broadcast\<lparr>sb_revision := revision\<rparr>))
       | None \<Rightarrow> Inr (\<lparr>rs_canonical_payload = canonical_payload, rs_broadcast = broadcast\<lparr>sb_revision := revision\<rparr>,
                        rs_last_revision = revision\<rparr>, Some (broadcast\<lparr>sb_revision := revision\<rparr>)))"

definition retained_republish :: "u64 \<Rightarrow> retained_state_broadcast \<Rightarrow> retained_state_broadcast" where
  "retained_republish revision self =
     self\<lparr>rs_last_revision := revision, rs_broadcast := (rs_broadcast self)\<lparr>sb_revision := revision\<rparr>\<rparr>"

definition update_retained_state ::
  "codec \<Rightarrow> state_broadcast \<Rightarrow> u64 \<Rightarrow> retained_state_broadcasts \<Rightarrow>
   (string + state_broadcast option) \<times> retained_state_broadcasts" where
  "update_retained_state c broadcast revision retained =
     (let scope = sb_grid_id broadcast;
          current = fmlookup retained scope;
          retained = fmdrop scope retained
      in case retained_update c current broadcast revision of
           Inr (next, outbound) \<Rightarrow> (Inr outbound, fmupd scope next retained)
         | Inl error \<Rightarrow> (Inl error, case current of None \<Rightarrow> retained | Some previous \<Rightarrow> fmupd scope previous retained))"

text \<open>\<open>closed\<close> tells which of the requests waiting were given up.\<close>

definition queue_withdrawal ::
  "(nat \<Rightarrow> bool) \<Rightarrow> string \<Rightarrow> nat \<Rightarrow> pending_withdrawals \<times> retained_state_broadcasts \<Rightarrow>
   pending_withdrawals \<times> retained_state_broadcasts" where
  "queue_withdrawal closed grid_id request state =
     (let (pending, retained) = state;
          waiters = (case fmlookup pending grid_id of None \<Rightarrow> [] | Some waiters \<Rightarrow> waiters)
      in (fmupd grid_id (filter (\<lambda>waiter. \<not> closed waiter) waiters @ [request]) pending, fmdrop (Some grid_id) retained))"

definition withdrawal_broadcast :: "string \<Rightarrow> string \<Rightarrow> u64 \<Rightarrow> state_broadcast" where
  "withdrawal_broadcast site_name grid_id revision =
     with_authoritative_provider_state (with_grid_id (Some grid_id)
       (state_broadcast_new site_name revision (snapshot_new site_name) None))"

subsection \<open>The state of the loop\<close>

datatype departed = Evict | RetainProviders

record swim_config =
  cf_advertise_addr :: "socket_addr option"
  cf_site_name :: string
  cf_seeds :: "socket_addr list"
  cf_signals_address :: "string option"
  cf_gateway_address :: "string option"
  cf_key :: key_state
  cf_revision_lease :: revision_lease
  cf_revision_renewer :: bool
  cf_departed :: departed
  cf_dead_member_ttl :: nat

definition STATE_REPUBLISH_INTERVAL :: nat where
  "STATE_REPUBLISH_INTERVAL = 30000000000"

text \<open>
  What the loop has from other crates: the node's environment and membership protocol with the
  identities it holds live, the cipher, the signing primitives, and socket addresses with their order
  and their text.
\<close>

record ('f, 't, 'a) runtime_env =
  re_handler :: handler_env
  re_foca :: "('f, 't) foca_api"
  re_live :: "'f \<Rightarrow> node_id list"
  re_aead :: aead
  re_signer :: signer
  re_addr :: "socket_addr \<Rightarrow> 'a"
  re_show_addr :: "'a \<Rightarrow> string"

record turn =
  tn_now :: nat
  tn_clock :: clock
  tn_nonce :: "nat \<Rightarrow> crypto_error + bytes"
  tn_closed :: "nat \<Rightarrow> bool"

text \<open>A broadcast the node accepted, with its trust store and the withdrawals pending at that moment.\<close>

record publication =
  pb_store :: trust_store
  pb_pending :: pending_withdrawals
  pb_broadcast :: state_broadcast

text \<open>
  The variables of the loop, the watches it publishes, the trust updates queued for it and all that were
  sent to it, and what it has done: the timers started, the packets sent with the key in force, the publications, and the
  withdrawals acknowledged, by grid and request, with the number of publications at that moment.
\<close>

record ('f, 't, 'a) swim_runtime =
  ru_config :: swim_config
  ru_own :: "socket_addr list"
  ru_node :: "('f, 't) swim_node"
  ru_tracked :: "'a mirror"
  ru_key :: key_state
  ru_seed_addrs :: "socket_addr list"
  ru_next_seed_announce_at :: nat
  ru_gateway_address :: "string option"
  ru_gateway_address_revision :: u64
  ru_next_gateway_republish_at :: nat
  ru_retained :: retained_state_broadcasts
  ru_pending :: pending_withdrawals
  ru_trust :: grid_trust
  ru_next_state_republish_at :: nat
  ru_revisions :: revision_clock
  ru_running :: bool
  ru_members :: membership_snapshot
  ru_state :: grid_state_snapshot
  ru_model_inventories :: "model_inventory list"
  ru_trust_updates :: "grid_trust_update list"
  ru_trust_sent :: "grid_trust_update list"
  ru_timers :: "'t scheduled_timer list"
  ru_sent :: "(key_state \<times> socket_addr \<times> bytes) list"
  ru_published :: "publication list"
  ru_acked :: "(string \<times> nat \<times> nat) list"

subsection \<open>Publishing to readers\<close>

definition publish_members ::
  "('f, 't, 'a::linorder) runtime_env \<Rightarrow> nat \<Rightarrow> ('f, 't, 'a) swim_runtime \<Rightarrow> ('f, 't, 'a) swim_runtime" where
  "publish_members env now s =
     (let h = sn_handler (ru_node s);
          metadata = \<lparr>pm_gateway_addrs = hs_gateway_addrs h, pm_cert_pems = hs_cert_pems h, pm_signals_addrs = hs_signals_addrs h\<rparr>
      in s\<lparr>ru_members := members_snapshot (re_show_addr env) (ru_tracked s) now metadata\<rparr>)"

definition publish_state :: "('f, 't, 'a) swim_runtime \<Rightarrow> ('f, 't, 'a) swim_runtime" where
  "publish_state s = s\<lparr>ru_state := hs_state (sn_handler (ru_node s))\<rparr>"

definition publish_model_inventories :: "clock \<Rightarrow> ('f, 't, 'a) swim_runtime \<Rightarrow> ('f, 't, 'a) swim_runtime" where
  "publish_model_inventories clock s = s\<lparr>ru_model_inventories := node_model_inventories clock (ru_node s)\<rparr>"

definition evict_or_forget :: "departed \<Rightarrow> string \<Rightarrow> ('f, 't) swim_node \<Rightarrow> ('f, 't) swim_node" where
  "evict_or_forget departed origin = (case departed of
     RetainProviders \<Rightarrow> forget_departed_origin origin | Evict \<Rightarrow> evict_origin origin)"

definition evict_origins :: "string list \<Rightarrow> ('f, 't, 'a) swim_runtime \<Rightarrow> ('f, 't, 'a) swim_runtime" where
  "evict_origins origins s =
     (if origins = [] then s
      else publish_state (s\<lparr>ru_node := fold (evict_or_forget (cf_departed (ru_config s))) origins (ru_node s)\<rparr>))"

subsection \<open>Output of the node\<close>

definition send_packet ::
  "('f, 't, 'a) runtime_env \<Rightarrow> turn \<Rightarrow> outbound_message \<Rightarrow> ('f, 't, 'a) swim_runtime \<Rightarrow> ('f, 't, 'a) swim_runtime" where
  "send_packet env turn msg s =
     (case wire_payload (re_aead env) (tn_nonce turn (length (ru_sent s))) (ru_key s) (om_data msg) of
        None \<Rightarrow> s
      | Some payload \<Rightarrow> s\<lparr>ru_sent := ru_sent s @ [(ru_key s, om_addr msg, payload)]\<rparr>)"

definition drain_output ::
  "('f, 't, 'a::linorder) runtime_env \<Rightarrow> turn \<Rightarrow> 't accumulated_output \<Rightarrow> ('f, 't, 'a) swim_runtime \<Rightarrow> ('f, 't, 'a) swim_runtime" where
  "drain_output env turn output s =
     (let s = fold (send_packet env turn) (ao_messages output) s;
          s = s\<lparr>ru_timers := ru_timers s @ ao_timers output,
                ru_tracked := fold (apply_member_event_bounded (re_addr env) (tn_clock turn) (tn_now turn))
                  (ao_events output) (ru_tracked s)\<rparr>
      in if ao_events output \<noteq> [] then publish_members env (tn_now turn) s else s)"

text \<open>A call of the node whose output is drained at once.\<close>

definition run_node ::
  "('f, 't, 'a::linorder) runtime_env \<Rightarrow> turn \<Rightarrow> (('f, 't) swim_node \<Rightarrow> 't accumulated_output \<times> ('f, 't) swim_node) \<Rightarrow>
   ('f, 't, 'a) swim_runtime \<Rightarrow> ('f, 't, 'a) swim_runtime" where
  "run_node env turn f s = (case f (ru_node s) of (output, node) \<Rightarrow> drain_output env turn output (s\<lparr>ru_node := node\<rparr>))"

definition announce_all ::
  "('f, 't, 'a::linorder) runtime_env \<Rightarrow> turn \<Rightarrow> ('f, 't, 'a) swim_runtime \<Rightarrow> ('f, 't, 'a) swim_runtime" where
  "announce_all env turn s = fold (\<lambda>addr. run_node env turn (announce (re_foca env) (node_id_seed addr))) (ru_seed_addrs s) s"

subsection \<open>Publishing to peers\<close>

definition take_revision :: "turn \<Rightarrow> ('f, 't, 'a) swim_runtime \<Rightarrow> u64 option \<times> ('f, 't, 'a) swim_runtime" where
  "take_revision turn s = (case clock_take (tn_now turn) (ru_revisions s) of
     (revision, revisions) \<Rightarrow> (revision, s\<lparr>ru_revisions := revisions\<rparr>))"

definition publish_broadcast ::
  "('f, 't, 'a) runtime_env \<Rightarrow> state_broadcast \<Rightarrow> ('f, 't, 'a) swim_runtime \<Rightarrow>
   (publish_error + unit) \<times> ('f, 't, 'a) swim_runtime" where
  "publish_broadcast env broadcast s =
     (case publish_state_broadcast (re_handler env) (re_foca env) broadcast (ru_node s) of
        (result, node) \<Rightarrow>
          (result, s\<lparr>ru_node := node,
             ru_published := (case result of 
               Inr _ \<Rightarrow> ru_published s @ [\<lparr>pb_store = trust_of (ru_node s), pb_pending = ru_pending s, pb_broadcast = broadcast\<rparr>]
             | Inl _ \<Rightarrow> ru_published s)\<rparr>))"

abbreviation sign_broadcast ::
  "('f, 't, 'a) runtime_env \<Rightarrow> turn \<Rightarrow> ('f, 't, 'a) swim_runtime \<Rightarrow> state_broadcast \<Rightarrow> string + state_broadcast" where
  "sign_broadcast env turn s \<equiv> trust_sign (he_codec (re_handler env)) (re_signer env) (tn_clock turn) (ru_trust s)"

definition publish_scoped ::
  "('f, 't, 'a) runtime_env \<Rightarrow> string + state_broadcast \<Rightarrow> ('f, 't, 'a) swim_runtime \<Rightarrow> ('f, 't, 'a) swim_runtime" where
  "publish_scoped env scoped s = (case scoped of Inl _ \<Rightarrow> s | Inr scoped \<Rightarrow> snd (publish_broadcast env scoped s))"

definition publish_address_broadcast ::
  "('f, 't, 'a) runtime_env \<Rightarrow> turn \<Rightarrow> u64 \<Rightarrow> ('f, 't, 'a) swim_runtime \<Rightarrow> ('f, 't, 'a) swim_runtime" where
  "publish_address_broadcast env turn revision s =
     (let site_name = cf_site_name (ru_config s);
          signals_address = cf_signals_address (ru_config s)
      in if ru_gateway_address s = None \<and> signals_address = None then s
         else
         let broadcast = with_signals_address signals_address
               (state_broadcast_new site_name revision (snapshot_new site_name) (ru_gateway_address s))
         in fold (publish_scoped env)
              (per_strict_grid (he_codec (re_handler env)) (re_signer env) (tn_clock turn) (ru_trust s) broadcast) s)"

definition publish_withdrawal ::
  "('f, 't, 'a::linorder) runtime_env \<Rightarrow> turn \<Rightarrow> string \<Rightarrow> u64 \<Rightarrow> ('f, 't, 'a) swim_runtime \<Rightarrow> ('f, 't, 'a) swim_runtime" where
  "publish_withdrawal env turn grid_id revision s =
     (case sign_broadcast env turn s (withdrawal_broadcast (cf_site_name (ru_config s)) grid_id revision) of
        Inl _ \<Rightarrow> s
      | Inr withdrawal \<Rightarrow>
          (case publish_broadcast env withdrawal s of
             (Inl _, s) \<Rightarrow> s
           | (Inr _, s) \<Rightarrow>
               let s = run_node env turn (node_broadcast (re_foca env)) s;
                   s = publish_state s;
                   s = s\<lparr>ru_retained := fmdrop (Some grid_id) (ru_retained s)\<rparr>
               in case fmlookup (ru_pending s) grid_id of
                    None \<Rightarrow> s
                  | Some waiters \<Rightarrow> s\<lparr>ru_pending := fmdrop grid_id (ru_pending s),
                                    ru_acked := ru_acked s @ map (\<lambda>waiter. (grid_id, waiter, length (ru_published s))) waiters\<rparr>))"

text \<open>The loop over the grids pending, which ends when no revision is left.\<close>

fun publish_withdrawals ::
  "('f, 't, 'a::linorder) runtime_env \<Rightarrow> turn \<Rightarrow> string list \<Rightarrow> ('f, 't, 'a) swim_runtime \<Rightarrow> ('f, 't, 'a) swim_runtime" where
  "publish_withdrawals env turn [] s = s"
| "publish_withdrawals env turn (grid_id # grid_ids) s =
     (case take_revision turn s of
        (None, s) \<Rightarrow> s
      | (Some revision, s) \<Rightarrow> publish_withdrawals env turn grid_ids (publish_withdrawal env turn grid_id revision s))"

definition publish_pending_withdrawals ::
  "('f, 't, 'a::linorder) runtime_env \<Rightarrow> turn \<Rightarrow> ('f, 't, 'a) swim_runtime \<Rightarrow> ('f, 't, 'a) swim_runtime" where
  "publish_pending_withdrawals env turn s = publish_withdrawals env turn (fmkeys (ru_pending s)) s"

subsection \<open>Trust updates\<close>

definition apply_trust ::
  "('f, 't, 'a) runtime_env \<Rightarrow> grid_trust_update \<Rightarrow> ('f, 't, 'a) swim_runtime \<Rightarrow> ('f, 't, 'a) swim_runtime" where
  "apply_trust env update s =
     (case trust_apply (re_signer env) (cf_site_name (ru_config s)) update (ru_trust s, ru_node s) of
        (trust, node) \<Rightarrow> publish_state (s\<lparr>ru_trust := trust, ru_node := node\<rparr>))"

definition drain_trust_updates ::
  "('f, 't, 'a) runtime_env \<Rightarrow> ('f, 't, 'a) swim_runtime \<Rightarrow> ('f, 't, 'a) swim_runtime" where
  "drain_trust_updates env s = fold (apply_trust env) (ru_trust_updates s) (s\<lparr>ru_trust_updates := []\<rparr>)"

definition on_trust_update ::
  "('f, 't, 'a) runtime_env \<Rightarrow> ('f, 't, 'a) swim_runtime \<Rightarrow> ('f, 't, 'a) swim_runtime" where
  "on_trust_update env s = (case ru_trust_updates s of
     [] \<Rightarrow> s | update # updates \<Rightarrow> apply_trust env update (s\<lparr>ru_trust_updates := updates\<rparr>))"

subsection \<open>The arms of the loop\<close>

text \<open>After a packet: the addresses again, at most once a second.\<close>

definition republish_addresses ::
  "('f, 't, 'a::linorder) runtime_env \<Rightarrow> turn \<Rightarrow> ('f, 't, 'a) swim_runtime \<Rightarrow> ('f, 't, 'a) swim_runtime" where
  "republish_addresses env turn s =
     (let now = tn_now turn;
          advertises = (ru_gateway_address s \<noteq> None \<or> cf_signals_address (ru_config s) \<noteq> None)
      in if advertises \<and> now \<ge> ru_next_gateway_republish_at s then
           (case take_revision turn s of
              (None, s) \<Rightarrow> s\<lparr>ru_next_gateway_republish_at := now + 1000000000\<rparr>
            | (Some revision, s) \<Rightarrow>
                let s = s\<lparr>ru_gateway_address_revision := revision\<rparr>;
                    s = publish_address_broadcast env turn revision s;
                    s = run_node env turn (gossip (re_foca env)) s;
                    s = publish_state s
                in s\<lparr>ru_next_gateway_republish_at := now + 1000000000\<rparr>)
         else s)"

definition on_packet ::
  "('f, 't, 'a::linorder) runtime_env \<Rightarrow> turn \<Rightarrow> bytes \<Rightarrow> ('f, 't, 'a) swim_runtime \<Rightarrow> ('f, 't, 'a) swim_runtime" where
  "on_packet env turn raw s =
     (case wire_plaintext (re_aead env) (ru_key s) raw of
        Inl _ \<Rightarrow> s
      | Inr data \<Rightarrow>
          let s = run_node env turn (handle_data (re_foca env) data) s;
              s = publish_state s;
              s = publish_model_inventories (tn_clock turn) s;
              s = publish_members env (tn_now turn) s
          in republish_addresses env turn s)"

definition on_timer ::
  "('f, 't, 'a::linorder) runtime_env \<Rightarrow> turn \<Rightarrow> 't timer_event \<Rightarrow> ('f, 't, 'a) swim_runtime \<Rightarrow> ('f, 't, 'a) swim_runtime" where
  "on_timer env turn event s = run_node env turn (handle_timer (re_foca env) event) s"

text \<open>A broadcast of the controllers, after it was retained: sign, publish, send.\<close>

definition send_state ::
  "('f, 't, 'a::linorder) runtime_env \<Rightarrow> turn \<Rightarrow> state_broadcast \<Rightarrow> ('f, 't, 'a) swim_runtime \<Rightarrow> ('f, 't, 'a) swim_runtime" where
  "send_state env turn bc s =
     (let s = drain_trust_updates env s
      in case sign_broadcast env turn s bc of
           Inl _ \<Rightarrow> s
         | Inr bc \<Rightarrow>
             let s = (case publish_broadcast env bc s of
                        (Inl _, s) \<Rightarrow> s
                      | (Inr _, s) \<Rightarrow> run_node env turn (node_broadcast (re_foca env)) s);
                 s = publish_state s
             in publish_model_inventories (tn_clock turn) s)"

definition on_broadcast ::
  "('f, 't, 'a::linorder) runtime_env \<Rightarrow> turn \<Rightarrow> state_broadcast \<Rightarrow> ('f, 't, 'a) swim_runtime \<Rightarrow> ('f, 't, 'a) swim_runtime" where
  "on_broadcast env turn bc s =
     (let c = he_codec (re_handler env)
      in if (case sb_grid_id bc of None \<Rightarrow> False | Some grid_id \<Rightarrow> fmlookup (ru_pending s) grid_id \<noteq> None) then s
         else if carries_grid_state bc then
           (case take_revision turn s of
              (None, s) \<Rightarrow>
                s\<lparr>ru_retained := snd (update_retained_state c bc 0 (ru_retained s)), ru_next_state_republish_at := tn_now turn\<rparr>
            | (Some revision, s) \<Rightarrow>
                (case update_retained_state c bc revision (ru_retained s) of
                   (result, retained) \<Rightarrow>
                     (case result of
                        Inr (Some outbound) \<Rightarrow> send_state env turn outbound (s\<lparr>ru_retained := retained\<rparr>)
                      | Inr None \<Rightarrow> s\<lparr>ru_retained := retained\<rparr>
                      | Inl _ \<Rightarrow> s\<lparr>ru_retained := retained\<rparr>)))
         else send_state env turn bc s)"

definition on_inventory_frame ::
  "('f, 't, 'a::linorder) runtime_env \<Rightarrow> turn \<Rightarrow> model_inventory_broadcast \<Rightarrow> ('f, 't, 'a) swim_runtime \<Rightarrow> ('f, 't, 'a) swim_runtime" where
  "on_inventory_frame env turn frame s =
     (if fmlookup (ru_pending s) (mb_grid_id frame) \<noteq> None then s
      else case publish_model_inventory_broadcast (re_foca env) frame (ru_node s) of
          (Inl _, node) \<Rightarrow> s\<lparr>ru_node := node\<rparr>
        | (Inr _, node) \<Rightarrow>
            publish_model_inventories (tn_clock turn) (run_node env turn (node_broadcast (re_foca env)) (s\<lparr>ru_node := node\<rparr>)))"

definition on_leave ::
  "('f, 't, 'a::linorder) runtime_env \<Rightarrow> turn \<Rightarrow> ('f, 't, 'a) swim_runtime \<Rightarrow> ('f, 't, 'a) swim_runtime" where
  "on_leave env turn s = (run_node env turn (leave (re_foca env)) s)\<lparr>ru_running := False\<rparr>"

definition on_withdraw ::
  "('f, 't, 'a::linorder) runtime_env \<Rightarrow> turn \<Rightarrow> string \<Rightarrow> nat \<Rightarrow> ('f, 't, 'a) swim_runtime \<Rightarrow> ('f, 't, 'a) swim_runtime" where
  "on_withdraw env turn grid_id request s =
     (case queue_withdrawal (tn_closed turn) grid_id request (ru_pending s, ru_retained s) of
        (pending, retained) \<Rightarrow> publish_pending_withdrawals env turn (s\<lparr>ru_pending := pending, ru_retained := retained\<rparr>))"

definition foreign_seeds :: "socket_addr list \<Rightarrow> socket_addr list \<Rightarrow> socket_addr list" where
  "foreign_seeds seeds own = filter (\<lambda>seed. seed \<notin> set own) seeds"

definition on_seeds ::
  "('f, 't, 'a::linorder) runtime_env \<Rightarrow> turn \<Rightarrow> socket_addr list \<Rightarrow> ('f, 't, 'a) swim_runtime \<Rightarrow> ('f, 't, 'a) swim_runtime" where
  "on_seeds env turn seeds s = announce_all env turn (s\<lparr>ru_seed_addrs := foreign_seeds seeds (ru_own s)\<rparr>)"

text \<open>
  The repair of the tick: every retained scope again under a new revision. The loop stops when no
  revision is left, which the flag tells.
\<close>

definition republish_scope ::
  "('f, 't, 'a::linorder) runtime_env \<Rightarrow> turn \<Rightarrow> string option \<Rightarrow> u64 \<Rightarrow> ('f, 't, 'a) swim_runtime \<Rightarrow> ('f, 't, 'a) swim_runtime" where
  "republish_scope env turn scope revision s =
     (case fmlookup (ru_retained s) scope of
        None \<Rightarrow> s
      | Some retained \<Rightarrow>
          let retained = retained_republish revision retained;
              s = s\<lparr>ru_retained := fmupd scope retained (ru_retained s)\<rparr>
          in case sign_broadcast env turn s (rs_broadcast retained) of
               Inl _ \<Rightarrow> s
             | Inr bc \<Rightarrow>
                 (case publish_broadcast env bc s of
                    (Inl _, s) \<Rightarrow> s
                  | (Inr _, s) \<Rightarrow> run_node env turn (node_broadcast (re_foca env)) s))"

fun republish_scopes ::
  "('f, 't, 'a::linorder) runtime_env \<Rightarrow> turn \<Rightarrow> string option list \<Rightarrow> ('f, 't, 'a) swim_runtime \<Rightarrow> bool \<times> ('f, 't, 'a) swim_runtime" where
  "republish_scopes env turn [] s = (False, s)"
| "republish_scopes env turn (scope # scopes) s =
     (case take_revision turn s of
        (None, s) \<Rightarrow> (True, s)
      | (Some revision, s) \<Rightarrow> republish_scopes env turn scopes (republish_scope env turn scope revision s))"

definition republish_state ::
  "('f, 't, 'a::linorder) runtime_env \<Rightarrow> turn \<Rightarrow> ('f, 't, 'a) swim_runtime \<Rightarrow> ('f, 't, 'a) swim_runtime" where
  "republish_state env turn s =
     (if tn_now turn \<ge> ru_next_state_republish_at s then
        (case republish_scopes env turn (fmkeys (ru_retained s)) s of
           (revisions_exhausted, s) \<Rightarrow>
             if ru_retained s = fmempty \<or> \<not> revisions_exhausted
             then s\<lparr>ru_next_state_republish_at := tn_now turn + STATE_REPUBLISH_INTERVAL\<rparr> else s)
      else s)"

definition announce_seeds_again ::
  "('f, 't, 'a::linorder) runtime_env \<Rightarrow> turn \<Rightarrow> ('f, 't, 'a) swim_runtime \<Rightarrow> ('f, 't, 'a) swim_runtime" where
  "announce_seeds_again env turn s =
     (if tn_now turn \<ge> ru_next_seed_announce_at s
      then (announce_all env turn s)\<lparr>ru_next_seed_announce_at := tn_now turn + 5000000000\<rparr> else s)"

text \<open>The members, pruned and rebuilt; origins gone for good lose their state.\<close>

definition tick_mirror ::
  "('f, 't, 'a::linorder) runtime_env \<Rightarrow> turn \<Rightarrow> ('f, 't, 'a) swim_runtime \<Rightarrow> ('f, 't, 'a) swim_runtime" where
  "tick_mirror env turn s =
     (case tick_members (re_addr env) (tn_clock turn) (tn_now turn) (cf_dead_member_ttl (ru_config s))
             (re_live env (sn_foca (ru_node s))) (ru_tracked s) of
        (gone, changed, tracked) \<Rightarrow>
          let s = evict_origins gone (s\<lparr>ru_tracked := tracked\<rparr>)
          in if changed then publish_members env (tn_now turn) s else s)"

definition on_tick ::
  "('f, 't, 'a::linorder) runtime_env \<Rightarrow> turn \<Rightarrow> ('f, 't, 'a) swim_runtime \<Rightarrow> ('f, 't, 'a) swim_runtime" where
  "on_tick env turn s =
     (let s = publish_model_inventories (tn_clock turn) s;
          s = publish_pending_withdrawals env turn s;
          s = republish_state env turn s;
          s = announce_seeds_again env turn s
      in tick_mirror env turn s)"

definition on_gateway ::
  "('f, 't, 'a::linorder) runtime_env \<Rightarrow> turn \<Rightarrow> string option \<Rightarrow> ('f, 't, 'a) swim_runtime \<Rightarrow> ('f, 't, 'a) swim_runtime" where
  "on_gateway env turn gateway_address s =
     (let s = s\<lparr>ru_gateway_address := gateway_address\<rparr>
      in case gateway_address of
           None \<Rightarrow> s
         | Some _ \<Rightarrow>
             (case take_revision turn s of
                (None, s) \<Rightarrow> s
              | (Some revision, s) \<Rightarrow>
                  let s = s\<lparr>ru_gateway_address_revision := revision\<rparr>;
                      s = publish_address_broadcast env turn revision s;
                      s = run_node env turn (gossip (re_foca env)) s
                  in publish_state s))"

subsection \<open>Starting\<close>

datatype start_error =
    InvalidRevisions u64 u64
  | InvalidNodeGenerations u64 u64
  | RevisionsExhausted

text \<open>
  \<^verbatim>\<open>start\<close> and the loop up to its first turn. \<open>local_addr\<close> is the address of the socket once it is bound;
  \<open>RevisionsExhausted\<close> stands for the return of the loop before its first turn.
\<close>

definition runtime_new ::
  "('f, 't, 'a) runtime_env \<Rightarrow> swim_config \<Rightarrow> socket_addr \<Rightarrow> turn \<Rightarrow> revision_clock \<Rightarrow> u64 \<Rightarrow> ('f, 't, 'a) swim_runtime" where
  "runtime_new env config local_addr turn revisions revision =
     (let advertise_addr = (case cf_advertise_addr config of None \<Rightarrow> local_addr | Some addr \<Rightarrow> addr);
          lease = cf_revision_lease config;
          identity = with_generation_range (cf_site_name config) advertise_addr
            (rl_first_node_generation lease) (rl_last_node_generation lease);
          own = [advertise_addr, local_addr];
          now = tn_now turn
      in \<lparr>ru_config = config, ru_own = own,
          ru_node = hold_state_admission (with_origin_capacity (re_foca env) identity MAX_TRACKED_MEMBERS),
          ru_tracked = fmempty, ru_key = cf_key config, ru_seed_addrs = foreign_seeds (cf_seeds config) own,
          ru_next_seed_announce_at = now + 5000000000, ru_gateway_address = cf_gateway_address config,
          ru_gateway_address_revision = revision, ru_next_gateway_republish_at = now, ru_retained = fmempty,
          ru_pending = fmempty, ru_trust = fmempty, ru_next_state_republish_at = now + STATE_REPUBLISH_INTERVAL,
          ru_revisions = revisions, ru_running = True, ru_members = [], ru_state = snapshot_new (cf_site_name config),
          ru_model_inventories = [], ru_trust_updates = [], ru_trust_sent = [], ru_timers = [], ru_sent = [], ru_published = [], ru_acked = []\<rparr>)"

definition runtime_start ::
  "('f, 't, 'a::linorder) runtime_env \<Rightarrow> swim_config \<Rightarrow> socket_addr \<Rightarrow> turn \<Rightarrow> start_error + ('f, 't, 'a) swim_runtime" where
  "runtime_start env config local_addr turn =
     (let lease = cf_revision_lease config
      in case revision_clock_new lease (cf_revision_renewer config) of
           Inl _ \<Rightarrow> Inl (InvalidRevisions (rl_first_revision lease) (rl_last_revision lease))
         | Inr revisions \<Rightarrow>
             if rl_first_node_generation lease = 0 \<or> rl_first_node_generation lease > rl_last_node_generation lease
             then Inl (InvalidNodeGenerations (rl_first_node_generation lease) (rl_last_node_generation lease))
             else case clock_take (tn_now turn) revisions of
                 (None, _) \<Rightarrow> Inl RevisionsExhausted
               | (Some revision, revisions) \<Rightarrow>
                   Inr (announce_all env turn (publish_address_broadcast env turn revision
                     (runtime_new env config local_addr turn revisions revision))))"

subsection \<open>The handle\<close>

definition send_trust_update :: "grid_trust_update \<Rightarrow> ('f, 't, 'a) swim_runtime \<Rightarrow> ('f, 't, 'a) swim_runtime" where
  "send_trust_update update s =
     s\<lparr>ru_trust_updates := ru_trust_updates s @ [update], ru_trust_sent := ru_trust_sent s @ [update]\<rparr>"

definition set_swim_key :: "bytes \<Rightarrow> ('f, 't, 'a) swim_runtime \<Rightarrow> ('f, 't, 'a) swim_runtime" where
  "set_swim_key key s = s\<lparr>ru_key := KeyLoaded key\<rparr>"

definition release_plain :: "('f, 't, 'a) swim_runtime \<Rightarrow> bool \<times> ('f, 't, 'a) swim_runtime" where
  "release_plain s = (if ru_key s = KeyPending then (True, s\<lparr>ru_key := KeyPlain\<rparr>) else (False, s))"

end
