(* ===== verification/RuntimeLaws.thy ===== *)
theory RuntimeLaws
  imports SwimRuntime RevisionSafety
begin

section \<open>The SWIM loop: its steps and what they share\<close>

text \<open>
  The runs of the loop as a step relation, the frame of each operation, and two contracts of a relation
  between states that every run respects: \<open>turns_lawful\<close>, over the pieces the arms are made of, and
  \<open>acts_lawful\<close>, over the single calls within these pieces, from which the first follows.
\<close>

subsection \<open>Frames\<close>

lemma send_packets_frame [simp]:
  "ru_config (fold (send_packet env turn) msgs s) = ru_config s" "ru_own (fold (send_packet env turn) msgs s) = ru_own s"
  "ru_node (fold (send_packet env turn) msgs s) = ru_node s" "ru_tracked (fold (send_packet env turn) msgs s) = ru_tracked s"
  "ru_key (fold (send_packet env turn) msgs s) = ru_key s" "ru_retained (fold (send_packet env turn) msgs s) = ru_retained s"
  "ru_pending (fold (send_packet env turn) msgs s) = ru_pending s" "ru_trust (fold (send_packet env turn) msgs s) = ru_trust s"
  "ru_revisions (fold (send_packet env turn) msgs s) = ru_revisions s" "ru_running (fold (send_packet env turn) msgs s) = ru_running s"
  "ru_state (fold (send_packet env turn) msgs s) = ru_state s" "ru_trust_updates (fold (send_packet env turn) msgs s) = ru_trust_updates s"
  "ru_trust_sent (fold (send_packet env turn) msgs s) = ru_trust_sent s"
  "ru_published (fold (send_packet env turn) msgs s) = ru_published s" "ru_acked (fold (send_packet env turn) msgs s) = ru_acked s"
  by (induction msgs arbitrary: s) (simp_all add: send_packet_def split: option.split)

lemma publish_members_frame [simp]:
  "ru_config (publish_members env now s) = ru_config s" "ru_own (publish_members env now s) = ru_own s"
  "ru_node (publish_members env now s) = ru_node s" "ru_tracked (publish_members env now s) = ru_tracked s"
  "ru_key (publish_members env now s) = ru_key s" "ru_retained (publish_members env now s) = ru_retained s"
  "ru_pending (publish_members env now s) = ru_pending s" "ru_trust (publish_members env now s) = ru_trust s"
  "ru_revisions (publish_members env now s) = ru_revisions s" "ru_running (publish_members env now s) = ru_running s"
  "ru_state (publish_members env now s) = ru_state s" "ru_trust_updates (publish_members env now s) = ru_trust_updates s"
  "ru_trust_sent (publish_members env now s) = ru_trust_sent s"
  "ru_published (publish_members env now s) = ru_published s" "ru_acked (publish_members env now s) = ru_acked s"
  "ru_sent (publish_members env now s) = ru_sent s"
  by (simp_all add: publish_members_def Let_def)

lemma run_node_frame [simp]:
  "ru_config (run_node env turn f s) = ru_config s" "ru_own (run_node env turn f s) = ru_own s"
  "ru_node (run_node env turn f s) = snd (f (ru_node s))"
  "ru_key (run_node env turn f s) = ru_key s" "ru_retained (run_node env turn f s) = ru_retained s"
  "ru_pending (run_node env turn f s) = ru_pending s" "ru_trust (run_node env turn f s) = ru_trust s"
  "ru_revisions (run_node env turn f s) = ru_revisions s" "ru_running (run_node env turn f s) = ru_running s"
  "ru_state (run_node env turn f s) = ru_state s" "ru_trust_updates (run_node env turn f s) = ru_trust_updates s"
  "ru_trust_sent (run_node env turn f s) = ru_trust_sent s"
  "ru_published (run_node env turn f s) = ru_published s" "ru_acked (run_node env turn f s) = ru_acked s"
  "ru_tracked (run_node env turn f s) = fold (apply_member_event_bounded (re_addr env) (tn_clock turn) (tn_now turn))
     (ao_events (fst (f (ru_node s)))) (ru_tracked s)"
  by (simp_all add: run_node_def drain_output_def Let_def case_prod_unfold)

lemma publish_broadcast_frame [simp]:
  "ru_config (snd (publish_broadcast env b s)) = ru_config s" "ru_own (snd (publish_broadcast env b s)) = ru_own s"
  "ru_tracked (snd (publish_broadcast env b s)) = ru_tracked s" "ru_key (snd (publish_broadcast env b s)) = ru_key s"
  "ru_retained (snd (publish_broadcast env b s)) = ru_retained s" "ru_pending (snd (publish_broadcast env b s)) = ru_pending s"
  "ru_trust (snd (publish_broadcast env b s)) = ru_trust s" "ru_revisions (snd (publish_broadcast env b s)) = ru_revisions s"
  "ru_running (snd (publish_broadcast env b s)) = ru_running s" "ru_state (snd (publish_broadcast env b s)) = ru_state s"
  "ru_trust_updates (snd (publish_broadcast env b s)) = ru_trust_updates s"
  "ru_trust_sent (snd (publish_broadcast env b s)) = ru_trust_sent s" "ru_acked (snd (publish_broadcast env b s)) = ru_acked s"
  "ru_sent (snd (publish_broadcast env b s)) = ru_sent s"
  "ru_node (snd (publish_broadcast env b s)) = snd (publish_state_broadcast (re_handler env) (re_foca env) b (ru_node s))"
  "fst (publish_broadcast env b s) = fst (publish_state_broadcast (re_handler env) (re_foca env) b (ru_node s))"
  "ru_published (snd (publish_broadcast env b s)) = ru_published s @
     (case fst (publish_state_broadcast (re_handler env) (re_foca env) b (ru_node s)) of
        Inr _ \<Rightarrow> [\<lparr>pb_store = trust_of (ru_node s), pb_pending = ru_pending s, pb_broadcast = b\<rparr>] | Inl _ \<Rightarrow> [])"
  by (simp_all add: publish_broadcast_def case_prod_unfold split: sum.split)

lemma publish_watches_frame [simp]:
  "ru_config (publish_state s) = ru_config s" "ru_own (publish_state s) = ru_own s" "ru_node (publish_state s) = ru_node s"
  "ru_tracked (publish_state s) = ru_tracked s" "ru_key (publish_state s) = ru_key s" "ru_retained (publish_state s) = ru_retained s"
  "ru_pending (publish_state s) = ru_pending s" "ru_trust (publish_state s) = ru_trust s" "ru_revisions (publish_state s) = ru_revisions s"
  "ru_running (publish_state s) = ru_running s" "ru_state (publish_state s) = hs_state (sn_handler (ru_node s))"
  "ru_trust_updates (publish_state s) = ru_trust_updates s"
  "ru_trust_sent (publish_state s) = ru_trust_sent s" "ru_published (publish_state s) = ru_published s"
  "ru_acked (publish_state s) = ru_acked s" "ru_sent (publish_state s) = ru_sent s"
  by (simp_all add: publish_state_def)

lemma take_revision_frame [simp]:
  "ru_config (snd (take_revision turn s)) = ru_config s" "ru_own (snd (take_revision turn s)) = ru_own s"
  "ru_node (snd (take_revision turn s)) = ru_node s" "ru_tracked (snd (take_revision turn s)) = ru_tracked s"
  "ru_key (snd (take_revision turn s)) = ru_key s" "ru_retained (snd (take_revision turn s)) = ru_retained s"
  "ru_pending (snd (take_revision turn s)) = ru_pending s" "ru_trust (snd (take_revision turn s)) = ru_trust s"
  "ru_running (snd (take_revision turn s)) = ru_running s" "ru_state (snd (take_revision turn s)) = ru_state s"
  "ru_trust_updates (snd (take_revision turn s)) = ru_trust_updates s"
  "ru_trust_sent (snd (take_revision turn s)) = ru_trust_sent s" "ru_published (snd (take_revision turn s)) = ru_published s"
  "ru_acked (snd (take_revision turn s)) = ru_acked s" "ru_sent (snd (take_revision turn s)) = ru_sent s"
  "ru_revisions (snd (take_revision turn s)) = snd (clock_take (tn_now turn) (ru_revisions s))"
  "fst (take_revision turn s) = fst (clock_take (tn_now turn) (ru_revisions s))"
  by (simp_all add: take_revision_def case_prod_unfold)

lemma apply_trust_frame [simp]:
  "ru_config (apply_trust env u s) = ru_config s" "ru_own (apply_trust env u s) = ru_own s"
  "ru_tracked (apply_trust env u s) = ru_tracked s" "ru_key (apply_trust env u s) = ru_key s"
  "ru_retained (apply_trust env u s) = ru_retained s" "ru_pending (apply_trust env u s) = ru_pending s"
  "ru_revisions (apply_trust env u s) = ru_revisions s" "ru_running (apply_trust env u s) = ru_running s"
  "ru_trust_updates (apply_trust env u s) = ru_trust_updates s"
  "ru_trust_sent (apply_trust env u s) = ru_trust_sent s" "ru_published (apply_trust env u s) = ru_published s"
  "ru_acked (apply_trust env u s) = ru_acked s" "ru_sent (apply_trust env u s) = ru_sent s"
  "ru_trust (apply_trust env u s) = fst (trust_apply (re_signer env) (cf_site_name (ru_config s)) u (ru_trust s, ru_node s))"
  "ru_node (apply_trust env u s) = snd (trust_apply (re_signer env) (cf_site_name (ru_config s)) u (ru_trust s, ru_node s))"
  "ru_state (apply_trust env u s) = hs_state (sn_handler (ru_node (apply_trust env u s)))"
  by (simp_all add: apply_trust_def case_prod_unfold)

lemma apply_trust_queue:
  "apply_trust env u (s\<lparr>ru_trust_updates := us\<rparr>) = (apply_trust env u s)\<lparr>ru_trust_updates := us\<rparr>"
  by (simp add: apply_trust_def publish_state_def case_prod_unfold)

lemma drain_trust_Cons:
  assumes "ru_trust_updates s = u # us"
  shows "drain_trust_updates env s = drain_trust_updates env (apply_trust env u (s\<lparr>ru_trust_updates := us\<rparr>))"
  by (simp add: drain_trust_updates_def assms apply_trust_queue)

lemma drain_trust_frame [simp]:
  "ru_config (drain_trust_updates env s) = ru_config s" "ru_own (drain_trust_updates env s) = ru_own s"
  "ru_tracked (drain_trust_updates env s) = ru_tracked s" "ru_key (drain_trust_updates env s) = ru_key s"
  "ru_retained (drain_trust_updates env s) = ru_retained s" "ru_pending (drain_trust_updates env s) = ru_pending s"
  "ru_revisions (drain_trust_updates env s) = ru_revisions s" "ru_running (drain_trust_updates env s) = ru_running s"
  "ru_trust_updates (drain_trust_updates env s) = []"
  "ru_trust_sent (drain_trust_updates env s) = ru_trust_sent s" "ru_published (drain_trust_updates env s) = ru_published s"
  "ru_acked (drain_trust_updates env s) = ru_acked s" "ru_sent (drain_trust_updates env s) = ru_sent s"
proof -
  have "P (fold (apply_trust env) us s) = P s" if "\<And>u s. P (apply_trust env u s) = P s" for P :: "_ \<Rightarrow> 'z" and us s
    using that by (induction us arbitrary: s) simp_all
  note frame = this
  show "ru_config (drain_trust_updates env s) = ru_config s" "ru_own (drain_trust_updates env s) = ru_own s"
    "ru_tracked (drain_trust_updates env s) = ru_tracked s" "ru_key (drain_trust_updates env s) = ru_key s"
    "ru_retained (drain_trust_updates env s) = ru_retained s" "ru_pending (drain_trust_updates env s) = ru_pending s"
    "ru_revisions (drain_trust_updates env s) = ru_revisions s" "ru_running (drain_trust_updates env s) = ru_running s"
    "ru_trust_updates (drain_trust_updates env s) = []"
    "ru_trust_sent (drain_trust_updates env s) = ru_trust_sent s" "ru_published (drain_trust_updates env s) = ru_published s"
    "ru_acked (drain_trust_updates env s) = ru_acked s" "ru_sent (drain_trust_updates env s) = ru_sent s"
    unfolding drain_trust_updates_def by (subst frame; simp)+
qed

lemma evict_origins_frame [simp]:
  "ru_config (evict_origins origins s) = ru_config s" "ru_own (evict_origins origins s) = ru_own s"
  "ru_tracked (evict_origins origins s) = ru_tracked s" "ru_key (evict_origins origins s) = ru_key s"
  "ru_retained (evict_origins origins s) = ru_retained s" "ru_pending (evict_origins origins s) = ru_pending s"
  "ru_trust (evict_origins origins s) = ru_trust s" "ru_revisions (evict_origins origins s) = ru_revisions s"
  "ru_running (evict_origins origins s) = ru_running s" "ru_trust_updates (evict_origins origins s) = ru_trust_updates s"
  "ru_trust_sent (evict_origins origins s) = ru_trust_sent s"
  "ru_published (evict_origins origins s) = ru_published s" "ru_acked (evict_origins origins s) = ru_acked s"
  "ru_sent (evict_origins origins s) = ru_sent s"
  by (simp_all add: evict_origins_def)

subsection \<open>Steps\<close>

definition node_traffic :: "('f, 't) foca_api \<Rightarrow> (('f, 't) swim_node \<Rightarrow> 't accumulated_output \<times> ('f, 't) swim_node) \<Rightarrow> bool" where
  "node_traffic api f \<longleftrightarrow> (\<exists>data. f = handle_data api data) \<or> (\<exists>event. f = handle_timer api event) \<or>
     (\<exists>dst. f = announce api dst) \<or> f = gossip api \<or> f = node_broadcast api \<or> f = leave api"

lemma node_traffic_simps [simp]:
  "node_traffic api (handle_data api data)" "node_traffic api (handle_timer api event)" "node_traffic api (announce api dst)"
  "node_traffic api (gossip api)" "node_traffic api (node_broadcast api)" "node_traffic api (leave api)"
  by (auto simp: node_traffic_def)

text \<open>
  The loop runs an arm, a handle sends a trust update or a key, or a renewal of revisions is answered;
  the renewer persists a range past the last revision of the one in use.
\<close>

definition renewal_ok :: "revision_clock \<Rightarrow> renewal_reply \<Rightarrow> bool" where
  "renewal_ok c reply \<longleftrightarrow> reply \<noteq> Pending \<and> (\<forall>first_revision last_revision. reply = Sent (Inr (first_revision, last_revision)) \<longrightarrow>
     rc_last c < first_revision \<and> first_revision \<le> last_revision \<and> last_revision < u64_MAX)"

inductive runtime_step ::
  "('f, 't, 'a::linorder) runtime_env \<Rightarrow> ('f, 't, 'a) swim_runtime \<Rightarrow> ('f, 't, 'a) swim_runtime \<Rightarrow> bool" for env where
  step_trust: "ru_running s \<Longrightarrow> runtime_step env s (on_trust_update env s)"
| step_packet: "ru_running s \<Longrightarrow> runtime_step env s (on_packet env turn raw s)"
| step_timer: "ru_running s \<Longrightarrow> runtime_step env s (on_timer env turn event s)"
| step_broadcast: "ru_running s \<Longrightarrow> runtime_step env s (on_broadcast env turn bc s)"
| step_inventory: "ru_running s \<Longrightarrow> runtime_step env s (on_inventory_frame env turn frame s)"
| step_leave: "ru_running s \<Longrightarrow> runtime_step env s (on_leave env turn s)"
| step_withdraw: "ru_running s \<Longrightarrow> runtime_step env s (on_withdraw env turn grid_id request s)"
| step_seeds: "ru_running s \<Longrightarrow> runtime_step env s (on_seeds env turn seeds s)"
| step_tick: "ru_running s \<Longrightarrow> runtime_step env s (on_tick env turn s)"
| step_gateway: "ru_running s \<Longrightarrow> runtime_step env s (on_gateway env turn gateway_address s)"
| step_update: "update_ok (cf_site_name (ru_config s)) update \<Longrightarrow> runtime_step env s (send_trust_update update s)"
| step_key: "runtime_step env s (set_swim_key key s)"
| step_release: "runtime_step env s (snd (release_plain s))"
| step_renewal: "rc_renewal (ru_revisions s) = Some Pending \<Longrightarrow> renewal_ok (ru_revisions s) reply \<Longrightarrow>
    runtime_step env s (s\<lparr>ru_revisions := (ru_revisions s)\<lparr>rc_renewal := Some reply\<rparr>\<rparr>)"

abbreviation runtime_steps ::
  "('f, 't, 'a::linorder) runtime_env \<Rightarrow> ('f, 't, 'a) swim_runtime \<Rightarrow> ('f, 't, 'a) swim_runtime \<Rightarrow> bool" where
  "runtime_steps env \<equiv> (runtime_step env)\<^sup>*\<^sup>*"

text \<open>A runtime that started, with a lease below the largest revision.\<close>

definition runtime_started ::
  "('f, 't, 'a::linorder) runtime_env \<Rightarrow> swim_config \<Rightarrow> ('f, 't, 'a) swim_runtime \<Rightarrow> bool" where
  "runtime_started env config s \<longleftrightarrow> rl_last_revision (cf_revision_lease config) < u64_MAX \<and>
     (\<exists>local_addr turn. runtime_start env config local_addr turn = Inr s)"

subsection \<open>The contract of a turn\<close>

text \<open>Two states that differ in timers, watches of members and inventories, seeds and deadlines at most.\<close>

definition same_core :: "('f, 't, 'a) swim_runtime \<Rightarrow> ('f, 't, 'a) swim_runtime \<Rightarrow> bool" where
  "same_core s s' \<longleftrightarrow> ru_config s' = ru_config s \<and> ru_node s' = ru_node s \<and> ru_tracked s' = ru_tracked s \<and> ru_key s' = ru_key s \<and>
     ru_retained s' = ru_retained s \<and> ru_pending s' = ru_pending s \<and> ru_trust s' = ru_trust s \<and> ru_revisions s' = ru_revisions s \<and>
     ru_state s' = ru_state s \<and> ru_trust_updates s' = ru_trust_updates s \<and>
     ru_trust_sent s' = ru_trust_sent s \<and> ru_sent s' = ru_sent s \<and>
     ru_published s' = ru_published s \<and> ru_acked s' = ru_acked s"

locale turns_lawful =
  fixes env :: "('f, 't, 'a::linorder) runtime_env"
    and R :: "('f, 't, 'a) swim_runtime \<Rightarrow> ('f, 't, 'a) swim_runtime \<Rightarrow> bool"
  assumes refl: "R s s"
    and trans: "R a b \<Longrightarrow> R b c \<Longrightarrow> R a c"
    and quiet: "same_core s s' \<Longrightarrow> R s s'"
    and node: "node_traffic (re_foca env) f \<Longrightarrow> R s (run_node env turn f s)"
    and shown: "R s (publish_state s)"
    and unused: "R s (snd (take_revision turn s))"
    and address: "take_revision turn s = (Some revision, s1) \<Longrightarrow> same_core s1 s2 \<Longrightarrow>
      R s (publish_address_broadcast env turn revision s2)"
    and trust: "R s (on_trust_update env s)"
    and broadcast: "R s (on_broadcast env turn bc s)"
    and withdrawal: "take_revision turn s = (Some revision, s1) \<Longrightarrow> R s (publish_withdrawal env turn grid_id revision s1)"
    and queued: "queue_withdrawal closed grid_id request (ru_pending s, ru_retained s) = (pending, retained) \<Longrightarrow>
      R s (s\<lparr>ru_pending := pending, ru_retained := retained\<rparr>)"
    and repair: "take_revision turn s = (Some revision, s1) \<Longrightarrow> R s (republish_scope env turn scope revision s1)"
    and inventory: "R s (s\<lparr>ru_node := snd (publish_model_inventory_broadcast (re_foca env) frame (ru_node s))\<rparr>)"
    and evicted: "R s (evict_origins origins s)"
    and tracked: "R s (s\<lparr>ru_tracked := snd (snd (tick_members (re_addr env) clock now ttl live (ru_tracked s)))\<rparr>)"
    and update: "update_ok (cf_site_name (ru_config s)) u \<Longrightarrow> R s (send_trust_update u s)"
    and keyed: "R s (set_swim_key key s)"
    and released: "R s (snd (release_plain s))"
    and renewed: "rc_renewal (ru_revisions s) = Some Pending \<Longrightarrow> renewal_ok (ru_revisions s) reply \<Longrightarrow>
      R s (s\<lparr>ru_revisions := (ru_revisions s)\<lparr>rc_renewal := Some reply\<rparr>\<rparr>)"
begin

lemma members: "R s (publish_members env now s)"
  by (rule quiet) (simp add: same_core_def)

lemma inventories: "R s (publish_model_inventories clock s)"
  by (rule quiet) (simp add: same_core_def publish_model_inventories_def)

lemma seeds: "R s (announce_all env turn s)"
proof -
  have "R s (fold (\<lambda>addr. run_node env turn (announce (re_foca env) (node_id_seed addr))) addrs s)" for addrs s
  proof (induction addrs arbitrary: s)
    case (Cons addr addrs)
    have "R s (run_node env turn (announce (re_foca env) (node_id_seed addr)) s)"
      by (rule node) simp
    from trans [OF this Cons.IH] show ?case
      by simp
  qed (simp add: refl)
  then show ?thesis
    by (simp add: announce_all_def)
qed

text \<open>The addresses, gossip and the state again, as three arms do it.\<close>

lemma addresses:
  assumes "take_revision turn s = (Some revision, s1)" "same_core s1 s2"
  shows "R s (publish_state (run_node env turn (gossip (re_foca env)) (publish_address_broadcast env turn revision s2)))"
  by (rule trans [OF address [OF assms] trans [OF node shown]]) simp

lemma addresses_again: "R s (republish_addresses env turn s)"
proof -
  obtain revision s1 where eq: "take_revision turn s = (revision, s1)"
    by (cases "take_revision turn s")
  show ?thesis
  proof (cases revision)
    case None
    have "same_core s1 (s1\<lparr>ru_next_gateway_republish_at := tn_now turn + 1000000000\<rparr>)"
      by (simp add: same_core_def)
    from trans [OF unused [of s turn, unfolded eq snd_conv] quiet [OF this]] eq None show ?thesis
      by (simp add: republish_addresses_def refl Let_def)
  next
    case (Some r)
    let ?s = "publish_state (run_node env turn (gossip (re_foca env))
      (publish_address_broadcast env turn r (s1\<lparr>ru_gateway_address_revision := r\<rparr>)))"
    have "R s ?s"
      using eq Some by (intro addresses) (simp_all add: same_core_def)
    moreover have "R ?s (?s\<lparr>ru_next_gateway_republish_at := tn_now turn + 1000000000\<rparr>)"
      by (rule quiet) (simp add: same_core_def)
    ultimately have "R s (?s\<lparr>ru_next_gateway_republish_at := tn_now turn + 1000000000\<rparr>)"
      by (rule trans)
    with eq Some show ?thesis
      by (simp add: republish_addresses_def refl Let_def)
  qed
qed

lemma packet: "R s (on_packet env turn raw s)"
proof (cases "wire_plaintext (re_aead env) (ru_key s) raw")
  case (Inr data)
  have "R s (republish_addresses env turn (publish_members env (tn_now turn) (publish_model_inventories (tn_clock turn)
      (publish_state (run_node env turn (handle_data (re_foca env) data) s)))))"
    by (rule trans [OF node trans [OF shown trans [OF inventories trans [OF members addresses_again]]]]) simp
  with Inr show ?thesis
    by (simp add: on_packet_def Let_def)
qed (simp add: on_packet_def refl)

lemma frame: "R s (on_inventory_frame env turn frame s)"
proof -
  let ?n = "publish_model_inventory_broadcast (re_foca env) frame (ru_node s)"
  have "R s (publish_model_inventories (tn_clock turn) (run_node env turn (node_broadcast (re_foca env)) (s\<lparr>ru_node := snd ?n\<rparr>)))"
    by (rule trans [OF inventory trans [OF node inventories]]) simp
  then show ?thesis
    using inventory by (simp add: on_inventory_frame_def case_prod_unfold refl split: sum.split)
qed

lemma left_cluster: "R s (on_leave env turn s)"
proof -
  have "R (run_node env turn (leave (re_foca env)) s) (on_leave env turn s)"
    by (rule quiet) (simp add: same_core_def on_leave_def)
  then show ?thesis
    by (rule trans [OF node [OF node_traffic_simps(6)]])
qed

lemma withdrawals: "R s (publish_pending_withdrawals env turn s)"
proof -
  have "R s (publish_withdrawals env turn grid_ids s)" for grid_ids
  proof (induction grid_ids arbitrary: s)
    case (Cons grid_id grid_ids)
    obtain revision s1 where eq: "take_revision turn s = (revision, s1)"
      by (cases "take_revision turn s")
    show ?case
    proof (cases revision)
      case None
      with eq unused [of s turn] show ?thesis
        by simp
    next
      case (Some r)
      with eq trans [OF withdrawal Cons.IH] show ?thesis
        by simp
    qed
  qed (simp add: refl)
  then show ?thesis
    by (simp add: publish_pending_withdrawals_def)
qed

lemma withdrawn: "R s (on_withdraw env turn grid_id request s)"
proof -
  obtain pending retained where q: "queue_withdrawal (tn_closed turn) grid_id request (ru_pending s, ru_retained s) = (pending, retained)"
    by (cases "queue_withdrawal (tn_closed turn) grid_id request (ru_pending s, ru_retained s)")
  from trans [OF queued [OF q] withdrawals] q show ?thesis
    by (simp add: on_withdraw_def)
qed

lemma new_seeds: "R s (on_seeds env turn addrs s)"
proof -
  have "same_core s (s\<lparr>ru_seed_addrs := foreign_seeds addrs (ru_own s)\<rparr>)"
    by (simp add: same_core_def)
  from trans [OF quiet [OF this] seeds] show ?thesis
    by (simp add: on_seeds_def)
qed

lemma repairs: "R s (republish_state env turn s)"
proof -
  have all: "R s (snd (republish_scopes env turn scopes s))" for scopes
  proof (induction scopes arbitrary: s)
    case (Cons scope scopes)
    obtain revision s1 where eq: "take_revision turn s = (revision, s1)"
      by (cases "take_revision turn s")
    show ?case
    proof (cases revision)
      case None
      with eq unused [of s turn] show ?thesis
        by simp
    next
      case (Some r)
      with eq trans [OF repair Cons.IH] show ?thesis
        by simp
    qed
  qed (simp add: refl)
  obtain exhausted s1 where eq: "republish_scopes env turn (fmkeys (ru_retained s)) s = (exhausted, s1)"
    by (cases "republish_scopes env turn (fmkeys (ru_retained s)) s")
  have "same_core s1 (s1\<lparr>ru_next_state_republish_at := tn_now turn + STATE_REPUBLISH_INTERVAL\<rparr>)"
    by (simp add: same_core_def)
  from trans [OF _ quiet [OF this], of s] all [of "fmkeys (ru_retained s)"] eq show ?thesis
    by (simp add: republish_state_def refl)
qed

lemma tick: "R s (on_tick env turn s)"
proof -
  have again: "R s (announce_seeds_again env turn s)" for s
  proof -
    have "R (announce_all env turn s) ((announce_all env turn s)\<lparr>ru_next_seed_announce_at := tn_now turn + 5000000000\<rparr>)"
      by (rule quiet) (simp add: same_core_def)
    from trans [OF seeds this] show ?thesis
      by (simp add: announce_seeds_again_def refl)
  qed
  have "R s (tick_mirror env turn s)" for s
  proof -
    obtain gone changed table where eq: "tick_members (re_addr env) (tn_clock turn) (tn_now turn) (cf_dead_member_ttl (ru_config s))
        (re_live env (sn_foca (ru_node s))) (ru_tracked s) = (gone, changed, table)"
      by (metis prod_cases3)
    have "R s (s\<lparr>ru_tracked := table\<rparr>)"
      using tracked [of s "tn_clock turn" "tn_now turn" "cf_dead_member_ttl (ru_config s)" "re_live env (sn_foca (ru_node s))"]
      by (simp add: eq)
    from trans [OF this evicted [of _ gone]] trans [OF trans [OF this evicted [of _ gone]] members] show ?thesis
      by (simp add: tick_mirror_def eq Let_def)
  qed
  from trans [OF inventories trans [OF withdrawals trans [OF repairs trans [OF again this]]]] show ?thesis
    by (simp add: on_tick_def Let_def)
qed

lemma gateway: "R s (on_gateway env turn addr s)"
proof -
  let ?s = "s\<lparr>ru_gateway_address := addr\<rparr>"
  have start: "R s ?s"
    by (rule quiet) (simp add: same_core_def)
  obtain revision s1 where eq: "take_revision turn ?s = (revision, s1)"
    by (cases "take_revision turn ?s")
  have "R ?s (on_gateway env turn addr s)"
  proof (cases revision)
    case None
    with unused [of ?s turn] eq show ?thesis
      by (cases addr) (simp_all add: on_gateway_def refl)
  next
    case (Some r)
    have "R ?s (publish_state (run_node env turn (gossip (re_foca env))
        (publish_address_broadcast env turn r (s1\<lparr>ru_gateway_address_revision := r\<rparr>))))"
      using eq Some by (intro addresses) (simp_all add: same_core_def)
    with eq Some show ?thesis
      by (cases addr) (simp_all add: on_gateway_def refl Let_def)
  qed
  with start show ?thesis
    by (rule trans)
qed

lemma started:
  assumes "runtime_start env config local_addr turn = Inr s"
  obtains c where "revision_clock_new (cf_revision_lease config) (cf_revision_renewer config) = Inr c"
    "R (runtime_new env config local_addr turn c 0) s"
proof -
  obtain c r c' where c: "revision_clock_new (cf_revision_lease config) (cf_revision_renewer config) = Inr c"
    "clock_take (tn_now turn) c = (Some r, c')"
    "s = announce_all env turn (publish_address_broadcast env turn r (runtime_new env config local_addr turn c' r))"
    using assms by (auto simp: runtime_start_def Let_def split: sum.splits if_splits prod.splits option.splits)
  let ?s = "runtime_new env config local_addr turn c 0"
  have "take_revision turn ?s = (Some r, ?s\<lparr>ru_revisions := c'\<rparr>)"
    using c(2) by (simp add: take_revision_def runtime_new_def Let_def)
  moreover have "same_core (?s\<lparr>ru_revisions := c'\<rparr>) (runtime_new env config local_addr turn c' r)"
    by (simp add: same_core_def runtime_new_def Let_def)
  ultimately have "R ?s (publish_address_broadcast env turn r (runtime_new env config local_addr turn c' r))"
    by (rule address)
  from trans [OF this seeds] c(1,3) show ?thesis
    by (intro that [of c]) simp_all
qed

theorem step: "runtime_step env s s' \<Longrightarrow> R s s'"
  by (induction rule: runtime_step.induct)
    (auto simp: on_timer_def intro: trust packet node broadcast frame left_cluster withdrawn new_seeds tick gateway update keyed
      released renewed)

theorem steps: "runtime_steps env s s' \<Longrightarrow> R s s'"
  by (induction rule: rtranclp_induct) (auto intro: refl trans step)

end

subsection \<open>The contract of a call\<close>

text \<open>
  For a relation that looks neither at what is retained, pending or published nor at the revisions,
  single calls suffice.
\<close>

definition same_view :: "('f, 't, 'a) swim_runtime \<Rightarrow> ('f, 't, 'a) swim_runtime \<Rightarrow> bool" where
  "same_view s s' \<longleftrightarrow> ru_config s' = ru_config s \<and> ru_node s' = ru_node s \<and> ru_tracked s' = ru_tracked s \<and> ru_key s' = ru_key s \<and>
     ru_trust s' = ru_trust s \<and> ru_state s' = ru_state s \<and> ru_trust_updates s' = ru_trust_updates s \<and>
     ru_trust_sent s' = ru_trust_sent s \<and> ru_sent s' = ru_sent s"

locale acts_lawful =
  fixes env :: "('f, 't, 'a::linorder) runtime_env"
    and R :: "('f, 't, 'a) swim_runtime \<Rightarrow> ('f, 't, 'a) swim_runtime \<Rightarrow> bool"
  assumes act_trans: "R a b \<Longrightarrow> R b c \<Longrightarrow> R a c"
    and act_view: "same_view s s' \<Longrightarrow> R s s'"
    and act_node: "node_traffic (re_foca env) f \<Longrightarrow> R s (run_node env turn f s)"
    and act_shown: "R s (publish_state s)"
    and act_publish: "R s (snd (publish_broadcast env bc s))"
    and act_trust: "ru_trust_updates s = u # us \<Longrightarrow> R s (apply_trust env u (s\<lparr>ru_trust_updates := us\<rparr>))"
    and act_inventory: "R s (s\<lparr>ru_node := snd (publish_model_inventory_broadcast (re_foca env) frame (ru_node s))\<rparr>)"
    and act_evicted: "R s (evict_origins origins s)"
    and act_tracked: "R s (s\<lparr>ru_tracked := snd (snd (tick_members (re_addr env) clock now ttl live (ru_tracked s)))\<rparr>)"
    and act_update: "update_ok (cf_site_name (ru_config s)) u \<Longrightarrow> R s (send_trust_update u s)"
    and act_keyed: "R s (set_swim_key key s)"
    and act_released: "R s (snd (release_plain s))"
begin

lemma act_refl: "R s s"
  by (rule act_view) (simp add: same_view_def)

lemma act_take: "take_revision turn s = (revision, s1) \<Longrightarrow> R s s1"
  by (rule act_view) (auto simp: same_view_def take_revision_def split: prod.splits)

lemma act_core: "same_core s s' \<Longrightarrow> R s s'"
  by (rule act_view) (simp add: same_view_def same_core_def)

lemma act_address: "R s (publish_address_broadcast env turn revision s)"
proof -
  have "R s (fold (publish_scoped env) bs s)" for bs
  proof (induction bs arbitrary: s)
    case (Cons b bs)
    have "R s (publish_scoped env b s)"
      by (simp add: publish_scoped_def act_refl act_publish split: sum.split)
    from act_trans [OF this Cons.IH] show ?case
      by simp
  qed (simp add: act_refl)
  then show ?thesis
    by (simp add: publish_address_broadcast_def Let_def act_refl)
qed

lemma act_drained: "R s (drain_trust_updates env s)"
proof (induction "ru_trust_updates s" arbitrary: s)
  case Nil
  then have "drain_trust_updates env s = s"
    by (simp add: drain_trust_updates_def)
  then show ?case
    by (simp add: act_refl)
next
  case (Cons u us)
  let ?s = "apply_trust env u (s\<lparr>ru_trust_updates := us\<rparr>)"
  have "R ?s (drain_trust_updates env ?s)"
    by (rule Cons.hyps(1)) simp
  from act_trans [OF act_trust [OF Cons.hyps(2) [symmetric]] this] show ?case
    by (simp add: drain_trust_Cons [OF Cons.hyps(2) [symmetric]])
qed

text \<open>A publication, and what is sent of it when the node accepted it.\<close>

lemma act_sent: "R s (case publish_broadcast env b s of (Inl _, s) \<Rightarrow> s | (Inr _, s) \<Rightarrow> run_node env turn (node_broadcast (re_foca env)) s)"
proof -
  obtain result s1 where eq: "publish_broadcast env b s = (result, s1)"
    by (cases "publish_broadcast env b s")
  have "R s s1"
    using act_publish [of s b] by (simp add: eq)
  with act_trans [OF this act_node] show ?thesis
    by (simp add: eq split: sum.split)
qed

lemma act_send: "R s (send_state env turn bc s)"
proof -
  let ?s = "drain_trust_updates env s"
  have "R s (publish_model_inventories (tn_clock turn) (publish_state
      (case publish_broadcast env b ?s of (Inl _, s) \<Rightarrow> s | (Inr _, s) \<Rightarrow> run_node env turn (node_broadcast (re_foca env)) s)))" for b
    by (rule act_trans [OF act_drained act_trans [OF act_sent act_trans [OF act_shown act_core]]])
      (simp add: same_core_def publish_model_inventories_def)
  then show ?thesis
    using act_drained by (simp add: send_state_def Let_def split: sum.split)
qed

lemma act_broadcast: "R s (on_broadcast env turn bc s)"
proof -
  obtain revision s1 where eq: "take_revision turn s = (revision, s1)"
    by (cases "take_revision turn s")
  have changed: "R s (s1\<lparr>ru_retained := r, ru_next_state_republish_at := t\<rparr>)" "R s (s1\<lparr>ru_retained := r\<rparr>)" for r t
    by (rule act_trans [OF act_take [OF eq] act_view], simp add: same_view_def)+
  show ?thesis
    using changed act_trans [OF changed(2) act_send] act_send act_refl
    by (simp add: on_broadcast_def eq Let_def split: option.split sum.split prod.split)
qed

lemma act_withdrawal: "R s (publish_withdrawal env turn grid_id revision s)"
proof (cases "sign_broadcast env turn s (withdrawal_broadcast (cf_site_name (ru_config s)) grid_id revision)")
  case (Inr w)
  obtain result s1 where eq: "publish_broadcast env w s = (result, s1)"
    by (cases "publish_broadcast env w s")
  have one: "R s s1"
    using act_publish [of s w] by (simp add: eq)
  let ?s = "publish_state (run_node env turn (node_broadcast (re_foca env)) s1)"
  have "R s ?s"
    by (rule act_trans [OF one act_trans [OF act_node act_shown]]) simp
  moreover have "R ?s (?s\<lparr>ru_retained := r\<rparr>)" "R ?s (?s\<lparr>ru_retained := r, ru_pending := p, ru_acked := a\<rparr>)" for r p a
    by (rule act_view, simp add: same_view_def)+
  ultimately show ?thesis
    using Inr one act_trans by (simp add: publish_withdrawal_def eq Let_def split: sum.split option.split)
qed (simp add: publish_withdrawal_def act_refl)

lemma act_repair: "R s (republish_scope env turn scope revision s)"
proof (cases "fmlookup (ru_retained s) scope")
  case (Some retained)
  let ?s = "s\<lparr>ru_retained := fmupd scope (retained_republish revision retained) (ru_retained s)\<rparr>"
  have "R s ?s"
    by (rule act_view) (simp add: same_view_def)
  with act_trans [OF this act_sent] Some show ?thesis
    by (simp add: republish_scope_def Let_def split: sum.split)
qed (simp add: republish_scope_def act_refl)

end

sublocale acts_lawful \<subseteq> turns_lawful env R
proof unfold_locales
  show "R s (on_trust_update env s)" for s
    using act_trust act_refl by (simp add: on_trust_update_def split: list.split)
  show "R s (publish_address_broadcast env turn revision s2)"
    if "take_revision turn s = (Some revision, s1)" "same_core s1 s2" for turn s revision s1 s2
    by (rule act_trans [OF act_take [OF that(1)] act_trans [OF act_core [OF that(2)] act_address]])
  show "R s (publish_withdrawal env turn grid_id revision s1)" "R s (republish_scope env turn scope revision s1)"
    if "take_revision turn s = (Some revision, s1)" for turn s revision s1 grid_id scope
    using act_trans [OF act_take [OF that]] act_withdrawal act_repair by blast+
  show "R s (s\<lparr>ru_pending := p, ru_retained := r\<rparr>)" "R s (s\<lparr>ru_revisions := c\<rparr>)" for s p r c
    by (rule act_view, simp add: same_view_def)+
  show "R s (snd (take_revision turn s))" for s turn
    by (rule act_take [OF prod.collapse [symmetric]])
qed (fact act_refl act_trans act_core act_node act_shown act_broadcast act_inventory act_evicted act_tracked act_update act_keyed
    act_released | (erule act_trans, assumption) | (erule act_core) | (erule act_node) | (erule act_update))+

end
