(* ===== verification/RuntimeSafety.thy ===== *)
theory RuntimeSafety
  imports RuntimeLaws
begin

section \<open>The SWIM loop: its node and its trust\<close>

text \<open>
  Every run of the loop is a run of its node and of its member table; what readers see was shown by the
  node under the trust of the moment; and the trust of the node is the policy the controllers asked for.
\<close>

subsection \<open>Runs of the node and of the mirror\<close>

lemma receive_item_trust [simp]: "hs_trust_store (snd (receive_item env now data h)) = hs_trust_store h"
proof -
  have room: "hs_trust_store h' = hs_trust_store h" if "make_room_for site h = (ok, h')" for site ok h h'
    using that by (cases rule: make_room_cases [of site h]) auto
  have "hs_trust_store (snd (receive_state_broadcast env now b h)) = hs_trust_store h" for b
    by (cases rule: receive_state_cases [of env now b h]) (auto dest: room)
  moreover have "hs_trust_store (snd (receive_model_inventory env now data h)) = hs_trust_store h"
    by (cases rule: receive_inventory_cases [of env now data h])
      (auto dest: room simp: frame_pushed_def publish_verified_inventories_eq)
  ultimately show ?thesis
    by (simp add: receive_item_def split: sum.split)
qed

lemma items_trust: "(item_step env)\<^sup>*\<^sup>* h h' \<Longrightarrow> hs_trust_store h' = hs_trust_store h"
  by (induction rule: rtranclp_induct) (auto elim: item_step.cases)

lemma traffic_trust:
  assumes "foca_lawful henv api"
  shows "node_traffic api f \<Longrightarrow> trust_of (snd (f n)) = trust_of n"
    "trust_of (snd (publish_state_broadcast henv api b n)) = trust_of n"
    "trust_of (snd (publish_model_inventory_broadcast api frame n)) = trust_of n"
  using traffic_items [OF assms, THEN items_trust] by (auto simp: node_traffic_def)

lemma traffic_step: "node_traffic api f \<Longrightarrow> node_step henv api n (snd (f n))"
  by (auto simp: node_traffic_def intro: node_step.intros)

lemma evict_origins_node:
  "ru_node (evict_origins origins s) = fold (evict_or_forget (cf_departed (ru_config s))) origins (ru_node s)"
  "ru_state (evict_origins origins s) = (if origins = [] then ru_state s else hs_state (sn_handler (ru_node (evict_origins origins s))))"
  by (simp_all add: evict_origins_def)

lemma evict_or_forget_trust [simp]: "trust_of (evict_or_forget departed origin n) = trust_of n"
  by (simp add: evict_or_forget_def forget_departed_origin_def evict_origin_def control_remove_origin_eq
      control_forget_departed_def publish_departed_def split: departed.split)

lemma evicted_trust [simp]: "trust_of (fold (evict_or_forget departed) origins n) = trust_of n"
  by (induction origins arbitrary: n) simp_all

lemma evicted_steps: "node_steps henv api n (fold (evict_or_forget departed) origins n)"
  by (rule fold_node_steps)
    (auto simp: evict_or_forget_def split: departed.split intro: r_into_rtranclp node_evict node_forget)

lemma mirror_events: "(mirror_step addr_of)\<^sup>*\<^sup>* tracked (fold (apply_member_event_bounded addr_of clock now) events tracked)"
proof (induction events arbitrary: tracked)
  case (Cons event events)
  from converse_rtranclp_into_rtranclp [OF mirror_event Cons.IH] show ?case
    by simp
qed simp

text \<open>
  The state readers see is one the node had, in this run, under the trust store it has now.
\<close>

abbreviation node_start :: "('f, 't, 'a) runtime_env \<Rightarrow> node_id \<Rightarrow> ('f, 't) swim_node" where
  "node_start env identity \<equiv> with_origin_capacity (re_foca env) identity MAX_TRACKED_MEMBERS"

definition shown_under ::
  "('f, 't, 'a) runtime_env \<Rightarrow> node_id \<Rightarrow> ('f, 't, 'a) swim_runtime \<Rightarrow> ('f, 't) swim_node \<Rightarrow> bool" where
  "shown_under env identity s n \<longleftrightarrow> node_steps (re_handler env) (re_foca env) (node_start env identity) n \<and>
     trust_of n = trust_of (ru_node s) \<and> ru_state s = hs_state (sn_handler n)"

definition anchored :: "('f, 't, 'a::linorder) runtime_env \<Rightarrow> node_id \<Rightarrow> ('f, 't, 'a) swim_runtime \<Rightarrow> bool" where
  "anchored env identity s \<longleftrightarrow> node_steps (re_handler env) (re_foca env) (node_start env identity) (ru_node s) \<and>
     (mirror_step (re_addr env))\<^sup>*\<^sup>* fmempty (ru_tracked s) \<and> (\<exists>n. shown_under env identity s n)"

lemma anchored_node:
  assumes "anchored env identity s" "node_steps (re_handler env) (re_foca env) (ru_node s) (ru_node s')"
    and "(mirror_step (re_addr env))\<^sup>*\<^sup>* (ru_tracked s) (ru_tracked s')"
    and "trust_of (ru_node s') = trust_of (ru_node s) \<and> ru_state s' = ru_state s \<or> ru_state s' = hs_state (sn_handler (ru_node s'))"
  shows "anchored env identity s'"
proof -
  have steps: "node_steps (re_handler env) (re_foca env) (node_start env identity) (ru_node s')"
    using assms(1,2) by (auto simp: anchored_def)
  moreover have "(mirror_step (re_addr env))\<^sup>*\<^sup>* fmempty (ru_tracked s')"
    using assms(1,3) by (auto simp: anchored_def)
  moreover have "\<exists>n. shown_under env identity s' n"
    using assms(1,4) steps by (auto simp: anchored_def shown_under_def)
  ultimately show ?thesis
    by (simp add: anchored_def)
qed

lemma anchored_evicted: "anchored env identity s \<Longrightarrow> anchored env identity (evict_origins origins s)"
  by (erule anchored_node) (auto simp: evict_origins_node evicted_steps)

interpretation anchor: acts_lawful env
  "\<lambda>s s'. foca_lawful (re_handler env) (re_foca env) \<longrightarrow> anchored env identity s \<longrightarrow> anchored env identity s'"
  for env :: "('f, 't, 'a::linorder) runtime_env" and identity
proof (unfold_locales; intro impI)
  fix s :: "('f, 't, 'a) swim_runtime"
  assume lawful: "foca_lawful (re_handler env) (re_foca env)" and ok: "anchored env identity s"
  show "anchored env identity (run_node env turn f s)" if "node_traffic (re_foca env) f" for f turn
    using traffic_step [OF that] mirror_events traffic_trust(1) [OF lawful that]
    by (intro anchored_node [OF ok]) (simp_all add: r_into_rtranclp)
  show "anchored env identity (snd (publish_broadcast env bc s))" for bc
    using traffic_trust(2) [OF lawful] by (intro anchored_node [OF ok]) (auto intro: node_publish)
  show "anchored env identity (apply_trust env u (s\<lparr>ru_trust_updates := us\<rparr>))" for u us
    using trust_apply_steps [of "re_handler env" "re_foca env" "(ru_trust s, ru_node s)" "re_signer env" "cf_site_name (ru_config s)" u]
    by (intro anchored_node [OF ok]) (auto simp: apply_trust_queue)
  show "anchored env identity (s\<lparr>ru_node := snd (publish_model_inventory_broadcast (re_foca env) frame (ru_node s))\<rparr>)" for frame
    using traffic_trust(3) [OF lawful] by (intro anchored_node [OF ok]) (auto intro: node_publish_inventory)
  show "anchored env identity (s\<lparr>ru_tracked := snd (snd (tick_members (re_addr env) clock now ttl live (ru_tracked s)))\<rparr>)"
    for clock now ttl live
    by (intro anchored_node [OF ok]) (auto intro: mirror_tick)
qed (auto simp: same_view_def send_trust_update_def set_swim_key_def release_plain_def anchored_evicted intro: anchored_node)

definition runtime_identity :: "swim_config \<Rightarrow> socket_addr \<Rightarrow> node_id" where
  "runtime_identity config local_addr = with_generation_range (cf_site_name config)
     (case cf_advertise_addr config of None \<Rightarrow> local_addr | Some addr \<Rightarrow> addr)
     (rl_first_node_generation (cf_revision_lease config)) (rl_last_node_generation (cf_revision_lease config))"

lemma anchored_new: "anchored env (runtime_identity config local_addr) (runtime_new env config local_addr turn c r)"
proof -
  let ?i = "runtime_identity config local_addr" and ?s = "runtime_new env config local_addr turn c r"
  have node: "ru_node ?s = hold_state_admission (node_start env ?i)"
    by (simp add: runtime_new_def runtime_identity_def Let_def)
  have "node_steps (re_handler env) (re_foca env) (node_start env ?i) (ru_node ?s)"
    unfolding node by (rule r_into_rtranclp) (rule node_hold)
  moreover have "hs_state (sn_handler (ru_node ?s)) = ru_state ?s"
    unfolding node by (simp add: hold_state_admission_def send_modify_def with_origin_capacity_def with_capacity_def
        runtime_identity_def with_generation_range_def runtime_new_def Let_def)
  moreover have "ru_tracked ?s = fmempty"
    by (simp add: runtime_new_def Let_def)
  ultimately show ?thesis
    by (auto simp: anchored_def shown_under_def)
qed

text \<open>The runs of a runtime from its start.\<close>

definition runtime_run ::
  "('f, 't, 'a::linorder) runtime_env \<Rightarrow> swim_config \<Rightarrow> ('f, 't, 'a) swim_runtime \<Rightarrow> bool" where
  "runtime_run env config s \<longleftrightarrow> (\<exists>s0. runtime_started env config s0 \<and> runtime_steps env s0 s)"

lemma anchored_run:
  assumes "foca_lawful (re_handler env) (re_foca env)" "runtime_run env config s"
  obtains local_addr where "anchored env (runtime_identity config local_addr) s"
proof -
  obtain s0 local_addr turn where s0: "runtime_start env config local_addr turn = Inr s0" "runtime_steps env s0 s"
    using assms(2) by (auto simp: runtime_run_def runtime_started_def)
  have "anchored env (runtime_identity config local_addr) s0"
    using assms(1) anchored_new by (cases rule: anchor.started [OF s0(1), of "runtime_identity config local_addr"]) blast
  with anchor.steps [OF s0(2), of "runtime_identity config local_addr"] assms(1) show ?thesis
    by (intro that) blast
qed

subsection \<open>The trust of the node\<close>

definition trusted :: "('f, 't, 'a) runtime_env \<Rightarrow> ('f, 't, 'a) swim_runtime \<Rightarrow> bool" where
  "trusted env s \<longleftrightarrow>
     trust_ok (re_signer env) (cf_site_name (ru_config s)) (ru_trust s) (trust_of (ru_node s)) \<and>
     list_all (update_ok (cf_site_name (ru_config s))) (ru_trust_sent s) \<and>
     (\<exists>applied. ru_trust_sent s = applied @ ru_trust_updates s \<and>
        policy (trust_of (ru_node s)) = fold (policy_update (re_signer env) (cf_site_name (ru_config s))) applied (\<lambda>_. None))"

lemma trusted_cong:
  assumes "trust_of (ru_node s') = trust_of (ru_node s)" "ru_trust s' = ru_trust s" "ru_config s' = ru_config s"
    "ru_trust_sent s' = ru_trust_sent s" "ru_trust_updates s' = ru_trust_updates s"
  shows "trusted env s \<Longrightarrow> trusted env s'"
  by (simp add: trusted_def assms)

lemma trusted_apply:
  assumes "trusted env s" "ru_trust_updates s = u # us"
  shows "trusted env (apply_trust env u (s\<lparr>ru_trust_updates := us\<rparr>))"
proof -
  let ?site = "cf_site_name (ru_config s)"
  obtain trust' node' where eq: "trust_apply (re_signer env) ?site u (ru_trust s, ru_node s) = (trust', node')"
    by (cases "trust_apply (re_signer env) ?site u (ru_trust s, ru_node s)")
  obtain applied where applied: "ru_trust_sent s = applied @ u # us"
    "policy (trust_of (ru_node s)) = fold (policy_update (re_signer env) ?site) applied (\<lambda>_. None)"
    using assms by (auto simp: trusted_def)
  have ok: "trust_ok (re_signer env) ?site (ru_trust s) (trust_of (ru_node s))" "update_ok ?site u"
    "list_all (update_ok ?site) (ru_trust_sent s)"
    using assms(1) applied(1) by (simp_all add: trusted_def)
  from trust_apply_ok [OF ok(1,2) eq] applied ok(3) show ?thesis
    by (auto simp: trusted_def apply_trust_queue eq intro!: exI [of _ "applied @ [u]"])
qed

interpretation trust: acts_lawful env
  "\<lambda>s s'. foca_lawful (re_handler env) (re_foca env) \<longrightarrow> trusted env s \<longrightarrow> trusted env s'"
  for env :: "('f, 't, 'a::linorder) runtime_env"
proof (unfold_locales; intro impI)
  fix s :: "('f, 't, 'a) swim_runtime"
  assume lawful: "foca_lawful (re_handler env) (re_foca env)" and ok: "trusted env s"
  show "trusted env (run_node env turn f s)" if "node_traffic (re_foca env) f" for f turn
    using traffic_trust(1) [OF lawful that] by (intro trusted_cong [OF _ _ _ _ _ ok]) simp_all
  show "trusted env (snd (publish_broadcast env bc s))" for bc
    using traffic_trust(2) [OF lawful] by (intro trusted_cong [OF _ _ _ _ _ ok]) simp_all
  show "trusted env (s\<lparr>ru_node := snd (publish_model_inventory_broadcast (re_foca env) frame (ru_node s))\<rparr>)" for frame
    using traffic_trust(3) [OF lawful] by (intro trusted_cong [OF _ _ _ _ _ ok]) simp_all
  show "trusted env (evict_origins origins s)" for origins
    by (intro trusted_cong [OF _ _ _ _ _ ok]) (simp_all add: evict_origins_node)
  show "trusted env (send_trust_update u s)" if "update_ok (cf_site_name (ru_config s)) u" for u
    using ok that by (auto simp: trusted_def send_trust_update_def)
  show "trusted env (apply_trust env u (s\<lparr>ru_trust_updates := us\<rparr>))" if "ru_trust_updates s = u # us" for u us
    using ok that by (rule trusted_apply)
qed (auto simp: trusted_def same_view_def set_swim_key_def release_plain_def)

lemma new_not_strict [simp]: "\<not> is_strict (trust_of (with_origin_capacity api identity n)) grid"
  by (simp add: with_origin_capacity_def with_capacity_def trust_store_default_def is_strict_def Let_def)

lemma trusted_new: "trusted env (runtime_new env config local_addr turn c r)"
  by (simp add: trusted_def runtime_new_def Let_def trust_ok_def policy_def fun_eq_iff)

lemma trusted_run:
  assumes "foca_lawful (re_handler env) (re_foca env)" "runtime_run env config s"
  shows "trusted env s"
proof -
  obtain s0 local_addr turn where s0: "runtime_start env config local_addr turn = Inr s0" "runtime_steps env s0 s"
    using assms(2) by (auto simp: runtime_run_def runtime_started_def)
  have "trusted env s0"
    using assms(1) trusted_new by (cases rule: trust.started [OF s0(1)]) blast
  with trust.steps [OF s0(2)] assms(1) show ?thesis
    by blast
qed

end
