(* ===== verification/RuntimeOutput.thy ===== *)
theory RuntimeOutput
  imports RuntimeSafety
begin

section \<open>The SWIM loop: what it publishes and sends\<close>

text \<open>
  The log of the publications of a run: each is signed for its grid under the trust in force, the revisions
  of grid state only grow, and a grid being withdrawn is published empty or not at all. Then the
  packets: what leaves the socket is sealed with the key in force.
\<close>

subsection \<open>What is published\<close>

text \<open>The entry of the log for a broadcast, if the node accepts it.\<close>

definition emitted ::
  "('f, 't, 'a) runtime_env \<Rightarrow> state_broadcast \<Rightarrow> ('f, 't, 'a) swim_runtime \<Rightarrow> publication list" where
  "emitted env b s = (case fst (publish_state_broadcast (re_handler env) (re_foca env) b (ru_node s)) of
     Inr _ \<Rightarrow> [\<lparr>pb_store = trust_of (ru_node s), pb_pending = ru_pending s, pb_broadcast = b\<rparr>] | Inl _ \<Rightarrow> [])"

definition emitted_signed ::
  "('f, 't, 'a) runtime_env \<Rightarrow> turn \<Rightarrow> state_broadcast \<Rightarrow> ('f, 't, 'a) swim_runtime \<Rightarrow> publication list" where
  "emitted_signed env turn b s = (case sign_broadcast env turn s b of Inl _ \<Rightarrow> [] | Inr b \<Rightarrow> emitted env b s)"

lemma published_publish [simp]: "ru_published (snd (publish_broadcast env b s)) = ru_published s @ emitted env b s"
  by (simp add: emitted_def)

lemma sent_published [simp]:
  "ru_published (case publish_broadcast env b s of (Inl _, s) \<Rightarrow> s | (Inr _, s) \<Rightarrow> run_node env turn f s) = ru_published s @ emitted env b s"
  using published_publish [of env b s] by (cases "publish_broadcast env b s") (simp split: sum.split)

lemma send_state_published:
  "ru_published (send_state env turn bc s) = ru_published s @ emitted_signed env turn bc (drain_trust_updates env s)"
  by (simp add: send_state_def emitted_signed_def publish_model_inventories_def Let_def split: sum.split)

lemma publish_withdrawal_published:
  "ru_published (publish_withdrawal env turn grid_id revision s) = ru_published s @
     emitted_signed env turn (withdrawal_broadcast (cf_site_name (ru_config s)) grid_id revision) s"
proof (cases "sign_broadcast env turn s (withdrawal_broadcast (cf_site_name (ru_config s)) grid_id revision)")
  case (Inr w)
  with published_publish [of env w s] show ?thesis
    by (cases "publish_broadcast env w s") (simp add: publish_withdrawal_def emitted_signed_def Let_def split: sum.split option.split)
qed (simp add: publish_withdrawal_def emitted_signed_def)

lemma republish_scope_published:
  "ru_published (republish_scope env turn scope revision s) = ru_published s @ (case fmlookup (ru_retained s) scope of
     None \<Rightarrow> [] | Some retained \<Rightarrow> emitted_signed env turn (rs_broadcast (retained_republish revision retained)) s)"
  by (simp add: republish_scope_def emitted_signed_def Let_def emitted_def split: option.split sum.split)

text \<open>A broadcast of the controllers: as it is, or retained under a new revision.\<close>

definition fresh_broadcast ::
  "('f, 't, 'a) runtime_env \<Rightarrow> turn \<Rightarrow> state_broadcast \<Rightarrow> ('f, 't, 'a) swim_runtime \<Rightarrow> state_broadcast option" where
  "fresh_broadcast env turn bc s =
     (if \<not> carries_grid_state bc then Some bc
      else case clock_take (tn_now turn) (ru_revisions s) of
          (None, _) \<Rightarrow> None
        | (Some revision, _) \<Rightarrow>
            (case update_retained_state (he_codec (re_handler env)) bc revision (ru_retained s) of
               (Inr (Some b), _) \<Rightarrow> Some b | _ \<Rightarrow> None))"

lemma fresh_broadcast_fields:
  assumes "fresh_broadcast env turn bc s = Some b"
  shows "sb_grid_id b = sb_grid_id bc" "carries_grid_state b \<longleftrightarrow> carries_grid_state bc"
    and "carries_grid_state bc \<Longrightarrow> fst (clock_take (tn_now turn) (ru_revisions s)) = Some (sb_revision b)"
  using assms
  by (auto simp: fresh_broadcast_def update_retained_state_def retained_update_def carries_grid_state_def is_metadata_only_def
      Let_def try_bind_def split: if_splits prod.splits option.splits sum.splits)

definition withheld :: "('f, 't, 'a) swim_runtime \<Rightarrow> string option \<Rightarrow> bool" where
  "withheld s scope = (case scope of None \<Rightarrow> False | Some grid_id \<Rightarrow> fmlookup (ru_pending s) grid_id \<noteq> None)"

definition retained_of ::
  "('f, 't, 'a) runtime_env \<Rightarrow> state_broadcast \<Rightarrow> ('f, 't, 'a) swim_runtime \<Rightarrow> retained_state_broadcasts \<Rightarrow> bool" where
  "retained_of env bc s retained \<longleftrightarrow> retained = ru_retained s \<or> \<not> withheld s (sb_grid_id bc) \<and> carries_grid_state bc \<and>
     (\<exists>revision. retained = snd (update_retained_state (he_codec (re_handler env)) bc revision (ru_retained s)))"

lemma on_broadcast_cases:
  obtains (silent) s1 where "on_broadcast env turn bc s = s1" "ru_published s1 = ru_published s" "ru_config s1 = ru_config s"
      "ru_pending s1 = ru_pending s" "ru_acked s1 = ru_acked s" "retained_of env bc s (ru_retained s1)"
      "ru_revisions s1 = ru_revisions s \<or> ru_revisions s1 = snd (clock_take (tn_now turn) (ru_revisions s))"
  | (sent) b s1 where "fresh_broadcast env turn bc s = Some b" "\<not> withheld s (sb_grid_id bc)"
      "on_broadcast env turn bc s = send_state env turn b s1" "ru_node s1 = ru_node s" "ru_trust s1 = ru_trust s"
      "ru_trust_updates s1 = ru_trust_updates s" "ru_trust_sent s1 = ru_trust_sent s"
      "ru_published s1 = ru_published s" "ru_config s1 = ru_config s" "ru_pending s1 = ru_pending s" "ru_acked s1 = ru_acked s"
      "retained_of env bc s (ru_retained s1)"
      "ru_revisions s1 = (if carries_grid_state bc then snd (clock_take (tn_now turn) (ru_revisions s)) else ru_revisions s)"
proof (cases "withheld s (sb_grid_id bc)")
  case True
  then have "on_broadcast env turn bc s = s"
    by (auto simp: on_broadcast_def withheld_def split: option.splits)
  then show ?thesis
    by (intro silent [of s]) (auto simp: retained_of_def)
next
  case False
  note going = this
  have scope: "(case sb_grid_id bc of None \<Rightarrow> False | Some grid_id \<Rightarrow> fmlookup (ru_pending s) grid_id \<noteq> None) = False"
    using False by (simp add: withheld_def)
  obtain revision c where take: "clock_take (tn_now turn) (ru_revisions s) = (revision, c)"
    by (cases "clock_take (tn_now turn) (ru_revisions s)")
  let ?retained = "\<lambda>r. snd (update_retained_state (he_codec (re_handler env)) bc r (ru_retained s))"
  show ?thesis
  proof (cases "carries_grid_state bc")
    case True
    then have kept: "retained_of env bc s (?retained r)" for r
      using going by (auto simp: retained_of_def)
    show ?thesis
    proof (cases revision)
      case None
      with True take show ?thesis
        by (intro silent [OF refl]) (simp_all add: on_broadcast_def scope take_revision_def kept)
    next
      case (Some r)
      show ?thesis
      proof (cases "\<exists>b. fst (update_retained_state (he_codec (re_handler env)) bc r (ru_retained s)) = Inr (Some b)")
        case False
        with True take Some show ?thesis
          by (intro silent [of "s\<lparr>ru_revisions := c, ru_retained := ?retained r\<rparr>"])
            (auto simp: on_broadcast_def scope take_revision_def kept case_prod_unfold Let_def split: sum.split option.split)
      next
        case update: True
        then obtain b where b: "fst (update_retained_state (he_codec (re_handler env)) bc r (ru_retained s)) = Inr (Some b)"
          by blast
        with True take Some going show ?thesis
          by (intro sent [of b "s\<lparr>ru_revisions := c, ru_retained := ?retained r\<rparr>"])
            (simp_all add: on_broadcast_def scope take_revision_def kept fresh_broadcast_def case_prod_unfold)
      qed
    qed
  next
    case False
    with going show ?thesis
      by (intro sent [of bc s]) (simp_all add: on_broadcast_def scope fresh_broadcast_def retained_of_def)
  qed
qed

lemma publish_scoped_simps [simp]:
  "publish_scoped env (Inl error) s = s" "publish_scoped env (Inr b) s = snd (publish_broadcast env b s)"
  by (simp_all add: publish_scoped_def)

lemma fold_scoped_published:
  assumes "foca_lawful (re_handler env) (re_foca env)"
  obtains new where "ru_published (fold (publish_scoped env) bs s) = ru_published s @ new"
    "\<And>e. e \<in> set new \<Longrightarrow> pb_store e = trust_of (ru_node s) \<and> Inr (pb_broadcast e) \<in> set bs"
proof -
  have "\<exists>new. ru_published (fold (publish_scoped env) bs s) = ru_published s @ new \<and>
      (\<forall>e\<in>set new. pb_store e = trust_of (ru_node s) \<and> Inr (pb_broadcast e) \<in> set bs)"
  proof (induction bs arbitrary: s)
    case (Cons scoped bs)
    obtain new where new: "ru_published (fold (publish_scoped env) bs (publish_scoped env scoped s)) =
        ru_published (publish_scoped env scoped s) @ new"
      "\<forall>e\<in>set new. pb_store e = trust_of (ru_node (publish_scoped env scoped s)) \<and> Inr (pb_broadcast e) \<in> set bs"
      using Cons.IH by blast
    then show ?case
      using traffic_trust(2) [OF assms]
      by (cases scoped) (auto simp: emitted_def split: sum.splits)
  qed simp
  then show ?thesis
    using that by blast
qed

lemma sent_frame [simp]:
  "P (case publish_broadcast env b s of (Inl _, s) \<Rightarrow> s | (Inr _, s) \<Rightarrow> run_node env turn f s) = P s"
  if "\<And>s. P (run_node env turn f s) = P s" "\<And>s. P (snd (publish_broadcast env b s)) = P s"
  using that(2) [of s] by (cases "publish_broadcast env b s") (simp add: that(1) split: sum.split)

lemma send_state_frame [simp]:
  "ru_revisions (send_state env turn bc s) = ru_revisions s" "ru_retained (send_state env turn bc s) = ru_retained s"
  "ru_pending (send_state env turn bc s) = ru_pending s" "ru_acked (send_state env turn bc s) = ru_acked s"
  by (simp_all add: send_state_def publish_model_inventories_def Let_def split: sum.split)

lemma republish_scope_frame [simp]:
  "ru_revisions (republish_scope env turn scope revision s) = ru_revisions s"
  "ru_pending (republish_scope env turn scope revision s) = ru_pending s"
  "ru_acked (republish_scope env turn scope revision s) = ru_acked s"
  "ru_retained (republish_scope env turn scope revision s) = (case fmlookup (ru_retained s) scope of
     None \<Rightarrow> ru_retained s | Some retained \<Rightarrow> fmupd scope (retained_republish revision retained) (ru_retained s))"
  by (simp_all add: republish_scope_def Let_def split: option.split sum.split)

lemma fold_scoped_frame [simp]:
  "ru_revisions (fold (publish_scoped env) bs s) = ru_revisions s" "ru_retained (fold (publish_scoped env) bs s) = ru_retained s"
  "ru_pending (fold (publish_scoped env) bs s) = ru_pending s" "ru_acked (fold (publish_scoped env) bs s) = ru_acked s"
  "ru_config (fold (publish_scoped env) bs s) = ru_config s" "ru_trust (fold (publish_scoped env) bs s) = ru_trust s"
  by (induction bs arbitrary: s) (simp_all add: publish_scoped_def split: sum.split)

lemma publish_address_frame [simp]:
  "ru_revisions (publish_address_broadcast env turn revision s) = ru_revisions s"
  "ru_retained (publish_address_broadcast env turn revision s) = ru_retained s"
  "ru_pending (publish_address_broadcast env turn revision s) = ru_pending s"
  "ru_acked (publish_address_broadcast env turn revision s) = ru_acked s"
  by (simp_all add: publish_address_broadcast_def Let_def)

text \<open>An address broadcast carries no grid state, and each copy of it is signed for its grid.\<close>

lemma publish_address_published:
  assumes "foca_lawful (re_handler env) (re_foca env)"
  obtains new where "ru_published (publish_address_broadcast env turn revision s) = ru_published s @ new"
    "\<And>e. e \<in> set new \<Longrightarrow> pb_store e = trust_of (ru_node s) \<and> \<not> carries_grid_state (pb_broadcast e) \<and>
      (sb_grid_id (pb_broadcast e) = None \<or> (\<exists>b. sign_broadcast env turn s b = Inr (pb_broadcast e)))"
proof -
  let ?b = "with_signals_address (cf_signals_address (ru_config s)) (state_broadcast_new (cf_site_name (ru_config s)) revision
      (snapshot_new (cf_site_name (ru_config s))) (ru_gateway_address s))"
  let ?bs = "per_strict_grid (he_codec (re_handler env)) (re_signer env) (tn_clock turn) (ru_trust s) ?b"
  have plain: "\<not> carries_grid_state (with_grid_id grid ?b)" "\<not> carries_grid_state ?b" for grid
    by (simp_all add: carries_grid_state_def is_metadata_only_def with_grid_id_def with_signals_address_def
        state_broadcast_new_def snapshot_new_def orset_is_empty_def orset_len_def orset_new_def)
  have kinds: "\<not> carries_grid_state b \<and> (sb_grid_id b = None \<or> (\<exists>b'. sign_broadcast env turn s b' = Inr b))" if b: "Inr b \<in> set ?bs" for b
  proof (cases "ru_trust s = fmempty")
    case True
    with b have "b = ?b"
      by (simp add: per_strict_grid_def)
    with plain show ?thesis
      by (simp add: with_signals_address_def state_broadcast_new_def)
  next
    case False
    with b obtain grid where sign: "sign_broadcast env turn s (with_grid_id (Some grid) ?b) = Inr b"
      by (force simp: per_strict_grid_def)
    with trust_sign_Inr [OF this] plain(1) [of "Some grid"] show ?thesis
      by (auto simp: carries_grid_state_def is_metadata_only_def)
  qed
  show ?thesis
  proof (cases "ru_gateway_address s = None \<and> cf_signals_address (ru_config s) = None")
    case True
    then show ?thesis
      by (intro that [of "[]"]) (simp_all add: publish_address_broadcast_def)
  next
    case False
    obtain new where new: "ru_published (fold (publish_scoped env) ?bs s) = ru_published s @ new"
      "\<And>e. e \<in> set new \<Longrightarrow> pb_store e = trust_of (ru_node s) \<and> Inr (pb_broadcast e) \<in> set ?bs"
      using fold_scoped_published [OF assms, of ?bs s] by metis
    with False kinds show ?thesis
      by (intro that [of new]) (auto simp: publish_address_broadcast_def Let_def)
  qed
qed

subsection \<open>Signatures\<close>

definition signed_in :: "('f, 't, 'a) runtime_env \<Rightarrow> string \<Rightarrow> publication \<Rightarrow> bool" where
  "signed_in env site e \<longleftrightarrow> (\<forall>grid. sb_grid_id (pb_broadcast e) = Some grid \<longrightarrow> is_strict (pb_store e) grid \<longrightarrow>
     (\<exists>now public. pinned (pb_store e) grid site = [public] \<and> signed_by (re_handler env) now [public] (pb_broadcast e)))"

lemma signed_inI:
  assumes "signer_lawful (re_handler env) (re_signer env)" "trusted env s" "sign_broadcast env turn s b = Inr b'"
    and "pb_store e = trust_of (ru_node s)" "pb_broadcast e = b'"
  shows "signed_in env (cf_site_name (ru_config s)) e"
  unfolding signed_in_def assms(4,5)
proof (intro allI impI)
  fix grid_id
  assume grid: "sb_grid_id b' = Some grid_id" "is_strict (trust_of (ru_node s)) grid_id"
  let ?site = "cf_site_name (ru_config s)"
  have ok: "trust_ok (re_signer env) ?site (ru_trust s) (trust_of (ru_node s))"
    using assms(2) by (simp add: trusted_def)
  obtain grid where g: "fmlookup (ru_trust s) grid_id = Some grid"
    using trust_okD(1) [OF ok] grid(2) by auto
  have "sb_grid_id b = Some grid_id"
    using trust_sign_Inr(1) [OF assms(3)] grid(1) by simp
  from trust_sign_Inr(6) [OF assms(3) this g] obtain key signable signature where key: "eg_signing_key grid = Some key"
    "signable_bytes (he_codec (re_handler env)) b' = Inr signable" "sg_sign (re_signer env) key signable = Inr signature"
    "sb_signature b' = Some signature" "sb_signed_at_ms b' = Some (wall_ms (tn_clock turn))"
    by blast
  have own: "pinned (trust_of (ru_node s)) grid_id ?site = own_keys (re_signer env) (Some key)" "own_keys (re_signer env) (Some key) \<noteq> []"
    using trust_okD(2) [OF ok g] key(1) by (auto simp: grid_ok_def)
  then obtain public where public: "sg_public_key (re_signer env) key = Inr public" "own_keys (re_signer env) (Some key) = [public]"
    by (auto simp: own_keys_def split: sum.splits)
  have "within_freshness_window (tn_clock turn) (wall_ms (tn_clock turn))"
    by (simp add: within_freshness_window_def saturating_sub_def)
  moreover have "he_verify (re_handler env) public signable signature"
    using assms(1) public(1) key(3) unfolding signer_lawful_def by blast
  ultimately have "signed_by (re_handler env) (tn_clock turn) [public] b'"
    using key(2,4,5) by (auto simp: signed_by_def)
  with own public(2) show "\<exists>now public. pinned (trust_of (ru_node s)) grid_id ?site = [public] \<and> signed_by (re_handler env) now [public] b'"
    by auto
qed

lemma in_emitted_signed:
  assumes "e \<in> set (emitted_signed env turn b s)"
  obtains "sign_broadcast env turn s b = Inr (pb_broadcast e)" "pb_store e = trust_of (ru_node s)" "pb_pending e = ru_pending s"
    "emitted_signed env turn b s = [e]"
proof (cases "sign_broadcast env turn s b")
  case (Inr b')
  with assms show ?thesis
    by (intro that) (auto simp: emitted_signed_def emitted_def split: sum.splits)
qed (use assms in \<open>simp add: emitted_signed_def\<close>)

lemma emitted_signed_in:
  assumes "signer_lawful (re_handler env) (re_signer env)" "trusted env s" "e \<in> set (emitted_signed env turn b s)"
  shows "signed_in env (cf_site_name (ru_config s)) e"
  by (rule in_emitted_signed [OF assms(3)]) (rule signed_inI [OF assms(1,2)], simp_all)

definition log_signed :: "('f, 't, 'a) runtime_env \<Rightarrow> ('f, 't, 'a) swim_runtime \<Rightarrow> bool" where
  "log_signed env s \<longleftrightarrow> trusted env s \<and> (\<forall>e\<in>set (ru_published s). signed_in env (cf_site_name (ru_config s)) e)"

lemma log_signedI:
  assumes "log_signed env s" "trusted env s'" "ru_config s' = ru_config s" "ru_published s' = ru_published s @ new"
    and "\<And>e. e \<in> set new \<Longrightarrow> signed_in env (cf_site_name (ru_config s)) e"
  shows "log_signed env s'"
  using assms by (auto simp: log_signed_def)

lemma turn_config:
  "ru_config (publish_withdrawal env turn grid_id revision s) = ru_config s"
  "ru_config (send_state env turn bc s) = ru_config s" "ru_config (republish_scope env turn scope revision s) = ru_config s"
  "ru_config (publish_address_broadcast env turn revision s) = ru_config s"
proof -
  show "ru_config (publish_withdrawal env turn grid_id revision s) = ru_config s"
  proof (cases "sign_broadcast env turn s (withdrawal_broadcast (cf_site_name (ru_config s)) grid_id revision)")
    case (Inr w)
    have "ru_config (snd (publish_broadcast env w s)) = ru_config s"
      by simp
    with Inr show ?thesis
      by (cases "publish_broadcast env w s") (simp add: publish_withdrawal_def Let_def split: sum.split option.split)
  qed (simp add: publish_withdrawal_def)
qed (simp_all add: send_state_def republish_scope_def publish_address_broadcast_def publish_model_inventories_def Let_def
    split: sum.split option.split)

interpretation sign: turns_lawful env
  "\<lambda>s s'. foca_lawful (re_handler env) (re_foca env) \<longrightarrow> signer_lawful (re_handler env) (re_signer env) \<longrightarrow>
     log_signed env s \<longrightarrow> log_signed env s'"
  for env :: "('f, 't, 'a::linorder) runtime_env"
proof (unfold_locales; intro impI)
  fix s :: "('f, 't, 'a) swim_runtime"
  assume lawful: "foca_lawful (re_handler env) (re_foca env)" and signer: "signer_lawful (re_handler env) (re_signer env)"
    and ok: "log_signed env s"
  have trusted: "trusted env s"
    using ok by (simp add: log_signed_def)
  note same = log_signedI [OF ok, where new = "[]", simplified]
  show "log_signed env s'" if "same_core s s'" for s'
    using that trusted by (intro same) (auto simp: same_core_def trusted_def)
  show "log_signed env (run_node env turn f s)" if "node_traffic (re_foca env) f" for f turn
    using trust.node [OF that] lawful trusted by (intro same) simp_all
  show "log_signed env (publish_state s)" "log_signed env (snd (take_revision turn s))" "log_signed env (evict_origins origins s)"
    for turn origins
    using trust.shown [of env s] trust.unused [of env s turn] trust.evicted [of env s origins] lawful trusted
    by (simp_all add: same)
  show "log_signed env (s\<lparr>ru_node := snd (publish_model_inventory_broadcast (re_foca env) frame (ru_node s))\<rparr>)" for frame
    using trust.inventory [of env s frame] lawful trusted by (intro same) simp_all
  show "log_signed env (send_trust_update u s)" if "update_ok (cf_site_name (ru_config s)) u" for u
    using trust.update [OF that] lawful trusted by (intro same) (simp_all add: send_trust_update_def)
  show "log_signed env (on_trust_update env s)"
    using trust.trust [of env s] lawful trusted by (intro same) (simp_all add: on_trust_update_def split: list.split)
  show "log_signed env (on_broadcast env turn bc s)" for turn bc
  proof (cases rule: on_broadcast_cases [of env turn bc s])
    case (silent s1)
    with trust.broadcast [of env s turn bc] lawful trusted show ?thesis
      by (intro same) simp_all
  next
    case (sent b s1)
    have s1: "trusted env s1"
      using trusted sent by (auto intro: trusted_cong)
    have drained: "trusted env (drain_trust_updates env s1)"
      using trust.act_drained [of env s1] lawful s1 by blast
    have "trusted env (on_broadcast env turn bc s)"
      using trust.broadcast [of env s turn bc] lawful trusted by blast
    then show ?thesis
      using emitted_signed_in [OF signer drained, of _ turn b] sent
      by (intro log_signedI [OF ok, where new = "emitted_signed env turn b (drain_trust_updates env s1)"])
        (simp_all add: send_state_published turn_config)
  qed
  show "log_signed env (publish_address_broadcast env turn revision s2)"
    if take: "take_revision turn s = (Some revision, s1)" and core: "same_core s1 s2" for turn revision s1 s2
  proof -
    have "trusted env s2" and s2: "ru_config s2 = ru_config s" "ru_published s2 = ru_published s"
      using take core trusted by (auto simp: same_core_def trusted_def take_revision_def split: prod.splits)
    moreover obtain new where new: "ru_published (publish_address_broadcast env turn revision s2) = ru_published s2 @ new"
      "\<And>e. e \<in> set new \<Longrightarrow> pb_store e = trust_of (ru_node s2) \<and> \<not> carries_grid_state (pb_broadcast e) \<and>
        (sb_grid_id (pb_broadcast e) = None \<or> (\<exists>b. sign_broadcast env turn s2 b = Inr (pb_broadcast e)))"
      using publish_address_published [OF lawful, of turn revision s2] by metis
    moreover have "signed_in env (cf_site_name (ru_config s)) e" if "e \<in> set new" for e
      using new(2) [OF that] signed_inI [OF signer \<open>trusted env s2\<close>] s2(1)
      by (auto simp: signed_in_def)
    ultimately show ?thesis
      using trust.address [OF take core] lawful trusted
      by (intro log_signedI [OF ok, where new = new]) (simp_all add: turn_config)
  qed
  show "log_signed env (publish_withdrawal env turn grid_id revision s1)" "log_signed env (republish_scope env turn scope revision s1)"
    if take: "take_revision turn s = (Some revision, s1)" for turn revision s1 grid_id scope
  proof -
    have s1: "trusted env s1" "ru_config s1 = ru_config s" "ru_published s1 = ru_published s"
      using take trusted by (auto simp: trusted_def take_revision_def split: prod.splits)
    note signed = emitted_signed_in [OF signer s1(1), unfolded s1(2)]
    show "log_signed env (publish_withdrawal env turn grid_id revision s1)"
      using trust.withdrawal [OF take, of env grid_id] lawful trusted s1 signed
      by (intro log_signedI [OF ok, where new = "emitted_signed env turn (withdrawal_broadcast (cf_site_name (ru_config s1)) grid_id revision) s1"])
        (simp_all add: publish_withdrawal_published turn_config)
    show "log_signed env (republish_scope env turn scope revision s1)"
      using trust.repair [OF take, of env scope] lawful trusted s1 signed
      by (intro log_signedI [OF ok, where new = "case fmlookup (ru_retained s1) scope of None \<Rightarrow> []
            | Some retained \<Rightarrow> emitted_signed env turn (rs_broadcast (retained_republish revision retained)) s1"])
        (auto simp: republish_scope_published turn_config split: option.splits)
  qed
qed (auto simp: log_signed_def trusted_def set_swim_key_def release_plain_def)

subsection \<open>Revisions\<close>

definition state_revisions :: "publication list \<Rightarrow> u64 list" where
  "state_revisions es = map sb_revision (filter carries_grid_state (map pb_broadcast es))"

lemma state_revisions_simps [simp]: "state_revisions [] = []" "state_revisions (es @ es') = state_revisions es @ state_revisions es'"
  by (simp_all add: state_revisions_def)

definition ordered :: "('f, 't, 'a) swim_runtime \<Rightarrow> bool" where
  "ordered s \<longleftrightarrow> clock_ok (2 ^ 64) (ru_revisions s) \<and> sorted_wrt (<) (state_revisions (ru_published s)) \<and>
     (\<forall>r\<in>set (state_revisions (ru_published s)). behind (unat r) (ru_revisions s))"

lemma ordered_take:
  assumes "ordered s" "ru_revisions s' = snd (clock_take now (ru_revisions s))"
    "state_revisions (ru_published s') = state_revisions (ru_published s)"
  shows "ordered s'"
  using assms(1) clock_take_facts(1,3) [of "2 ^ 64" "ru_revisions s" now] by (auto simp: ordered_def assms(2,3) prod_eq_iff)

lemma ordered_issue:
  assumes "ordered s" "clock_take now (ru_revisions s) = (Some r, c)" "ru_revisions s' = c"
    "ru_published s' = ru_published s @ new" "state_revisions new = [] \<or> state_revisions new = [r]"
  shows "ordered s'"
proof -
  have ok: "clock_ok (2 ^ 64) (ru_revisions s)"
    using assms(1) by (simp add: ordered_def)
  note facts = clock_take_facts [OF ok assms(2)]
  have "r' < r" if "r' \<in> set (state_revisions (ru_published s))" for r'
    using assms(1) that facts(4) [of r "unat r'"] by (auto simp: ordered_def word_less_nat_alt)
  then show ?thesis
    using assms(1,5) facts(1,3) facts(4) [of r] by (auto simp: ordered_def assms(3,4) sorted_wrt_append)
qed

lemma emitted_revisions:
  assumes "carries_grid_state b \<longrightarrow> sb_revision b = r"
  shows "state_revisions (emitted_signed env turn b s) = [] \<or> state_revisions (emitted_signed env turn b s) = [r]"
proof (cases "emitted_signed env turn b s")
  case (Cons e es)
  then have "e \<in> set (emitted_signed env turn b s)"
    by simp
  then show ?thesis
  proof (rule in_emitted_signed)
    assume sign: "sign_broadcast env turn s b = Inr (pb_broadcast e)" and "emitted_signed env turn b s = [e]"
    with trust_sign_Inr [OF sign] assms show ?thesis
      by (auto simp: state_revisions_def carries_grid_state_def is_metadata_only_def)
  qed
qed (simp add: state_revisions_def)

lemma publish_withdrawal_revisions [simp]: "ru_revisions (publish_withdrawal env turn grid_id revision s) = ru_revisions s"
proof (cases "sign_broadcast env turn s (withdrawal_broadcast (cf_site_name (ru_config s)) grid_id revision)")
  case (Inr w)
  have "ru_revisions (snd (publish_broadcast env w s)) = ru_revisions s"
    by simp
  with Inr show ?thesis
    by (cases "publish_broadcast env w s") (simp add: publish_withdrawal_def Let_def split: sum.split option.split)
qed (simp add: publish_withdrawal_def)

lemma ordered_renewed:
  assumes "ordered s" "rc_renewal (ru_revisions s) = Some Pending" "renewal_ok (ru_revisions s) reply"
  shows "ordered (s\<lparr>ru_revisions := (ru_revisions s)\<lparr>rc_renewal := Some reply\<rparr>\<rparr>)"
proof -
  let ?c = "(ru_revisions s)\<lparr>rc_renewal := Some reply\<rparr>"
  have range: "unat (rc_last (ru_revisions s)) < unat a \<and> a \<le> b \<and> unat b < 2 ^ 64 - 1" if "renewed_range ?c = Some (a, b)" for a b
    using that assms(3)
    by (auto simp: renewed_range_def renewal_ok_def word_less_nat_alt unat_max_word split: renewal_reply.splits sum.splits)
  then have "clock_ok (2 ^ 64) ?c"
    using assms(1) by (fastforce simp: ordered_def clock_ok_def)
  moreover have "behind r ?c" if "behind r (ru_revisions s)" for r
    using that range assms(1) by (fastforce simp: behind_def ordered_def clock_ok_def)
  ultimately show ?thesis
    using assms(1) by (simp add: ordered_def)
qed

interpretation order: turns_lawful env
  "\<lambda>s s'. foca_lawful (re_handler env) (re_foca env) \<longrightarrow> ordered s \<longrightarrow> ordered s'"
  for env :: "('f, 't, 'a::linorder) runtime_env"
proof (unfold_locales; intro impI)
  fix s :: "('f, 't, 'a) swim_runtime"
  assume lawful: "foca_lawful (re_handler env) (re_foca env)" and ok: "ordered s"
  show "ordered (snd (take_revision turn s))" for turn
    using ok by (rule ordered_take) simp_all
  show "ordered (publish_address_broadcast env turn revision s2)"
    if "take_revision turn s = (Some revision, s1)" "same_core s1 s2" for turn revision s1 s2
  proof -
    obtain new where new: "ru_published (publish_address_broadcast env turn revision s2) = ru_published s2 @ new"
      "\<And>e. e \<in> set new \<Longrightarrow> pb_store e = trust_of (ru_node s2) \<and> \<not> carries_grid_state (pb_broadcast e) \<and>
        (sb_grid_id (pb_broadcast e) = None \<or> (\<exists>b. sign_broadcast env turn s2 b = Inr (pb_broadcast e)))"
      using publish_address_published [OF lawful, of turn revision s2] by metis
    have "state_revisions new = []"
      using new(2) by (simp add: state_revisions_def filter_empty_conv)
    with new(1) that show ?thesis
      by (intro ordered_take [OF ok, of _ "tn_now turn"])
        (auto simp: same_core_def take_revision_def split: prod.splits)
  qed
  show "ordered (on_broadcast env turn bc s)" for turn bc
  proof (cases rule: on_broadcast_cases [of env turn bc s])
    case (silent s1)
    then show ?thesis
      using ok ordered_take [OF ok, of s1 "tn_now turn"] by (auto simp: ordered_def)
  next
    case (sent b s1)
    note fields = fresh_broadcast_fields [OF sent(1)]
    show ?thesis
    proof (cases "carries_grid_state bc")
      case True
      with sent fields emitted_revisions [of b "sb_revision b" env turn "drain_trust_updates env s1"] show ?thesis
        by (intro ordered_issue [OF ok, where r = "sb_revision b" and c = "ru_revisions s1"])
          (auto simp: send_state_published prod_eq_iff)
    next
      case False
      with fields have "state_revisions (emitted_signed env turn b (drain_trust_updates env s1)) = []"
        using emitted_revisions [of b "sb_revision b + 1"] emitted_revisions [of b "sb_revision b"] by fastforce
      with False sent ok show ?thesis
        by (simp add: ordered_def send_state_published)
    qed
  qed
  show "ordered (publish_withdrawal env turn grid_id revision s1)" "ordered (republish_scope env turn scope revision s1)"
    if "take_revision turn s = (Some revision, s1)" for turn revision s1 grid_id scope
  proof -
    have take: "clock_take (tn_now turn) (ru_revisions s) = (Some revision, ru_revisions s1)" "ru_published s1 = ru_published s"
      using that by (auto simp: take_revision_def split: prod.splits)
    have "state_revisions (emitted_signed env turn (withdrawal_broadcast site grid_id revision) s1) \<in> {[], [revision]}" for site
      using emitted_revisions [of "withdrawal_broadcast site grid_id revision" revision]
      by (simp add: withdrawal_broadcast_def with_authoritative_provider_state_def with_grid_id_def state_broadcast_new_def)
    then show "ordered (publish_withdrawal env turn grid_id revision s1)"
      using take by (intro ordered_issue [OF ok take(1)]) (auto simp: publish_withdrawal_published)
    have "state_revisions (emitted_signed env turn (rs_broadcast (retained_republish revision retained)) s1) \<in> {[], [revision]}"
      for retained :: retained_state_broadcast
      using emitted_revisions [of "rs_broadcast (retained_republish revision retained)" revision] by (simp add: retained_republish_def)
    then have "state_revisions (case fmlookup (ru_retained s1) scope of None \<Rightarrow> []
        | Some retained \<Rightarrow> emitted_signed env turn (rs_broadcast (retained_republish revision retained)) s1) \<in> {[], [revision]}"
      by (cases "fmlookup (ru_retained s1) scope") simp_all
    then show "ordered (republish_scope env turn scope revision s1)"
      using take by (intro ordered_issue [OF ok take(1)]) (auto simp: republish_scope_published)
  qed
  show "ordered (s\<lparr>ru_revisions := (ru_revisions s)\<lparr>rc_renewal := Some reply\<rparr>\<rparr>)"
    if "rc_renewal (ru_revisions s) = Some Pending" "renewal_ok (ru_revisions s) reply" for reply
    using ok that by (rule ordered_renewed)
qed (auto simp: ordered_def same_core_def send_trust_update_def set_swim_key_def release_plain_def on_trust_update_def split: list.split)

subsection \<open>Withdrawals\<close>

text \<open>The broadcast that takes all of this site's state out of a grid.\<close>

definition withdraws :: "string \<Rightarrow> string \<Rightarrow> state_broadcast \<Rightarrow> bool" where
  "withdraws site grid_id b \<longleftrightarrow> sb_grid_id b = Some grid_id \<and> sb_origin_site b = site \<and>
     sb_snapshot b = snapshot_new site \<and> sb_authoritative_provider_state b"

definition silent_in :: "string \<Rightarrow> publication \<Rightarrow> bool" where
  "silent_in site e \<longleftrightarrow> (\<forall>grid_id. sb_grid_id (pb_broadcast e) = Some grid_id \<longrightarrow> fmlookup (pb_pending e) grid_id \<noteq> None \<longrightarrow>
     carries_grid_state (pb_broadcast e) \<longrightarrow> withdraws site grid_id (pb_broadcast e))"

definition ack_ok :: "string \<Rightarrow> publication list \<Rightarrow> string \<times> nat \<times> nat \<Rightarrow> bool" where
  "ack_ok site log = (\<lambda>(grid_id, request, n). 0 < n \<and> n \<le> length log \<and> withdraws site grid_id (pb_broadcast (log ! (n - 1))) \<and>
     (\<exists>waiters. fmlookup (pb_pending (log ! (n - 1))) grid_id = Some waiters \<and> request \<in> set waiters))"

definition scopes_ok :: "pending_withdrawals \<Rightarrow> retained_state_broadcasts \<Rightarrow> bool" where
  "scopes_ok pending retained \<longleftrightarrow> (\<forall>scope r. fmlookup retained scope = Some r \<longrightarrow> sb_grid_id (rs_broadcast r) = scope \<and>
     (\<forall>grid_id. scope = Some grid_id \<longrightarrow> fmlookup pending grid_id = None))"

definition withdrawn_ok :: "('f, 't, 'a) swim_runtime \<Rightarrow> bool" where
  "withdrawn_ok s \<longleftrightarrow> scopes_ok (ru_pending s) (ru_retained s) \<and>
     (\<forall>e\<in>set (ru_published s). silent_in (cf_site_name (ru_config s)) e) \<and>
     (\<forall>ack\<in>set (ru_acked s). ack_ok (cf_site_name (ru_config s)) (ru_published s) ack)"

lemma ack_ok_append: "ack_ok site log ack \<Longrightarrow> ack_ok site (log @ new) ack"
  by (auto simp: ack_ok_def nth_append)

lemma withdrawn_okI:
  assumes "withdrawn_ok s" "ru_config s' = ru_config s" "ru_published s' = ru_published s @ new" "ru_acked s' = ru_acked s @ acks"
    and "scopes_ok (ru_pending s') (ru_retained s')"
    and "\<And>e. e \<in> set new \<Longrightarrow> silent_in (cf_site_name (ru_config s)) e"
    and "\<And>ack. ack \<in> set acks \<Longrightarrow> ack_ok (cf_site_name (ru_config s)) (ru_published s @ new) ack"
  shows "withdrawn_ok s'"
  using assms by (auto simp: withdrawn_ok_def ack_ok_append)

lemma withdrawal_withdraws: "withdraws site grid_id (withdrawal_broadcast site grid_id revision)"
  by (simp add: withdraws_def withdrawal_broadcast_def with_authoritative_provider_state_def with_grid_id_def state_broadcast_new_def)

lemma sign_withdraws: "sign_broadcast env turn s b = Inr b' \<Longrightarrow> withdraws site grid_id b' \<longleftrightarrow> withdraws site grid_id b"
  using trust_sign_Inr(1-5) [of "he_codec (re_handler env)" "re_signer env" "tn_clock turn" "ru_trust s" b b']
  by (simp add: withdraws_def)

lemma scopes_update:
  assumes "scopes_ok pending retained" "\<And>grid_id. sb_grid_id bc = Some grid_id \<Longrightarrow> fmlookup pending grid_id = None"
  shows "scopes_ok pending (snd (update_retained_state c bc revision retained))"
  using assms
  by (auto simp: scopes_ok_def update_retained_state_def retained_update_def Let_def try_bind_def split: sum.splits option.splits if_splits)

lemma scopes_smaller: "scopes_ok pending retained \<Longrightarrow> scopes_ok (fmdrop grid_id pending) (fmdrop scope retained)"
  by (auto simp: scopes_ok_def)

lemma silent_emitted:
  assumes "e \<in> set (emitted_signed env turn b s)"
    and "\<And>grid_id. sb_grid_id b = Some grid_id \<Longrightarrow> fmlookup (ru_pending s) grid_id = None \<or> withdraws site grid_id b"
  shows "silent_in site e"
proof (rule in_emitted_signed [OF assms(1)])
  assume sign: "sign_broadcast env turn s b = Inr (pb_broadcast e)" and "pb_pending e = ru_pending s"
  with assms(2) trust_sign_Inr(1) [OF sign] sign_withdraws [OF sign] show ?thesis
    by (auto simp: silent_in_def)
qed

text \<open>The whole effect of a withdrawal on what is retained, pending and acknowledged.\<close>

lemma publish_withdrawal_cases:
  obtains (kept) "ru_pending (publish_withdrawal env turn grid_id revision s) = ru_pending s"
      "ru_retained (publish_withdrawal env turn grid_id revision s) = ru_retained s"
      "ru_acked (publish_withdrawal env turn grid_id revision s) = ru_acked s"
  | (sent) e where
      "emitted_signed env turn (withdrawal_broadcast (cf_site_name (ru_config s)) grid_id revision) s = [e]"
      "ru_pending (publish_withdrawal env turn grid_id revision s) = fmdrop grid_id (ru_pending s)"
      "ru_retained (publish_withdrawal env turn grid_id revision s) = fmdrop (Some grid_id) (ru_retained s)"
      "ru_acked (publish_withdrawal env turn grid_id revision s) = ru_acked s @
        map (\<lambda>waiter. (grid_id, waiter, length (ru_published s) + 1))
          (case fmlookup (ru_pending s) grid_id of None \<Rightarrow> [] | Some waiters \<Rightarrow> waiters)"
proof (cases "sign_broadcast env turn s (withdrawal_broadcast (cf_site_name (ru_config s)) grid_id revision)")
  case (Inl error)
  then show ?thesis
    by (intro kept) (simp_all add: publish_withdrawal_def)
next
  case (Inr w)
  obtain result s1 where eq: "publish_broadcast env w s = (result, s1)"
    by (cases "publish_broadcast env w s")
  have frame: "ru_pending s1 = ru_pending s" "ru_retained s1 = ru_retained s" "ru_acked s1 = ru_acked s"
    "ru_published s1 = ru_published s @ emitted env w s"
    using publish_broadcast_frame(1-) [of env w s] published_publish [of env w s] by (simp_all add: eq)
  have res: "result = fst (publish_state_broadcast (re_handler env) (re_foca env) w (ru_node s))"
    using eq by (auto simp: publish_broadcast_def split: prod.splits)
  show ?thesis
  proof (cases result)
    case (Inl error)
    with Inr eq frame show ?thesis
      by (intro kept) (simp_all add: publish_withdrawal_def)
  next
    case accepted: (Inr u)
    let ?e = "\<lparr>pb_store = trust_of (ru_node s), pb_pending = ru_pending s, pb_broadcast = w\<rparr>"
    have "fst (publish_state_broadcast (re_handler env) (re_foca env) w (ru_node s)) = Inr u"
      using res accepted by simp
    then have "emitted env w s = [?e]"
      by (simp add: emitted_def)
    with Inr eq accepted frame show ?thesis
      by (intro sent [of ?e]) (auto simp: publish_withdrawal_def emitted_signed_def fmdrop_absent Let_def split: option.splits)
  qed
qed

interpretation withdrawal: turns_lawful env
  "\<lambda>s s'. foca_lawful (re_handler env) (re_foca env) \<longrightarrow> withdrawn_ok s \<longrightarrow> withdrawn_ok s'"
  for env :: "('f, 't, 'a::linorder) runtime_env"
proof (unfold_locales; intro impI)
  fix s :: "('f, 't, 'a) swim_runtime"
  assume lawful: "foca_lawful (re_handler env) (re_foca env)" and ok: "withdrawn_ok s"
  have scopes: "scopes_ok (ru_pending s) (ru_retained s)"
    using ok by (simp add: withdrawn_ok_def)
  show "withdrawn_ok (publish_address_broadcast env turn revision s2)"
    if "take_revision turn s = (Some revision, s1)" "same_core s1 s2" for turn revision s1 s2
  proof -
    have s2: "ru_config s2 = ru_config s" "ru_published s2 = ru_published s" "ru_acked s2 = ru_acked s" "ru_pending s2 = ru_pending s"
      "ru_retained s2 = ru_retained s"
      using that by (auto simp: same_core_def take_revision_def split: prod.splits)
    obtain new where new: "ru_published (publish_address_broadcast env turn revision s2) = ru_published s2 @ new"
      "\<And>e. e \<in> set new \<Longrightarrow> pb_store e = trust_of (ru_node s2) \<and> \<not> carries_grid_state (pb_broadcast e) \<and>
        (sb_grid_id (pb_broadcast e) = None \<or> (\<exists>b. sign_broadcast env turn s2 b = Inr (pb_broadcast e)))"
      using publish_address_published [OF lawful, of turn revision s2] by metis
    with s2 scopes show ?thesis
      by (intro withdrawn_okI [OF ok, where new = new and acks = "[]"]) (auto simp: turn_config silent_in_def)
  qed
  show "withdrawn_ok (on_broadcast env turn bc s)" for turn bc
  proof -
    have kept: "scopes_ok (ru_pending s) retained" if "retained_of env bc s retained" for retained
      using that scopes scopes_update [OF scopes, of bc] by (auto simp: retained_of_def withheld_def split: option.splits)
    show ?thesis
    proof (cases rule: on_broadcast_cases [of env turn bc s])
      case (silent s1)
      with kept show ?thesis
        by (intro withdrawn_okI [OF ok, where new = "[]" and acks = "[]"]) auto
    next
      case (sent b s1)
      let ?s = "drain_trust_updates env s1"
      have "silent_in (cf_site_name (ru_config s)) e" if "e \<in> set (emitted_signed env turn b ?s)" for e
        using that by (rule silent_emitted) (use sent fresh_broadcast_fields(1) [OF sent(1)] in \<open>simp add: withheld_def\<close>)
      with sent kept show ?thesis
        by (intro withdrawn_okI [OF ok, where new = "emitted_signed env turn b ?s" and acks = "[]"])
          (auto simp: send_state_published turn_config)
    qed
  qed
  show "withdrawn_ok (s\<lparr>ru_pending := pending, ru_retained := retained\<rparr>)"
    if "queue_withdrawal closed grid_id request (ru_pending s, ru_retained s) = (pending, retained)"
    for closed grid_id request pending retained
    using that scopes
    by (intro withdrawn_okI [OF ok, where new = "[]" and acks = "[]"]) (auto simp: queue_withdrawal_def scopes_ok_def Let_def split: if_splits)
  show "withdrawn_ok (publish_withdrawal env turn grid_id revision s1)" "withdrawn_ok (republish_scope env turn scope revision s1)"
    if "take_revision turn s = (Some revision, s1)" for turn revision s1 grid_id scope
  proof -
    have s1: "ru_config s1 = ru_config s" "ru_published s1 = ru_published s" "ru_acked s1 = ru_acked s" "ru_pending s1 = ru_pending s"
      "ru_retained s1 = ru_retained s"
      using that by (auto simp: take_revision_def split: prod.splits)
    let ?site = "cf_site_name (ru_config s)"
    let ?b = "withdrawal_broadcast ?site grid_id revision"
    have quiet: "silent_in ?site e" if "e \<in> set (emitted_signed env turn ?b s1)" for e
      using that by (rule silent_emitted)
        (simp add: withdrawal_broadcast_def withdraws_def with_authoritative_provider_state_def with_grid_id_def state_broadcast_new_def)
    show "withdrawn_ok (publish_withdrawal env turn grid_id revision s1)"
    proof (cases rule: publish_withdrawal_cases [of env turn grid_id revision s1])
      case kept
      with quiet s1 scopes show ?thesis
        by (intro withdrawn_okI [OF ok, where new = "emitted_signed env turn ?b s1" and acks = "[]"])
          (auto simp: publish_withdrawal_published turn_config)
    next
      case (sent e)
      have e: "e \<in> set (emitted_signed env turn ?b s1)"
        using sent(1) s1(1) by simp
      then have "withdraws ?site grid_id (pb_broadcast e)" "pb_pending e = ru_pending s"
        using sign_withdraws [of env turn s1 ?b "pb_broadcast e" ?site grid_id] withdrawal_withdraws [of ?site grid_id revision] s1(4)
        by (auto elim!: in_emitted_signed)
      then show ?thesis
        using quiet [OF e] s1 scopes sent
        by (intro withdrawn_okI [OF ok, where new = "[e]" and
              acks = "map (\<lambda>waiter. (grid_id, waiter, length (ru_published s) + 1))
                (case fmlookup (ru_pending s) grid_id of None \<Rightarrow> [] | Some waiters \<Rightarrow> waiters)"])
          (auto simp: publish_withdrawal_published turn_config scopes_smaller ack_ok_def split: option.splits)
    qed
    show "withdrawn_ok (republish_scope env turn scope revision s1)"
    proof (cases "fmlookup (ru_retained s) scope")
      case None
      with s1 scopes show ?thesis
        by (intro withdrawn_okI [OF ok, where new = "[]" and acks = "[]"]) (auto simp: republish_scope_published turn_config)
    next
      case (Some r)
      let ?b = "rs_broadcast (retained_republish revision r)"
      have r: "sb_grid_id ?b = scope" "\<And>grid_id. scope = Some grid_id \<Longrightarrow> fmlookup (ru_pending s) grid_id = None"
        using scopes Some by (auto simp: scopes_ok_def retained_republish_def)
      have "silent_in ?site e" if "e \<in> set (emitted_signed env turn ?b s1)" for e
        using that by (rule silent_emitted) (use r s1 in simp)
      then show ?thesis
        using s1 scopes r Some
        by (intro withdrawn_okI [OF ok, where new = "emitted_signed env turn ?b s1" and acks = "[]"])
          (auto simp: republish_scope_published turn_config scopes_ok_def)
    qed
  qed
qed (auto simp: withdrawn_ok_def same_core_def send_trust_update_def set_swim_key_def release_plain_def on_trust_update_def split: list.split)
subsection \<open>Packets\<close>

text \<open>A runtime moves from waiting to plain packets and from there, or at once, to sealed ones.\<close>

definition stage :: "key_state \<Rightarrow> nat" where
  "stage key = (case key of KeyPending \<Rightarrow> 0 | KeyPlain \<Rightarrow> 1 | KeyLoaded _ \<Rightarrow> 2)"

definition protected :: "aead \<Rightarrow> key_state \<times> socket_addr \<times> bytes \<Rightarrow> bool" where
  "protected a = (\<lambda>(key, _, payload). case key of
     KeyPending \<Rightarrow> False | KeyPlain \<Rightarrow> True | KeyLoaded key \<Rightarrow> \<exists>nonce data. encrypt a nonce key data = Inr payload)"

definition sealed :: "('f, 't, 'a) runtime_env \<Rightarrow> ('f, 't, 'a) swim_runtime \<Rightarrow> bool" where
  "sealed env s \<longleftrightarrow> list_all (protected (re_aead env)) (ru_sent s) \<and> sorted (map (stage \<circ> fst) (ru_sent s)) \<and>
     (\<forall>p\<in>set (ru_sent s). stage (fst p) \<le> stage (ru_key s) \<and> stage (cf_key (ru_config s)) \<le> stage (fst p)) \<and>
     stage (cf_key (ru_config s)) \<le> stage (ru_key s)"

lemma sealed_packet: "sealed env s \<Longrightarrow> sealed env (send_packet env turn msg s)"
  by (auto simp: sealed_def send_packet_def wire_payload_def protected_def sorted_append split: option.split key_state.splits sum.splits)

lemma sealed_packets: "sealed env s \<Longrightarrow> sealed env (fold (send_packet env turn) msgs s)"
  by (induction msgs arbitrary: s) (simp_all add: sealed_packet)

lemma sealed_cong:
  assumes "sealed env s" "ru_sent s' = ru_sent s" "ru_config s' = ru_config s" "stage (ru_key s) \<le> stage (ru_key s')"
  shows "sealed env s'"
  using assms by (fastforce simp: sealed_def)

lemma sealed_node:
  assumes "sealed env s"
  shows "sealed env (run_node env turn f s)"
proof -
  obtain out node where eq: "f (ru_node s) = (out, node)"
    by (cases "f (ru_node s)")
  have "sealed env (fold (send_packet env turn) (ao_messages out) (s\<lparr>ru_node := node\<rparr>))"
    by (intro sealed_packets sealed_cong [OF assms]) simp_all
  then show ?thesis
    by (rule sealed_cong) (simp_all add: run_node_def drain_output_def eq Let_def)
qed

interpretation seal: acts_lawful env "\<lambda>s s'. sealed env s \<longrightarrow> sealed env s'"
  for env :: "('f, 't, 'a::linorder) runtime_env"
  by unfold_locales
    (auto simp: same_view_def send_trust_update_def set_swim_key_def release_plain_def sealed_node stage_def
      intro: sealed_cong split: key_state.split)

end
