(* ===== verification/RuntimeProperties.thy ===== *)
theory RuntimeProperties
  imports RuntimeOutput
begin

section \<open>The SWIM loop: its promises\<close>

text \<open>
  What holds of every run of the loop: the state readers see, the trust in force, the publications, the
  withdrawals and the packets. The last part runs a small operator through a start, a trust update, a
  withdrawal and a received broadcast.
\<close>

subsection \<open>Runs\<close>

text \<open>What a start establishes and every turn keeps holds in every run.\<close>

lemma run_induct:
  assumes "runtime_run env config s"
    and "\<And>local_addr turn s0. runtime_start env config local_addr turn = Inr s0 \<Longrightarrow>
      rl_last_revision (cf_revision_lease config) < u64_MAX \<Longrightarrow> I s0"
    and "\<And>s0. runtime_steps env s0 s \<Longrightarrow> I s0 \<Longrightarrow> I s"
  shows "I s"
  using assms by (auto simp: runtime_run_def runtime_started_def)

lemma log_signed_run:
  assumes "foca_lawful (re_handler env) (re_foca env)" "signer_lawful (re_handler env) (re_signer env)" "runtime_run env config s"
  shows "log_signed env s"
proof (rule run_induct [OF assms(3)])
  fix local_addr turn s0
  assume start: "runtime_start env config local_addr turn = Inr s0"
  have "log_signed env (runtime_new env config local_addr turn c r)" for c r
    using trusted_new [of env config local_addr turn c r] by (simp add: log_signed_def runtime_new_def Let_def)
  then show "log_signed env s0"
    using assms(1,2) by (cases rule: sign.started [OF start]) blast
qed (use sign.steps assms(1,2) in blast)

lemma ordered_run:
  assumes "foca_lawful (re_handler env) (re_foca env)" "runtime_run env config s"
  shows "ordered s"
proof (rule run_induct [OF assms(2)])
  fix local_addr turn s0
  assume start: "runtime_start env config local_addr turn = Inr s0" and last_ok: "rl_last_revision (cf_revision_lease config) < u64_MAX"
  have "ordered (runtime_new env config local_addr turn c r)"
    if "revision_clock_new (cf_revision_lease config) (cf_revision_renewer config) = Inr c" for c r
    using that last_ok
    by (auto simp: ordered_def runtime_new_def Let_def state_revisions_def revision_clock_new_def clock_ok_def renewed_range_def
        word_less_nat_alt word_le_nat_alt unat_max_word split: if_splits)
  then show "ordered s0"
    using assms(1) by (cases rule: order.started [OF start]) blast
qed (use order.steps assms(1) in blast)

lemma withdrawn_run:
  assumes "foca_lawful (re_handler env) (re_foca env)" "runtime_run env config s"
  shows "withdrawn_ok s"
proof (rule run_induct [OF assms(2)])
  fix local_addr turn s0
  assume start: "runtime_start env config local_addr turn = Inr s0"
  have "withdrawn_ok (runtime_new env config local_addr turn c r)" for c r
    by (simp add: withdrawn_ok_def scopes_ok_def runtime_new_def Let_def)
  then show "withdrawn_ok s0"
    using assms(1) by (cases rule: withdrawal.started [OF start]) blast
qed (use withdrawal.steps assms(1) in blast)

lemma sealed_run:
  assumes "runtime_run env config s"
  shows "sealed env s"
proof (rule run_induct [OF assms])
  fix local_addr turn s0
  assume start: "runtime_start env config local_addr turn = Inr s0"
  have "sealed env (runtime_new env config local_addr turn c r)" for c r
    by (simp add: sealed_def runtime_new_def Let_def)
  then show "sealed env s0"
    by (cases rule: seal.started [OF start]) blast
qed (use seal.steps in blast)

subsection \<open>Withdrawals end\<close>

text \<open>
  A pending withdrawal can be published: it can be signed, and the node takes what was signed.
\<close>

definition withdrawable :: "('f, 't, 'a) runtime_env \<Rightarrow> turn \<Rightarrow> ('f, 't, 'a) swim_runtime \<Rightarrow> string \<Rightarrow> bool" where
  "withdrawable env turn s grid_id \<longleftrightarrow> (\<forall>revision. \<exists>w.
     sign_broadcast env turn s (withdrawal_broadcast (cf_site_name (ru_config s)) grid_id revision) = Inr w \<and>
     (\<forall>node. fst (publish_state_broadcast (re_handler env) (re_foca env) w node) = Inr ()))"

definition revisions_left :: "nat \<Rightarrow> revision_clock \<Rightarrow> nat" where
  "revisions_left now c = unat (rc_last (adopt_renewal now c)) + 1 - unat (rc_next (adopt_renewal now c))"

lemma revisions_left_take:
  assumes "Suc n \<le> revisions_left now c"
  obtains r c' where "clock_take now c = (Some r, c')" "n \<le> revisions_left now c'"
proof -
  let ?c = "adopt_renewal now c"
  obtain revision c' where take: "clock_take now c = (revision, c')"
    by (cases "clock_take now c")
  have room: "rc_next ?c \<le> rc_last ?c"
    using assms by (simp add: revisions_left_def word_le_nat_alt)
  have idle: "rc_renewal ?c = None \<or> rc_renewal ?c = Some Pending"
    by (auto simp: adopt_renewal_def split: option.split renewal_reply.split sum.split)
  have c': "revision = Some (rc_next ?c)" "rc_last c' = rc_last ?c" "rc_next c' = saturating_add (rc_next ?c) 1"
    "rc_renewal c' = None \<or> rc_renewal c' = Some Pending"
    using take room idle by (auto simp: clock_take_def clock_renew_def Let_def split: if_splits)
  then have "adopt_renewal now c' = c'"
    by (auto simp: adopt_renewal_def)
  moreover have "unat (saturating_add (rc_next ?c) 1) \<le> unat (rc_next ?c) + 1"
    by (simp add: unat_saturating_add)
  ultimately have "n \<le> revisions_left now c'"
    using assms c' by (simp add: revisions_left_def)
  with take c'(1) show ?thesis
    by (auto intro: that)
qed

lemma publish_withdrawal_done:
  assumes "withdrawable env turn s grid_id"
  shows "ru_pending (publish_withdrawal env turn grid_id revision s) = fmdrop grid_id (ru_pending s)"
    and "ru_acked (publish_withdrawal env turn grid_id revision s) = ru_acked s @
        map (\<lambda>waiter. (grid_id, waiter, length (ru_published s) + 1))
          (case fmlookup (ru_pending s) grid_id of None \<Rightarrow> [] | Some waiters \<Rightarrow> waiters)"
    and "ru_trust (publish_withdrawal env turn grid_id revision s) = ru_trust s"
proof -
  let ?b = "withdrawal_broadcast (cf_site_name (ru_config s)) grid_id revision"
  obtain w where w: "sign_broadcast env turn s ?b = Inr w"
    "fst (publish_state_broadcast (re_handler env) (re_foca env) w (ru_node s)) = Inr ()"
    using assms unfolding withdrawable_def by blast
  obtain s1 where eq: "publish_broadcast env w s = (Inr (), s1)"
    using w(2) by (cases "publish_broadcast env w s") (auto simp: publish_broadcast_def split: prod.splits)
  have frame: "ru_pending s1 = ru_pending s" "ru_acked s1 = ru_acked s" "ru_trust s1 = ru_trust s"
    "ru_published s1 = ru_published s @ emitted env w s"
    using publish_broadcast_frame(1-) [of env w s] published_publish [of env w s] by (simp_all add: eq)
  moreover have "length (emitted env w s) = 1"
    using w(2) by (simp add: emitted_def)
  ultimately show "ru_pending (publish_withdrawal env turn grid_id revision s) = fmdrop grid_id (ru_pending s)"
    "ru_acked (publish_withdrawal env turn grid_id revision s) = ru_acked s @
        map (\<lambda>waiter. (grid_id, waiter, length (ru_published s) + 1))
          (case fmlookup (ru_pending s) grid_id of None \<Rightarrow> [] | Some waiters \<Rightarrow> waiters)"
    "ru_trust (publish_withdrawal env turn grid_id revision s) = ru_trust s"
    by (auto simp: publish_withdrawal_def w(1) eq fmdrop_absent Let_def split: option.split)
qed

lemma publish_withdrawals_done:
  assumes "length grid_ids \<le> revisions_left (tn_now turn) (ru_revisions s)" "\<And>grid_id. grid_id \<in> set grid_ids \<Longrightarrow> withdrawable env turn s grid_id"
  shows "fmlookup (ru_pending (publish_withdrawals env turn grid_ids s)) grid_id =
      (if grid_id \<in> set grid_ids then None else fmlookup (ru_pending s) grid_id) \<and>
    set (ru_acked s) \<subseteq> set (ru_acked (publish_withdrawals env turn grid_ids s)) \<and>
    (\<forall>waiters request. grid_id \<in> set grid_ids \<longrightarrow> fmlookup (ru_pending s) grid_id = Some waiters \<longrightarrow> request \<in> set waiters \<longrightarrow>
      (\<exists>n. (grid_id, request, n) \<in> set (ru_acked (publish_withdrawals env turn grid_ids s))))"
  using assms
proof (induction grid_ids arbitrary: s)
  case (Cons g grid_ids)
  obtain r c' where take: "clock_take (tn_now turn) (ru_revisions s) = (Some r, c')"
    "length grid_ids \<le> revisions_left (tn_now turn) c'"
    using Cons.prems(1) by (auto elim: revisions_left_take)
  let ?s = "s\<lparr>ru_revisions := c'\<rparr>"
  let ?s1 = "publish_withdrawal env turn g r ?s"
  have step: "publish_withdrawals env turn (g # grid_ids) s = publish_withdrawals env turn grid_ids ?s1"
    using take(1) by (simp add: take_revision_def)
  have "withdrawable env turn ?s g"
    using Cons.prems(2) [of g] by (simp add: withdrawable_def)
  note now = publish_withdrawal_done [OF this, of r]
  have "withdrawable env turn ?s1 grid_id" if "grid_id \<in> set grid_ids" for grid_id
    using Cons.prems(2) [of grid_id] that now(3) by (simp add: withdrawable_def turn_config)
  with Cons.IH [of ?s1] take(2) have IH: "fmlookup (ru_pending (publish_withdrawals env turn grid_ids ?s1)) grid_id =
      (if grid_id \<in> set grid_ids then None else fmlookup (ru_pending ?s1) grid_id) \<and>
    set (ru_acked ?s1) \<subseteq> set (ru_acked (publish_withdrawals env turn grid_ids ?s1)) \<and>
    (\<forall>waiters request. grid_id \<in> set grid_ids \<longrightarrow> fmlookup (ru_pending ?s1) grid_id = Some waiters \<longrightarrow> request \<in> set waiters \<longrightarrow>
      (\<exists>n. (grid_id, request, n) \<in> set (ru_acked (publish_withdrawals env turn grid_ids ?s1))))"
    by simp
  show ?case
    unfolding step
  proof (intro conjI allI impI)
    show "\<exists>n. (grid_id, request, n) \<in> set (ru_acked (publish_withdrawals env turn grid_ids ?s1))"
      if "grid_id \<in> set (g # grid_ids)" "fmlookup (ru_pending s) grid_id = Some waiters" "request \<in> set waiters" for waiters request
    proof (cases "grid_id = g")
      case True
      with that now(2) have "(grid_id, request, length (ru_published s) + 1) \<in> set (ru_acked ?s1)"
        by simp
      with IH show ?thesis
        by blast
    next
      case False
      with that now(1) IH show ?thesis
        by simp
    qed
  qed (use IH now(1,2) in auto)
qed simp

lemma announce_all_frame [simp]:
  "ru_pending (announce_all env turn s) = ru_pending s" "ru_acked (announce_all env turn s) = ru_acked s"
proof -
  have "ru_pending (fold (\<lambda>addr. run_node env turn (announce (re_foca env) (node_id_seed addr))) addrs s) = ru_pending s"
    "ru_acked (fold (\<lambda>addr. run_node env turn (announce (re_foca env) (node_id_seed addr))) addrs s) = ru_acked s" for addrs s
    by (induction addrs arbitrary: s) simp_all
  then show "ru_pending (announce_all env turn s) = ru_pending s" "ru_acked (announce_all env turn s) = ru_acked s"
    by (simp_all add: announce_all_def)
qed

lemma republish_scopes_frame [simp]:
  "ru_pending (snd (republish_scopes env turn scopes s)) = ru_pending s" "ru_acked (snd (republish_scopes env turn scopes s)) = ru_acked s"
proof -
  have "ru_pending (snd (republish_scopes env turn scopes s)) = ru_pending s \<and> ru_acked (snd (republish_scopes env turn scopes s)) = ru_acked s"
  proof (induction scopes arbitrary: s)
    case (Cons scope scopes)
    have "ru_pending s1 = ru_pending s \<and> ru_acked s1 = ru_acked s" if "take_revision turn s = (revision, s1)" for revision s1
      using that by (auto simp: take_revision_def split: prod.splits)
    with Cons.IH show ?case
      by (simp split: prod.split option.split)
  qed simp
  then show "ru_pending (snd (republish_scopes env turn scopes s)) = ru_pending s"
    "ru_acked (snd (republish_scopes env turn scopes s)) = ru_acked s"
    by simp_all
qed

lemma on_tick_frame:
  "ru_pending (on_tick env turn s) = ru_pending (publish_pending_withdrawals env turn (publish_model_inventories (tn_clock turn) s))"
  "ru_acked (on_tick env turn s) = ru_acked (publish_pending_withdrawals env turn (publish_model_inventories (tn_clock turn) s))"
proof -
  have "ru_pending (republish_state env turn s) = ru_pending s" "ru_acked (republish_state env turn s) = ru_acked s" for s
    using republish_scopes_frame [of env turn "fmkeys (ru_retained s)" s] by (simp_all add: republish_state_def case_prod_unfold)
  then show "ru_pending (on_tick env turn s) = ru_pending (publish_pending_withdrawals env turn (publish_model_inventories (tn_clock turn) s))"
    "ru_acked (on_tick env turn s) = ru_acked (publish_pending_withdrawals env turn (publish_model_inventories (tn_clock turn) s))"
    by (simp_all add: on_tick_def tick_mirror_def announce_seeds_again_def case_prod_unfold Let_def)
qed

subsection \<open>Properties\<close>

text \<open>
  C21. What readers see is vouched for by the keys in force. In every state of a running operator, once any
  grid is strict, the state published to readers is one its node had under the trust store of this
  moment: each provider in it is owned through a grid, and if that grid is strict, a broadcast of its own
  site that verifies against a key pinned now carried the record. An update of the trust is thus never
  in force with the state admitted before it still on show.
\<close>

theorem readers_see_vouched:
  assumes "foca_lawful (re_handler env) (re_foca env)" "runtime_run env config s"
    and "any_strict (trust_of (ru_node s))" "fmlookup (gs_providers (ru_state s)) k = Some p"
  shows "\<exists>local_addr n owner grid. node_steps (re_handler env) (re_foca env) (node_start env (runtime_identity config local_addr)) n \<and>
    hs_state (sn_handler n) = ru_state s \<and> trust_of n = trust_of (ru_node s) \<and>
    fmlookup (rt_provider_owners (hs_retained (sn_handler n))) (provider_identity_of p) = Some owner \<and>
    po_verified_grid owner \<and> po_scope owner = ProviderStateScope (ps_site_id p) (Some grid) \<and>
    (is_strict (trust_of (ru_node s)) grid \<longrightarrow> vouched (re_handler env) (trust_of (ru_node s)) grid p)"
proof -
  obtain local_addr n where n: "node_steps (re_handler env) (re_foca env) (node_start env (runtime_identity config local_addr)) n"
    "trust_of n = trust_of (ru_node s)" "ru_state s = hs_state (sn_handler n)"
    using anchored_run [OF assms(1,2)] unfolding anchored_def shown_under_def by metis
  note inv = trust_invD [OF trust_inv_reachable [OF assms(1) n(1)]]
  have p: "fmlookup (gs_providers (hs_state (sn_handler n))) k = Some p"
    using assms(4) n(3) by simp
  from inv(1) p obtain owner where owner: "fmlookup (owners_of (sn_handler n)) (provider_identity_of p) = Some owner"
      "sc_origin_site (po_scope owner) = ps_site_id p"
    unfolding providers_owned_def by fastforce
  from inv(3) [OF owner(1)] assms(3) n(2) obtain grid where grid: "po_verified_grid owner" "sc_grid_id (po_scope owner) = Some grid"
    by (auto simp: owner_ok_def)
  have "po_scope owner = ProviderStateScope (ps_site_id p) (Some grid)"
    using owner(2) grid(2) by (simp add: provider_state_scope_eq_iff)
  with n owner(1) grid(1) inv(4) [OF p owner(1) grid(2)] show ?thesis
    by metis
qed

text \<open>
  C22. The trust in force is the policy the controllers asked for. In every run the updates applied are
  those sent, in order, but for the ones still queued; and the grids the node enforces, the network
  bound to each and the keys pinned for every site in it are what these updates say one after the other,
  from no grid at all: an update replaces the policy of its grid alone, the peers of a network are kept
  when an update brings none, and the key of this site is the public half of the key it signs with.
\<close>

theorem runtime_trust_refines:
  assumes "foca_lawful (re_handler env) (re_foca env)" "runtime_run env config s"
  shows "\<exists>applied. ru_trust_sent s = applied @ ru_trust_updates s \<and>
    policy (trust_of (ru_node s)) = fold (policy_update (re_signer env) (cf_site_name (ru_config s))) applied (\<lambda>_. None)"
  using trusted_run [OF assms] by (simp add: trusted_def)



text \<open>
  C23. A grid being withdrawn is silent. In every run, what was published for a grid while its withdrawal
  was pending and carries grid state is the withdrawal itself: this site's own empty state, said to
  be all there is.
\<close>

theorem withdrawn_grid_silent:
  assumes "foca_lawful (re_handler env) (re_foca env)" "runtime_run env config s"
    and "e \<in> set (ru_published s)" "sb_grid_id (pb_broadcast e) = Some grid_id"
    and "fmlookup (pb_pending e) grid_id \<noteq> None" "carries_grid_state (pb_broadcast e)"
  shows "withdraws (cf_site_name (ru_config s)) grid_id (pb_broadcast e)"
  using withdrawn_run [OF assms(1,2)] assms(3-6) by (auto simp: withdrawn_ok_def silent_in_def)

text \<open>
  C24. An acknowledged withdrawal was published. In every run, a request that was told its grid is
  withdrawn was told so after a publication, the last one at that moment, that is the withdrawal of this
  grid and was made while that very request was waiting.
\<close>

theorem withdrawal_acknowledged:
  assumes "foca_lawful (re_handler env) (re_foca env)" "runtime_run env config s"
    and "(grid_id, request, n) \<in> set (ru_acked s)"
  shows "0 < n \<and> n \<le> length (ru_published s) \<and>
    withdraws (cf_site_name (ru_config s)) grid_id (pb_broadcast (ru_published s ! (n - 1))) \<and>
    (\<exists>waiters. fmlookup (pb_pending (ru_published s ! (n - 1))) grid_id = Some waiters \<and> request \<in> set waiters)"
  using withdrawn_run [OF assms(1,2)] assms(3) by (auto simp: withdrawn_ok_def ack_ok_def)


text \<open>
  C26. Packets are sealed. In every run nothing was sent before the operator knew how, and from the first
  packet on that left under a key, or from the start when it started with one, every packet is sealed
  with the key in force: no plain packet ever follows.
\<close>

theorem packets_sealed:
  assumes "runtime_run env config s" "j < length (ru_sent s)" "ru_sent s ! j = (key, addr, payload)"
  shows "key \<noteq> KeyPending \<and>
    (cf_key (ru_config s) = KeyLoaded k \<or> (\<exists>i\<le>j. fst (ru_sent s ! i) = KeyLoaded k) \<longrightarrow>
      (\<exists>k' nonce data. key = KeyLoaded k' \<and> encrypt (re_aead env) nonce k' data = Inr payload))"
proof -
  have ok: "sealed env s"
    using assms(1) by (rule sealed_run)
  have here: "(key, addr, payload) \<in> set (ru_sent s)"
    using assms(2,3) by (metis nth_mem)
  with ok have "protected (re_aead env) (key, addr, payload)" "stage (cf_key (ru_config s)) \<le> stage key"
    by (force simp: sealed_def list_all_iff)+
  moreover have "stage (fst (ru_sent s ! i)) \<le> stage key" if "i \<le> j" for i
    using ok sorted_nth_mono [of "map (stage \<circ> fst) (ru_sent s)" i j] that assms(2,3) by (simp add: sealed_def)
  ultimately show ?thesis
    by (cases key) (force simp: protected_def stage_def)+
qed

subsection \<open>An operator at work\<close>

definition ex_runtime_env :: "(node_id, nat, string) runtime_env" where
  "ex_runtime_env = \<lparr>re_handler = ex_env1, re_foca = ex_foca ex_env1, re_live = (\<lambda>_. []), re_aead = ex_aead,
     re_signer = \<lparr>sg_public_key = (\<lambda>key. Inr (1 # key)), sg_sign = (\<lambda>key data. Inr (key @ data))\<rparr>,
     re_addr = (\<lambda>addr. addr), re_show_addr = (\<lambda>addr. addr)\<rparr>"

definition ex_turn :: turn where
  "ex_turn = \<lparr>tn_now = 0, tn_clock = 5000000, tn_nonce = (\<lambda>_. Inr (replicate 12 0)), tn_closed = (\<lambda>_. False)\<rparr>"

definition ex_swim_config :: swim_config where
  "ex_swim_config = \<lparr>cf_advertise_addr = None, cf_site_name = ''s'', cf_seeds = [''p''], cf_signals_address = None,
     cf_gateway_address = None, cf_key = KeyLoaded [7], cf_revision_lease = ex_lease 5000 5000000000,
     cf_revision_renewer = True, cf_departed = Evict, cf_dead_member_ttl = 9\<rparr>"

definition ex_started :: "(node_id, nat, string) swim_runtime" where
  "ex_started = announce_all ex_runtime_env ex_turn (runtime_new ex_runtime_env ex_swim_config ''l'' ex_turn (ex_clock 5001) 5000)"

definition ex_trust_update :: grid_trust_update where
  "ex_trust_update = Enforce \<lparr>gts_grid_id = ''g'', gts_network_name = ''n'',
     gts_local_signing_key = Some [4], gts_peer_pins = Some (fmap_of_list [(''a'', [[8]])])\<rparr>"

definition ex_enforced :: "(node_id, nat, string) swim_runtime" where
  "ex_enforced = on_trust_update ex_runtime_env (send_trust_update ex_trust_update
     (on_trust_update ex_runtime_env (send_trust_update AllowStateAdmission ex_started)))"

definition ex_withdrawn :: "(node_id, nat, string) swim_runtime" where
  "ex_withdrawn = on_withdraw ex_runtime_env ex_turn ''g'' 3 ex_enforced"

lemma ex_runtime_lawful:
  "foca_lawful (re_handler ex_runtime_env) (re_foca ex_runtime_env)"
  "signer_lawful (re_handler ex_runtime_env) (re_signer ex_runtime_env)"
  using ex_foca_lawful by (simp_all add: ex_runtime_env_def signer_lawful_def ex_env1_def ex_env_def)

lemma ex_started_eq: "runtime_start ex_runtime_env ex_swim_config ''l'' ex_turn = Inr ex_started"
proof -
  have "revision_clock_new (ex_lease 5000 5000000000) True = Inr (ex_clock 5000)"
    by (simp add: revision_clock_new_def ex_lease_def ex_clock_def)
  moreover have "publish_address_broadcast ex_runtime_env ex_turn r (runtime_new ex_runtime_env ex_swim_config ''l'' ex_turn c r') =
      runtime_new ex_runtime_env ex_swim_config ''l'' ex_turn c r'" for r c r'
    by (simp add: publish_address_broadcast_def runtime_new_def ex_swim_config_def Let_def)
  ultimately show ?thesis
    by (simp add: runtime_start_def ex_started_def ex_clock_take Let_def)
      (simp add: ex_swim_config_def ex_lease_def ex_turn_def ex_clock_take)
qed

lemma ex_announce:
  assumes "sn_runtime n = \<lparr>ao_messages = [], ao_timers = [], ao_events = []\<rparr>"
  shows "announce (ex_foca env) dst n =
    (\<lparr>ao_messages = [\<lparr>om_addr = nid_addr dst, om_data = []\<rparr>], ao_timers = [], ao_events = []\<rparr>, n)"
  using assms by (cases n) (simp add: announce_def call_foca_def ex_foca_def send_to_def take_output_def output_new_def)

lemma ex_sealed: "encrypt ex_aead (Inr (replicate 12 0)) [7] [] = Inr (MAGIC @ ENCRYPTED_VERSION # replicate 28 0)"
  by (simp add: encrypt_def ex_aead_def flip: replicate_add)

lemma ex_started_record:
  "ex_started = (runtime_new ex_runtime_env ex_swim_config ''l'' ex_turn (ex_clock 5001) 5000)
     \<lparr>ru_sent := [(KeyLoaded [7], ''p'', MAGIC @ ENCRYPTED_VERSION # replicate 28 0)]\<rparr>"
proof -
  let ?s = "runtime_new ex_runtime_env ex_swim_config ''l'' ex_turn (ex_clock 5001) 5000"
  have "sn_runtime (ru_node ?s) = \<lparr>ao_messages = [], ao_timers = [], ao_events = []\<rparr>"
    by (simp add: runtime_new_def Let_def hold_state_admission_def with_origin_capacity_def output_new_def)
  note ann = ex_announce [OF this]
  have "send_packet ex_runtime_env ex_turn \<lparr>om_addr = ''p'', om_data = []\<rparr> ?s = ?s\<lparr>ru_sent := [(KeyLoaded [7], ''p'', MAGIC @ ENCRYPTED_VERSION # replicate 28 0)]\<rparr>"
    using ex_sealed by (simp add: send_packet_def wire_payload_def runtime_new_def ex_swim_config_def Let_def ex_turn_def ex_runtime_env_def)
  moreover have "ru_seed_addrs ?s = [''p'']"
    by (simp add: runtime_new_def ex_swim_config_def foreign_seeds_def Let_def)
  moreover have "re_foca ex_runtime_env = ex_foca ex_env1"
    by (simp add: ex_runtime_env_def)
  ultimately show ?thesis
    unfolding ex_started_def announce_all_def
    by (simp add: run_node_def ann drain_output_def node_id_seed_def Let_def)
qed

lemma run_step: "runtime_run env config s \<Longrightarrow> runtime_step env s s' \<Longrightarrow> runtime_run env config s'"
  unfolding runtime_run_def by (meson rtranclp.rtrancl_into_rtrancl)

lemma ex_started_run: "runtime_run ex_runtime_env ex_swim_config ex_started"
proof -
  have "runtime_started ex_runtime_env ex_swim_config ex_started"
    using ex_started_eq unfolding runtime_started_def by (auto simp: ex_swim_config_def ex_lease_def)
  then show ?thesis
    by (auto simp: runtime_run_def)
qed

lemma ex_enforced_run: "runtime_run ex_runtime_env ex_swim_config ex_enforced"
proof -
  have facts: "cf_site_name (ru_config ex_started) = ''s''" "ru_running ex_started"
    by (simp_all add: ex_started_record runtime_new_def ex_swim_config_def Let_def)
  show ?thesis
    unfolding ex_enforced_def
    by (rule run_step [OF run_step [OF run_step [OF run_step [OF ex_started_run step_update] step_trust] step_update] step_trust])
      (simp_all add: facts send_trust_update_def on_trust_update_def ex_trust_update_def update_ok_def split: list.split)
qed

definition ex_enforced_handler :: state_handler where
  "ex_enforced_handler = (with_capacity ''s'' 1024)\<lparr>hs_trust_store :=
     bind_provider_network ''g'' ''n'' (enforce ''g'' (set_pin (PinGrid ''g'' ''a'') [[8]] (set_pin (PinGrid ''g'' ''s'') [[1, 4]] trust_store_default)))\<rparr>"

lemma ex_enforced_handler: "sn_handler (ru_node ex_enforced) = ex_enforced_handler"
  unfolding ex_enforced_def ex_started_record by code_simp

definition ex_shown :: state_handler where
  "ex_shown = \<lparr>
    hs_state = hs_state ex_node_received,
    hs_retained = hs_retained ex_node_received,
    hs_gateway_addrs = fmap_of_list [(''a'', ''gw'')], hs_cert_pems = fmempty, hs_signals_addrs = fmempty,
    hs_model_inventories = [], hs_assembler = assembler_empty, hs_trust_store = hs_trust_store ex_enforced_handler,
    hs_max_origins = 1024, hs_max_scopes = 1024 * 16\<rparr>"

lemma ex_received_enforced: "snd (receive_item ex_env1 5000000 [1, 2, 3, 2, 5] ex_enforced_handler) = ex_shown"
  unfolding ex_shown_def ex_node_received_def ex_received_eq by code_simp

lemma ex_encodes: "\<exists>data. broadcast_encode (ex_codec b0) b = Inr data \<and> length data \<le> 5"
  by (simp add: broadcast_encode_def encode_provider_frame_def ex_codec_def try_bind_def Let_def)

lemma ex_withdrawable:
  assumes "fmlookup (ru_trust s) grid_id = Some grid" "eg_signing_key grid = Some key"
  shows "withdrawable ex_runtime_env ex_turn s grid_id"
proof -
  have "fst (publish_state_broadcast ex_env1 (ex_foca ex_env1) w node) = Inr ()" for w and node :: "(node_id, nat) swim_node"
    using ex_encodes [of ex_wire_broadcast w]
    by (auto simp: publish_state_broadcast_def queue_bytes_def state_broadcast_byte_budget_def ex_env1_def ex_env_def ex_foca_def
        MAX_FOCA_PACKET_BYTES_def MAX_SWIM_PACKET_BYTES_def OVERHEAD_def NONCE_LEN_def TAG_LEN_def CUSTOM_BROADCAST_LENGTH_PREFIX_BYTES_def)
  moreover have "\<exists>w. sign_broadcast ex_runtime_env ex_turn s (withdrawal_broadcast site grid_id revision) = Inr w" for site revision
  proof -
    have "\<exists>signable. signable_bytes (he_codec ex_env1) b = Inr signable" for b
      using ex_encodes [of ex_wire_broadcast "b\<lparr>sb_signature := None\<rparr>"] by (auto simp: signable_bytes_def ex_env1_def ex_env_def)
    then show ?thesis
      using assms by (force simp: trust_sign_def withdrawal_broadcast_def with_authoritative_provider_state_def with_grid_id_def
          state_broadcast_new_def ex_runtime_env_def Let_def)
  qed
  ultimately show ?thesis
    unfolding withdrawable_def by (metis (no_types, lifting) ex_runtime_env_def runtime_env.select_convs(1,2))
qed

lemma ex_enforced_trust:
  "is_strict (trust_of (ru_node ex_enforced)) ''g''"
  "\<exists>grid key. fmlookup (ru_trust ex_enforced) ''g'' = Some grid \<and> eg_signing_key grid = Some key"
proof -
  show strict: "is_strict (trust_of (ru_node ex_enforced)) ''g''"
    by (simp add: ex_enforced_handler ex_enforced_handler_def)
  have site: "cf_site_name (ru_config ex_enforced) = ''s''"
    by (simp add: ex_enforced_def on_trust_update_def send_trust_update_def ex_started_record runtime_new_def ex_swim_config_def Let_def
        split: list.split)
  have ok: "trust_ok (re_signer ex_runtime_env) ''s'' (ru_trust ex_enforced) (trust_of (ru_node ex_enforced))"
    using trusted_run [OF ex_runtime_lawful(1) ex_enforced_run] by (simp add: trusted_def site)
  then obtain grid where grid: "fmlookup (ru_trust ex_enforced) ''g'' = Some grid"
    using trust_okD(1) [OF ok] strict by auto
  have "pinned (trust_of (ru_node ex_enforced)) ''g'' ''s'' = [[1, 4]]"
    unfolding ex_enforced_handler ex_enforced_handler_def by (simp add: pinned_def)
  then have "eg_signing_key grid \<noteq> None"
    using trust_okD(2) [OF ok grid] by (auto simp: grid_ok_def own_keys_def)
  with grid show "\<exists>grid key. fmlookup (ru_trust ex_enforced) ''g'' = Some grid \<and> eg_signing_key grid = Some key"
    by auto
qed

lemma ex_withdrawn_run: "runtime_run ex_runtime_env ex_swim_config ex_withdrawn"
  unfolding ex_withdrawn_def
  by (rule run_step [OF ex_enforced_run step_withdraw])
    (simp add: ex_enforced_def on_trust_update_def send_trust_update_def ex_started_record runtime_new_def Let_def split: list.split)

definition ex_withdrawing :: "(node_id, nat, string) swim_runtime" where
  "ex_withdrawing = ex_enforced\<lparr>ru_pending := fmap_of_list [(''g'', [3])]\<rparr>"

lemma ex_withdrawing_facts:
  "withdrawable ex_runtime_env ex_turn ex_withdrawing ''g''"
  "revisions_left (tn_now ex_turn) (ru_revisions ex_withdrawing) = 255" "ru_retained ex_withdrawing = fmempty"
  "ru_published ex_withdrawing = []" "ru_acked ex_withdrawing = []" "cf_site_name (ru_config ex_withdrawing) = ''s''"
  "clock_take (tn_now ex_turn) (ru_revisions ex_withdrawing) = (Some 5001, ex_clock 5002)"
proof -
  show "withdrawable ex_runtime_env ex_turn ex_withdrawing ''g''"
    using ex_enforced_trust(2) ex_withdrawable [of ex_withdrawing "''g''"] by (auto simp: ex_withdrawing_def)
  have fields: "ru_revisions ex_withdrawing = ex_clock 5001" "ru_retained ex_withdrawing = fmempty"
    "ru_published ex_withdrawing = []" "ru_acked ex_withdrawing = []" "cf_site_name (ru_config ex_withdrawing) = ''s''"
    by (simp_all add: ex_withdrawing_def ex_enforced_def on_trust_update_def send_trust_update_def ex_started_record runtime_new_def
        ex_swim_config_def Let_def split: list.split)
  then show "ru_retained ex_withdrawing = fmempty" "ru_published ex_withdrawing = []" "ru_acked ex_withdrawing = []"
    "cf_site_name (ru_config ex_withdrawing) = ''s''"
    by simp_all
  show "revisions_left (tn_now ex_turn) (ru_revisions ex_withdrawing) = 255"
    by (simp add: fields revisions_left_def ex_clock_def adopt_renewal_def)
  show "clock_take (tn_now ex_turn) (ru_revisions ex_withdrawing) = (Some 5001, ex_clock 5002)"
    by (simp add: fields ex_clock_take ex_turn_def)
qed

lemma apply_trust_gateway [simp]: "ru_gateway_address (apply_trust env u s) = ru_gateway_address s"
  by (simp add: apply_trust_def publish_state_def split: prod.split)

lemma ex_enforced_fields:
  "ru_running ex_enforced" "ru_pending ex_enforced = fmempty" "ru_retained ex_enforced = fmempty" "ru_key ex_enforced = KeyLoaded [7]"
  "ru_trust_updates ex_enforced = []" "ru_trust_sent ex_enforced = [AllowStateAdmission, ex_trust_update]"
  "ru_config ex_enforced = ex_swim_config" "ru_gateway_address ex_enforced = None"
  by (simp_all add: ex_enforced_def on_trust_update_def send_trust_update_def ex_started_record runtime_new_def Let_def ex_swim_config_def
      apply_trust_queue split: list.split)

lemma ex_withdrawn_eq:
  "ex_withdrawn = publish_withdrawal ex_runtime_env ex_turn ''g'' 5001 (ex_withdrawing\<lparr>ru_revisions := ex_clock 5002\<rparr>)"
proof -
  have "fmkeys (fmap_of_list [(''g'', [3::nat])]) = [''g'']"
    by (simp add: fmkeys_def sorted_list_of_fset.rep_eq)
  moreover have "queue_withdrawal (tn_closed ex_turn) ''g'' 3 (ru_pending ex_enforced, ru_retained ex_enforced) =
      (fmap_of_list [(''g'', [3])], ru_retained ex_enforced)"
    by (simp add: queue_withdrawal_def ex_enforced_fields fmdrop_absent)
  ultimately show ?thesis
    using ex_withdrawing_facts(7)
    by (simp add: ex_withdrawn_def on_withdraw_def publish_pending_withdrawals_def take_revision_def ex_withdrawing_def)
qed

lemma ex_withdrawn_facts:
  "\<exists>e. ru_published ex_withdrawn = [e] \<and> pb_store e = trust_of (ru_node ex_enforced) \<and> sb_grid_id (pb_broadcast e) = Some ''g'' \<and>
     fmlookup (pb_pending e) ''g'' = Some [3] \<and> carries_grid_state (pb_broadcast e)"
  "ru_acked ex_withdrawn = [(''g'', 3, 1)]" "cf_site_name (ru_config ex_withdrawn) = ''s''"
proof -
  let ?s = "ex_withdrawing\<lparr>ru_revisions := ex_clock 5002\<rparr>" and ?b = "withdrawal_broadcast ''s'' ''g'' 5001"
  have able: "withdrawable ex_runtime_env ex_turn ?s ''g''"
    using ex_withdrawing_facts(1) by (simp add: withdrawable_def)
  then obtain w where w: "sign_broadcast ex_runtime_env ex_turn ?s ?b = Inr w"
    "fst (publish_state_broadcast (re_handler ex_runtime_env) (re_foca ex_runtime_env) w (ru_node ?s)) = Inr ()"
    unfolding withdrawable_def using ex_withdrawing_facts(6) by fastforce
  have "emitted_signed ex_runtime_env ex_turn ?b ?s = [\<lparr>pb_store = trust_of (ru_node ?s), pb_pending = ru_pending ?s, pb_broadcast = w\<rparr>]"
    using w by (simp add: emitted_signed_def emitted_def)
  moreover have "sb_grid_id w = Some ''g''" "sb_authoritative_provider_state w"
    using trust_sign_Inr(1,5) [OF w(1)]
    by (simp_all add: withdrawal_broadcast_def with_authoritative_provider_state_def with_grid_id_def state_broadcast_new_def)
  ultimately show "\<exists>e. ru_published ex_withdrawn = [e] \<and> pb_store e = trust_of (ru_node ex_enforced) \<and> sb_grid_id (pb_broadcast e) = Some ''g'' \<and>
     fmlookup (pb_pending e) ''g'' = Some [3] \<and> carries_grid_state (pb_broadcast e)"
    using ex_withdrawing_facts(4,6)
    by (simp add: ex_withdrawn_eq publish_withdrawal_published carries_grid_state_def is_metadata_only_def)
      (simp add: ex_withdrawing_def)
  show "ru_acked ex_withdrawn = [(''g'', 3, 1)]"
    using publish_withdrawal_done(2) [OF able, of 5001] ex_withdrawing_facts(4,5) unfolding ex_withdrawn_eq
    by (simp add: ex_withdrawing_def)
  show "cf_site_name (ru_config ex_withdrawn) = ''s''"
    using ex_withdrawing_facts(6) by (simp add: ex_withdrawn_eq turn_config)
qed

lemma send_packets_gateway [simp]: "ru_gateway_address (fold (send_packet env turn) msgs s) = ru_gateway_address s"
  by (induction msgs arbitrary: s) (simp_all add: send_packet_def split: option.split)

lemma run_node_gateway [simp]: "ru_gateway_address (run_node env turn f s) = ru_gateway_address s"
  by (simp add: run_node_def drain_output_def publish_members_def Let_def split: prod.split)

definition ex_readers :: "(node_id, nat, string) swim_runtime" where
  "ex_readers = on_packet ex_runtime_env ex_turn (MAGIC @ ENCRYPTED_VERSION # replicate 12 0 @ [1, 2, 3, 2, 5] @ replicate 16 0) ex_enforced"

lemma ex_readers_facts:
  "any_strict (trust_of (ru_node ex_readers))"
  "fmlookup (gs_providers (ru_state ex_readers)) ''n/a/p'' =
     Some ((ex_provider ''a'' ''p'' 7)\<lparr>ps_tools := [''t''], ps_capacity_weight := 3\<rparr>)"
proof -
  let ?raw = "MAGIC @ ENCRYPTED_VERSION # replicate 12 0 @ [1, 2, 3, 2, 5] @ replicate 16 0"
  have "decrypt ex_aead [7] ?raw = Inr [1, 2, 3, 2, 5]"
    by code_simp
  then have plain: "wire_plaintext (re_aead ex_runtime_env) (ru_key ex_enforced) ?raw = Inr [1, 2, 3, 2, 5]"
    by (simp add: wire_plaintext_def ex_enforced_fields ex_runtime_env_def)
  let ?s = "run_node ex_runtime_env ex_turn (handle_data (re_foca ex_runtime_env) [1, 2, 3, 2, 5]) ex_enforced"
  have readers: "ex_readers = publish_members ex_runtime_env (tn_now ex_turn) (publish_model_inventories (tn_clock ex_turn) (publish_state ?s))"
    unfolding ex_readers_def on_packet_def plain
    by (simp add: republish_addresses_def publish_model_inventories_def publish_members_def publish_state_def ex_enforced_fields
        ex_swim_config_def Let_def)
  have "sn_handler (ru_node ?s) = ex_shown"
    by (simp add: handle_data_def call_foca_def ex_foca_def ex_runtime_env_def ex_enforced_handler ex_received_enforced take_output_def)
  then have "sn_handler (ru_node ex_readers) = ex_shown" "ru_state ex_readers = hs_state ex_shown"
    unfolding readers by (simp_all add: publish_model_inventories_def)
  then show "any_strict (trust_of (ru_node ex_readers))" "fmlookup (gs_providers (ru_state ex_readers)) ''n/a/p'' =
     Some ((ex_provider ''a'' ''p'' 7)\<lparr>ps_tools := [''t''], ps_capacity_weight := 3\<rparr>)"
    by (simp_all add: ex_shown_def ex_enforced_handler_def ex_node_received_def any_strict_def enforce_def bind_provider_network_def fmlookup_of_list)
qed

lemma ex_readers_run: "runtime_run ex_runtime_env ex_swim_config ex_readers"
  unfolding ex_readers_def by (rule run_step [OF ex_enforced_run step_packet]) (rule ex_enforced_fields)

theorem readers_see_vouched_witness:
  "\<exists>local_addr n. node_steps ex_env1 (ex_foca ex_env1) (node_start ex_runtime_env (runtime_identity ex_swim_config local_addr)) n \<and>
    hs_state (sn_handler n) = ru_state ex_readers \<and> trust_of n = trust_of (ru_node ex_readers)"
  using readers_see_vouched [OF ex_runtime_lawful(1) ex_readers_run ex_readers_facts] by (auto simp: ex_runtime_env_def)

theorem runtime_trust_refines_witness:
  "policy (trust_of (ru_node ex_enforced)) =
    fold (policy_update (re_signer ex_runtime_env) ''s'') [AllowStateAdmission, ex_trust_update] (\<lambda>_. None)"
  using runtime_trust_refines [OF ex_runtime_lawful(1) ex_enforced_run] by (simp add: ex_enforced_fields) (simp add: ex_swim_config_def)



theorem withdrawn_grid_silent_witness: "withdraws ''s'' ''g'' (pb_broadcast (hd (ru_published ex_withdrawn)))"
  using withdrawn_grid_silent [OF ex_runtime_lawful(1) ex_withdrawn_run, of "hd (ru_published ex_withdrawn)" "''g''"] ex_withdrawn_facts
  by auto

theorem withdrawal_acknowledged_witness:
  "0 < length (ru_published ex_withdrawn) \<and> withdraws ''s'' ''g'' (pb_broadcast (ru_published ex_withdrawn ! 0))"
  using withdrawal_acknowledged [OF ex_runtime_lawful(1) ex_withdrawn_run, of "''g''" 3 1] ex_withdrawn_facts(2,3) by auto


theorem packets_sealed_witness:
  "\<exists>key nonce data. encrypt ex_aead nonce key data = Inr (MAGIC @ ENCRYPTED_VERSION # replicate 28 0)"
  using packets_sealed [OF ex_started_run, of 0 "KeyLoaded [7]" "''p''" "MAGIC @ ENCRYPTED_VERSION # replicate 28 0" "[7]"]
  by (auto simp: ex_started_record runtime_new_def ex_swim_config_def ex_runtime_env_def Let_def)

end
