(* ===== verification/Spec2Isabelle.thy ===== *)
theory Spec2Isabelle
  imports GridState Identity InventoryRoundTrip Delivery EnrollmentSafety LeaderElection RevisionSafety MemberMirror RuntimeProperties
begin

text \<open>
  A verification library for praxis-proxy/grid: the state a grid of sites replicates over SWIM, who may
  write it, and how a site gets the identity it signs with.

  \<^bold>\<open>The program.\<close> Every site runs an operator. The operators form a SWIM cluster
  (\<^verbatim>\<open>crates/swim\<close>): a \<^verbatim>\<open>SwimNode\<close> wraps the foca membership protocol and hands it a
  \<^verbatim>\<open>StateBroadcastHandler\<close>. Sites publish state broadcasts, with their providers, capabilities and tenant
  spend, and signed model-inventory frames; foca piggybacks both on its messages, and the receiving
  handler decodes them, decides on admission with the trust store, merges them into a
  \<^verbatim>\<open>GridStateSnapshot\<close> of delta CRDTs (\<^verbatim>\<open>crates/crdt\<close>) and publishes the result to the operator. The
  operator (\<^verbatim>\<open>crates/operator\<close>) pins signing keys, makes grids strict, and evicts or forgets sites through the
  node; it mirrors the membership for its readers, reserves revisions and generations durably before it
  uses them, and contends for a lease so that one of its replicas acts. A site
  obtains its certificate from the enrollment service (\<^verbatim>\<open>crates/enrollment\<close>), whose store turns a
  one-time token into a record and renews it.

  \<^bold>\<open>Conventions.\<close> \<open>Prelude\<close> has the machine integers (\<^verbatim>\<open>u64\<close> as \<^typ>\<open>64 word\<close> with checked and
  saturating arithmetic), results as sums with \<open>try_bind\<close> for the question mark, and maps: a
  \<^verbatim>\<open>BTreeMap\<close> or \<^verbatim>\<open>HashMap\<close> is an \<open>fmap\<close>, iterated in key order where the code iterates. A struct is a
  record, an enum a datatype, and each operation takes the state and returns it updated. A lock or a
  watch channel becomes a field of that state: the code holds its lock for a whole operation, so an
  interleaving of tasks is a sequence of operations. The clock is an argument, read once for a message or,
  in the SWIM loop, for a turn. What the loop publishes, sends and acknowledges is kept in logs of its state.
  Functions under \<^verbatim>\<open>crates/\<close> keep their names, with a prefix or suffix where two modules share one.

  \<^bold>\<open>Theories.\<close>
  \<^item> \<open>Replication\<close>: the contract of a replicated value, as locales of a join and of a view, from which
    convergence follows once; interpreted on the CRDTs.
  \<^item> \<open>GCounter\<close> (\<^verbatim>\<open>lww.rs\<close>, \<^verbatim>\<open>gcounter.rs\<close>), \<open>OrSet\<close> (\<^verbatim>\<open>orset.rs\<close>), \<open>GridState\<close> (\<^verbatim>\<open>grid_state.rs\<close>): merges
    compute maxima and unions, an add wins over a concurrent remove, tags are fresh in every run,
    snapshots converge, replacement of an origin is exact and spend tables stay within their bounds.
  \<^item> \<open>Identity\<close> (\<^verbatim>\<open>identity.rs\<close>): generations stay within the reserved range; address conflicts follow
    a strict order.
  \<^item> \<open>ModelInventory\<close>, \<open>InventoryAssembly\<close>, \<open>InventoryRoundTrip\<close> (\<^verbatim>\<open>model_inventory.rs\<close>): the
    assembler's invariant, what a completed inventory satisfies, protection from replay, and that the
    frames of an inventory reassemble to it in any order.
  \<^item> \<open>StateBroadcast\<close>, \<open>WireFormat\<close>, \<open>WireRoundTrip\<close> (\<^verbatim>\<open>state_broadcast.rs\<close>): the payload, its keys, the
    trust store, revisions, and the versioned encoding with every fallback; what is encoded decodes to
    itself, and the receiver checks the bytes the sender signed.
  \<^item> \<open>Handler\<close> defines the handler and its control path (\<^verbatim>\<open>state_broadcast.rs\<close>). \<open>HandlerLaws\<close> has the
    case analysis of receiving, the step relation \<open>handler_step\<close> and the locale \<open>handler_preserved\<close> of
    what an invariant must survive. \<open>HandlerInvariants\<close> interprets it for capacity, published metadata,
    provider ownership, the assembler and spend. \<open>HandlerAdmission\<close> shows what admission demands,
    \<open>HandlerState\<close> what a message changes and what it cannot, \<open>HandlerControl\<close> what is published and
    what the control path removes.
  \<^item> \<open>SwimCrypto\<close> (\<^verbatim>\<open>crypto.rs\<close>): the encrypted frame, its length and its round trip.
  \<^item> \<open>SwimNode\<close> (\<^verbatim>\<open>node.rs\<close>, \<^verbatim>\<open>runtime.rs\<close>, \<^verbatim>\<open>event.rs\<close>): the node's operations. \<open>NodeTrust\<close>: runs of a node
    are runs of the handler (\<open>node_step\<close>, split into received items and control steps), and the
    invariant that what a strict grid shows is vouched for by keys pinned at that moment; a queued
    broadcast fits a datagram.
  \<^item> \<open>Delivery\<close>: the converse of admission, from the encoding of an honest site to the snapshot.
  \<^item> \<open>EnrollmentStore\<close> (\<^verbatim>\<open>store.rs\<close>, \<^verbatim>\<open>store/renewal.rs\<close>) defines the in-process store; \<open>EnrollmentSafety\<close>
    has its runs, the locale \<open>store_preserved\<close> with its instances, and the properties of tokens, keys,
    forks and recovery.
  \<^item> \<open>LeaderElection\<close> (\<^verbatim>\<open>operator/src/leader.rs\<close>): the elector, cut where it awaits, and a system of replicas
    with their own clocks and a lease whose reads and writes fail, overlap and arrive late; at most one
    replica leads, and the lease of a dead holder is taken over.
  \<^item> \<open>RevisionLease\<close> (\<^verbatim>\<open>operator/src/main.rs\<close>, \<^verbatim>\<open>RevisionClock\<close> of \<^verbatim>\<open>swim_runtime.rs\<close>): planning a range, persisting
    it by compare-and-swap, handing it out and renewing it. \<open>RevisionSafety\<close>: over all runs of processes
    that share the \<^verbatim>\<open>ConfigMap\<close> no revision and no generation is used twice, and what is reserved is what
    peers accept.
  \<^item> \<open>MemberMirror\<close> (\<^verbatim>\<open>operator/src/swim.rs\<close>, \<^verbatim>\<open>TrackedMember\<close> of \<^verbatim>\<open>swim_runtime.rs\<close>): the member table; its bounds,
    and that a site with a live identity is neither marked dead nor evicted.
  \<^item> \<open>GridTrust\<close> (\<^verbatim>\<open>GridTrust\<close> of \<^verbatim>\<open>swim_runtime.rs\<close>): the trust snapshots of the controllers as pins of the node,
    and the signer of the site; applying an update refines an update of an abstract policy.
  \<^item> \<open>SwimRuntime\<close> (\<^verbatim>\<open>run_loop\<close> of \<^verbatim>\<open>swim_runtime.rs\<close> and what it calls): the loop that owns the node, one function
    per arm. \<open>RuntimeLaws\<close> has its runs (\<open>runtime_step\<close>) and the locales \<open>turns_lawful\<close> and \<open>acts_lawful\<close> of
    what a relation between states must respect, the second a sublocale of the first. \<open>RuntimeSafety\<close>
    interprets them for the runs of the node and its trust, \<open>RuntimeOutput\<close> for signatures, revisions,
    withdrawals and packets. \<open>RuntimeProperties\<close> states what follows for every run: readers see what the
    keys in force vouch for, the trust is what was asked for, publications are signed and in order, a
    withdrawn grid falls silent and its requests are answered, packets are sealed.

  \<^bold>\<open>Arguments of the model.\<close> Code of other crates is an argument with its documented behaviour as a named
  hypothesis: the serialisation (\<open>codec\<close>, with \<open>codec_reads\<close>: decoding reads back what was encoded),
  signature verification and hashing (\<open>handler_env\<close>), authenticated encryption (\<open>aead_inverts\<close>), the foca
  protocol (\<open>foca_api\<close>, with \<open>foca_lawful\<close>: it acts on the handler and the runtime by their callbacks
  only), the signing primitives (\<open>signer_lawful\<close>: a signature verifies under the public key of its key),
  socket addresses with their order (\<open>runtime_env\<close>), addition on calendar times and the expiry of a
  certificate (\<open>store_env\<close>), and random identifiers.
  Each such hypothesis has a witness with a concrete function.

  \<^bold>\<open>Bounds.\<close> Counts of elements are natural numbers: the maps are bounded by the constants of the code far
  below \<open>2 ^ 64\<close>. Integers that cross the wire, revisions, generations, counters and times in
  milliseconds, keep their width, with saturation or overflow written out. No definition uses fuel: every
  loop of the code is a fold over a finite list or structural recursion, and a loop that waits (the
  elector's) is a step relation. A string is its bytes, and a floating-point metric, which the modelled code
  only copies, its bit pattern. Instants are natural numbers of nanoseconds.

  \<^bold>\<open>Not modelled.\<close> The protocol inside foca, sockets, timers and tasks, and a panic or a crash of the
  SWIM loop; logging, metrics and subscriptions, with the view that wakes the reconcilers; the Postgres backend, whose meaning is its SQL; the enrollment service around the store;
  certificates and TLS (\<^verbatim>\<open>crates/certs\<close>, \<^verbatim>\<open>crates/client\<close>); the operator's controllers and Kubernetes
  calls; the gateway, its filters and scoring, whose decisions are floating-point; dashboards, mocks,
  test harnesses, build tooling and generated Go types.
\<close>

end
